(* ===== verification/Prelude.thy ===== *)
theory Prelude
  imports Main "HOL-Library.Word" "HOL-Library.List_Lexorder"
begin

section \<open>Shared vocabulary of the zero-secret development\<close>

text \<open>
  This theory holds what every component of the development shares: the machine integers,
  the outcome of a Rust call (a value, an error or a panic) with the combinators that stand
  for the question-mark operator, for collecting an iterator of results and for transposing
  an optional result, the bytes of a string, and the big-endian integer encodings of the
  standard library. The lemmas are generic; the collections \<open>outcome_simps\<close> and
  \<open>outcome_elims\<close> carry them into the component proofs.
\<close>

subsection \<open>Machine integers and bytes\<close>

type_synonym u8 = "8 word"
type_synonym u16 = "16 word"
type_synonym u32 = "32 word"
type_synonym u64 = "64 word"
type_synonym bytes = "8 word list"

text \<open>
  A Rust \<open>String\<close> is its UTF-8 byte sequence; a HOL \<open>char\<close> is one byte, so \<open>length\<close> of a
  \<open>string\<close> is what \<open>str::len\<close> counts. \<open>as_bytes\<close> is \<open>str::as_bytes\<close>.
\<close>

abbreviation char_code :: "char \<Rightarrow> nat" where
  "char_code c \<equiv> of_char c"

definition u8_of_char :: "char \<Rightarrow> u8" where
  "u8_of_char c = word_of_nat (of_char c)"

definition char_of_u8 :: "u8 \<Rightarrow> char" where
  "char_of_u8 b = char_of (unat b)"

definition as_bytes :: "string \<Rightarrow> bytes" where
  "as_bytes s = map u8_of_char s"

subsection \<open>Outcomes of a call\<close>

text \<open>
  A call of the source returns \<open>Ok\<close>, returns \<open>Err\<close>, or panics (an \<open>assert!\<close>, an
  \<open>expect\<close>, an index out of range). A panic is a value of the model, so that its absence is
  a statement.
\<close>

datatype ('a, 'e) outcome = Ok 'a | Err 'e | Panic

text \<open>\<open>and_then m f\<close> is the source's question-mark operator on \<open>m\<close>, continued by \<open>f\<close>.\<close>

fun and_then :: "('a, 'e) outcome \<Rightarrow> ('a \<Rightarrow> ('b, 'e) outcome) \<Rightarrow> ('b, 'e) outcome" where
  "and_then (Ok x) f = f x"
| "and_then (Err e) f = Err e"
| "and_then Panic f = Panic"

fun map_err :: "('e \<Rightarrow> 'f) \<Rightarrow> ('a, 'e) outcome \<Rightarrow> ('a, 'f) outcome" where
  "map_err g (Ok x) = Ok x"
| "map_err g (Err e) = Err (g e)"
| "map_err g Panic = Panic"

fun ok_or :: "'e \<Rightarrow> 'a option \<Rightarrow> ('a, 'e) outcome" where
  "ok_or e None = Err e"
| "ok_or e (Some x) = Ok x"

text \<open>\<open>Result::expect\<close>: an error panics.\<close>

fun expect :: "('a, 'e) outcome \<Rightarrow> ('a, 'f) outcome" where
  "expect (Ok x) = Ok x"
| "expect (Err e) = Panic"
| "expect Panic = Panic"

text \<open>\<open>Iterator::collect\<close> into a \<open>Result\<close> of a vector, and \<open>Option::transpose\<close>.\<close>

fun collect_results :: "('a, 'e) outcome list \<Rightarrow> ('a list, 'e) outcome" where
  "collect_results [] = Ok []"
| "collect_results (m # ms) =
     and_then m (\<lambda>x. and_then (collect_results ms) (\<lambda>xs. Ok (x # xs)))"

fun collect_options :: "'a option list \<Rightarrow> 'a list option" where
  "collect_options [] = Some []"
| "collect_options (None # ms) = None"
| "collect_options (Some x # ms) = map_option (Cons x) (collect_options ms)"

fun traverse_option :: "('a \<Rightarrow> ('b, 'e) outcome) \<Rightarrow> 'a option \<Rightarrow> ('b option, 'e) outcome" where
  "traverse_option f None = Ok None"
| "traverse_option f (Some x) = and_then (f x) (\<lambda>y. Ok (Some y))"

named_theorems outcome_simps "rewriting a monadic outcome against a known result"
named_theorems outcome_elims "eliminating a successful outcome"

lemma and_then_eq_Ok [outcome_simps]:
  "and_then m f = Ok y \<longleftrightarrow> (\<exists>x. m = Ok x \<and> f x = Ok y)"
  by (cases m) auto

lemma and_then_eq_Err [outcome_simps]:
  "and_then m f = Err e \<longleftrightarrow> m = Err e \<or> (\<exists>x. m = Ok x \<and> f x = Err e)"
  by (cases m) auto

lemma and_then_eq_Panic [outcome_simps]:
  "and_then m f = Panic \<longleftrightarrow> m = Panic \<or> (\<exists>x. m = Ok x \<and> f x = Panic)"
  by (cases m) auto

lemma map_err_eq_Ok [outcome_simps]: "map_err g m = Ok x \<longleftrightarrow> m = Ok x"
  by (cases m) auto

lemma map_err_eq_Err [outcome_simps]: "map_err g m = Err e \<longleftrightarrow> (\<exists>d. m = Err d \<and> e = g d)"
  by (cases m) auto

lemma map_err_eq_Panic [outcome_simps]: "map_err g m = Panic \<longleftrightarrow> m = Panic"
  by (cases m) auto

lemma ok_or_eq_Ok [outcome_simps]: "ok_or e m = Ok x \<longleftrightarrow> m = Some x"
  by (cases m) auto

lemma ok_or_eq_Err [outcome_simps]: "ok_or e m = Err d \<longleftrightarrow> m = None \<and> d = e"
  by (cases m) auto

lemma ok_or_not_Panic [outcome_simps]: "ok_or e m \<noteq> Panic"
  by (cases m) auto

lemma expect_eq_Ok [outcome_simps]: "expect m = Ok x \<longleftrightarrow> m = Ok x"
  by (cases m) auto

lemma if_Err_eq_Ok [outcome_simps]: "(if b then Err e else m) = Ok x \<longleftrightarrow> \<not> b \<and> m = Ok x"
  by simp

lemma if_Err_eq_Panic [outcome_simps]: "(if b then Err e else m) = Panic \<longleftrightarrow> \<not> b \<and> m = Panic"
  by simp

lemma traverse_option_eq_Ok [outcome_simps]:
  "traverse_option f m = Ok r \<longleftrightarrow>
     (case m of None \<Rightarrow> r = None | Some x \<Rightarrow> (\<exists>y. f x = Ok y \<and> r = Some y))"
  by (cases m) (auto simp: outcome_simps)

lemma collect_results_eq_Ok:
  "collect_results ms = Ok xs \<longleftrightarrow> ms = map Ok xs"
proof (induction ms arbitrary: xs)
  case Nil
  then show ?case by auto
next
  case (Cons m ms)
  then show ?case by (cases xs) (auto simp: outcome_simps)
qed

lemma collect_results_map_Ok [simp]: "collect_results (map Ok xs) = Ok xs"
  by (simp add: collect_results_eq_Ok)

lemma collect_options_eq_Some: "collect_options ms = Some xs \<longleftrightarrow> ms = map Some xs"
proof (induction ms arbitrary: xs rule: collect_options.induct)
  case (3 x ms)
  then show ?case by (cases xs) auto
qed auto

lemma collect_options_map_Some [simp]: "collect_options (map Some xs) = Some xs"
  by (simp add: collect_options_eq_Some)

lemma map_eq_list_all2: "map f xs = map g ys \<longleftrightarrow> list_all2 (\<lambda>x y. f x = g y) xs ys"
  by (simp add: list_all2_map1 list_all2_map2 flip: list.rel_eq)

subsection \<open>Stateful calls\<close>

text \<open>
  A call that changes a state takes it as its last argument and returns the outcome with the
  new state. \<open>act_bind\<close> sequences two such calls as the question-mark operator does: the state
  reached before an error is the state the caller finds.
\<close>

type_synonym ('s, 'a, 'e) action = "'s \<Rightarrow> ('a, 'e) outcome \<times> 's"

definition act_return :: "'a \<Rightarrow> ('s, 'a, 'e) action" where
  "act_return x s = (Ok x, s)"

definition act_lift :: "('a, 'e) outcome \<Rightarrow> ('s, 'a, 'e) action" where
  "act_lift r s = (r, s)"

definition act_bind :: "('s, 'a, 'e) action \<Rightarrow> ('a \<Rightarrow> ('s, 'b, 'e) action) \<Rightarrow> ('s, 'b, 'e) action" where
  "act_bind m f s =
     (case m s of
        (Ok x, s') \<Rightarrow> f x s'
      | (Err e, s') \<Rightarrow> (Err e, s')
      | (Panic, s') \<Rightarrow> (Panic, s'))"

definition act_map_err :: "('e \<Rightarrow> 'f) \<Rightarrow> ('s, 'a, 'e) action \<Rightarrow> ('s, 'a, 'f) action" where
  "act_map_err g m s = (case m s of (r, s') \<Rightarrow> (map_err g r, s'))"

lemma act_bind_eq_Ok [outcome_simps]:
  "act_bind m f s = (Ok y, s'') \<longleftrightarrow> (\<exists>x s'. m s = (Ok x, s') \<and> f x s' = (Ok y, s''))"
  by (auto simp: act_bind_def split: prod.splits outcome.splits)

lemma act_bind_Ok [simp]: "m s = (Ok x, s') \<Longrightarrow> act_bind m f s = f x s'"
  by (simp add: act_bind_def)

lemma act_bind_Err [simp]: "m s = (Err e, s') \<Longrightarrow> act_bind m f s = (Err e, s')"
  by (simp add: act_bind_def)

lemma act_bind_fst_cases:
  "fst (act_bind m f s) =
     (case m s of (Ok x, s') \<Rightarrow> fst (f x s') | (Err e, s') \<Rightarrow> Err e | (Panic, s') \<Rightarrow> Panic)"
  by (auto simp: act_bind_def split: prod.splits outcome.splits)

lemma case_outcome_eq_Ok [outcome_simps]:
  "(case m of (Ok x, s) \<Rightarrow> f x s | (Err e, s) \<Rightarrow> (Err (g e), h e s) | (Panic, s) \<Rightarrow> (Panic, k s)) =
     (Ok y, s') \<longleftrightarrow> (\<exists>x s. m = (Ok x, s) \<and> f x s = (Ok y, s'))"
  by (auto split: prod.splits outcome.splits)

lemma act_map_err_eq_Ok [outcome_simps]: "act_map_err g m s = (Ok x, s') \<longleftrightarrow> m s = (Ok x, s')"
  by (auto simp: act_map_err_def outcome_simps split: prod.splits)

lemma act_lift_eq [outcome_simps]: "act_lift r s = (q, s') \<longleftrightarrow> r = q \<and> s' = s"
  by (auto simp: act_lift_def)

lemma act_return_eq [outcome_simps]: "act_return x s = (q, s') \<longleftrightarrow> q = Ok x \<and> s' = s"
  by (auto simp: act_return_def)

subsection \<open>Strings and their bytes\<close>

lemma of_char_nat_less: "(of_char c :: nat) < 256"
  by simp

lemma char_of_u8_of_char [simp]: "char_of_u8 (u8_of_char c) = c"
  by (simp add: char_of_u8_def u8_of_char_def unat_of_nat take_bit_nat_eq_self)

lemma unat_word_of_nat_eq:
  "n < 2 ^ LENGTH('a) \<Longrightarrow> unat (word_of_nat n :: 'a::len word) = n"
  by (simp add: unat_of_nat take_bit_nat_eq_self)

lemma unat_u8_less: "unat (b :: u8) < 256"
proof -
  have "unat b < 2 ^ LENGTH(8)" by (rule unsigned_less)
  then show ?thesis by simp
qed

lemma u8_of_char_of_u8 [simp]: "u8_of_char (char_of_u8 b) = b"
proof -
  have "of_char (char_of (unat b)) = unat b"
    using unat_u8_less [of b] by simp
  then show ?thesis by (simp add: char_of_u8_def u8_of_char_def)
qed

lemma inj_u8_of_char: "inj u8_of_char"
  by (metis injI char_of_u8_of_char)

lemma as_bytes_inj [simp]: "as_bytes s = as_bytes t \<longleftrightarrow> s = t"
  by (simp add: as_bytes_def inj_map_eq_map inj_u8_of_char)

lemma as_bytes_Nil [simp]: "as_bytes [] = []"
  by (simp add: as_bytes_def)

lemma as_bytes_Cons [simp]: "as_bytes (c # s) = u8_of_char c # as_bytes s"
  by (simp add: as_bytes_def)

lemma as_bytes_append [simp]: "as_bytes (s @ t) = as_bytes s @ as_bytes t"
  by (simp add: as_bytes_def)

lemma length_as_bytes [simp]: "length (as_bytes s) = length s"
  by (simp add: as_bytes_def)

lemma as_bytes_eq_Nil [simp]: "as_bytes s = [] \<longleftrightarrow> s = []"
  by (simp add: as_bytes_def)

lemma as_bytes_char_of_u8 [simp]: "as_bytes (map char_of_u8 bs) = bs"
  by (simp add: as_bytes_def comp_def)

subsection \<open>Integers in network order\<close>

text \<open>\<open>u64::to_be_bytes\<close>, \<open>u32::from_be_bytes\<close> and \<open>u16::from_be_bytes\<close>.\<close>

definition u64_to_be_bytes :: "u64 \<Rightarrow> bytes" where
  "u64_to_be_bytes w = map (\<lambda>i. ucast (drop_bit (8 * i) w)) [7, 6, 5, 4, 3, 2, 1, 0]"

definition u32_from_be_bytes :: "u8 \<Rightarrow> u8 \<Rightarrow> u8 \<Rightarrow> u8 \<Rightarrow> u32" where
  "u32_from_be_bytes b0 b1 b2 b3 =
     word_of_nat (((unat b0 * 256 + unat b1) * 256 + unat b2) * 256 + unat b3)"

definition u16_from_be_bytes :: "u8 \<Rightarrow> u8 \<Rightarrow> u16" where
  "u16_from_be_bytes b0 b1 = word_of_nat (unat b0 * 256 + unat b1)"

lemma length_u64_to_be_bytes [simp]: "length (u64_to_be_bytes w) = 8"
  by (simp add: u64_to_be_bytes_def)

lemma unat_u32_from_be_bytes:
  "unat (u32_from_be_bytes b0 b1 b2 b3) =
     ((unat b0 * 256 + unat b1) * 256 + unat b2) * 256 + unat b3"
proof -
  have "((unat b0 * 256 + unat b1) * 256 + unat b2) * 256 + unat b3 < 2 ^ 32"
    using unat_u8_less [of b0] unat_u8_less [of b1] unat_u8_less [of b2] unat_u8_less [of b3]
    by simp
  then show ?thesis
    unfolding u32_from_be_bytes_def by (intro unat_word_of_nat_eq) simp
qed

lemma unat_u16_from_be_bytes:
  "unat (u16_from_be_bytes b0 b1) = unat b0 * 256 + unat b1"
proof -
  have "unat b0 * 256 + unat b1 < 2 ^ 16"
    using unat_u8_less [of b0] unat_u8_less [of b1] by simp
  then show ?thesis
    unfolding u16_from_be_bytes_def by (intro unat_word_of_nat_eq) simp
qed

lemma u64_to_be_bytes_inj [simp]: "u64_to_be_bytes v = u64_to_be_bytes w \<longleftrightarrow> v = w"
proof
  assume eq: "u64_to_be_bytes v = u64_to_be_bytes w"
  show "v = w"
  proof (rule bit_word_eqI)
    fix n assume n: "n < LENGTH(64)"
    define i where "i = n div 8"
    have "i \<in> set [7, 6, 5, 4, 3, 2, 1, 0]" using n by (auto simp: i_def)
    with eq have "(ucast (drop_bit (8 * i) v) :: u8) = ucast (drop_bit (8 * i) w)"
      by (auto simp: u64_to_be_bytes_def)
    then have "bit (ucast (drop_bit (8 * i) v) :: u8) (n mod 8) =
        bit (ucast (drop_bit (8 * i) w) :: u8) (n mod 8)" by simp
    moreover have "8 * i + n mod 8 = n" by (simp add: i_def)
    ultimately show "bit v n = bit w n"
      by (simp add: bit_ucast_iff bit_drop_bit_eq)
  qed
qed simp

end
