(* ===== verification/Handlers.thy ===== *)
theory Handlers
  imports Prelude
begin

section \<open>Asynchronous handlers\<close>

text \<open>
  An \<open>async\<close> handler runs concurrently with the other handlers of its process: between two of its
  calls to the outside (a query, a reading of the clock, a sealing task) any of them may run. A
  handler is a resumption over a world: finished, or a step that acts on the world once and leaves the
  rest of the handler. The theory gives the combinators, the sequential run, the system of any number
  of handlers in any interleaving as a step relation, and the rely-guarantee rules that lift a fact
  proved of each step to every reachable state of the system.
\<close>

datatype ('w, 'a) handler = Done 'a | Step "'w \<Rightarrow> ('w, 'a) handler \<times> 'w"

primrec handler_bind :: "('w, 'a) handler \<Rightarrow> ('a \<Rightarrow> ('w, 'b) handler) \<Rightarrow> ('w, 'b) handler" where
  "handler_bind (Done x) k = k x"
| "handler_bind (Step f) k = Step (\<lambda>w. map_prod (\<lambda>p. handler_bind p k) id (f w))"

text \<open>The question-mark operator between two parts of a handler.\<close>

fun continue_ok :: "('a \<Rightarrow> ('w, ('b, 'e) outcome) handler) \<Rightarrow> ('a, 'e) outcome \<Rightarrow> ('w, ('b, 'e) outcome) handler" where
  "continue_ok k (Ok x) = k x"
| "continue_ok k (Err e) = Done (Err e)"
| "continue_ok k Panic = Done Panic"

definition await ::
  "('w, ('a, 'e) outcome) handler \<Rightarrow> ('a \<Rightarrow> ('w, ('b, 'e) outcome) handler) \<Rightarrow> ('w, ('b, 'e) outcome) handler" where
  "await p k = handler_bind p (continue_ok k)"

definition atomic :: "('w, 'a, 'e) action \<Rightarrow> ('w, ('a, 'e) outcome) handler" where
  "atomic m = Step (\<lambda>w. map_prod Done id (m w))"

definition pure_step :: "('a, 'e) outcome \<Rightarrow> ('w, ('a, 'e) outcome) handler" where
  "pure_step r = Done r"

lemma handler_induct [case_names Done Step]:
  assumes "\<And>x. Q (Done x)" and "\<And>f. (\<And>w. Q (fst (f w))) \<Longrightarrow> Q (Step f)"
  shows "Q p"
proof (induction p)
  case (Step f)
  show ?case
  proof (rule assms(2), rule Step)
    show "fst (f w) \<in> Basic_BNFs.fsts (f w)" for w by (cases "f w") simp
  qed simp
qed (rule assms(1))

subsection \<open>Running alone\<close>

primrec run_handler :: "('w, 'a) handler \<Rightarrow> 'w \<Rightarrow> 'a \<times> 'w" where
  "run_handler (Done x) = (\<lambda>w. (x, w))"
| "run_handler (Step f) = (\<lambda>w. case map_prod run_handler id (f w) of (g, w') \<Rightarrow> g w')"

lemma run_handler_Step: "run_handler (Step f) w = run_handler (fst (f w)) (snd (f w))"
  by (simp add: case_prod_beta)

declare run_handler.simps(2) [simp del] run_handler_Step [simp]

lemma run_handler_bind:
  "run_handler (handler_bind p k) w = (case run_handler p w of (x, w') \<Rightarrow> run_handler (k x) w')"
  by (induction p arbitrary: w rule: handler_induct) simp_all

text \<open>A handler that runs alone is the action of its steps in sequence.\<close>

lemma run_await: "run_handler (await p k) = act_bind (run_handler p) (\<lambda>x. run_handler (k x))"
  by (rule ext) (auto simp: await_def run_handler_bind act_bind_def split: outcome.splits prod.splits)

lemma run_atomic: "run_handler (atomic m) = m"
  by (rule ext) (simp add: atomic_def)

lemma run_pure: "run_handler (pure_step r) = act_lift r"
  by (rule ext) (simp add: pure_step_def act_lift_def)

lemmas run_handler_simps = run_await run_atomic run_pure

subsection \<open>Bounded handlers\<close>

text \<open>A handler that answers after at most \<open>n\<close> of its steps, whatever the world does between them.\<close>

primrec answers_within :: "('w, 'a) handler \<Rightarrow> nat \<Rightarrow> bool" where
  "answers_within (Done x) n = True"
| "answers_within (Step f) n = (\<forall>w. case map_prod answers_within id (f w) of (q, _) \<Rightarrow> 0 < n \<and> q (n - 1))"

lemma answers_within_Step:
  "answers_within (Step f) n \<longleftrightarrow> 0 < n \<and> (\<forall>w. answers_within (fst (f w)) (n - 1))"
  by (auto simp: case_prod_beta)

declare answers_within.simps(2) [simp del]

lemma answers_within_mono: "answers_within p n \<Longrightarrow> n \<le> m \<Longrightarrow> answers_within p m"
proof (induction p arbitrary: n m rule: handler_induct)
  case (Step f)
  have "answers_within (fst (f w)) (m - 1)" for w
    using Step.IH [of w "n - 1" "m - 1"] Step.prems by (simp add: answers_within_Step)
  with Step.prems show ?case by (simp add: answers_within_Step)
qed simp

lemma answers_within_bind:
  "answers_within p n \<Longrightarrow> (\<And>x. answers_within (k x) m) \<Longrightarrow> answers_within (handler_bind p k) (n + m)"
proof (induction p arbitrary: n rule: handler_induct)
  case (Done x)
  then show ?case using answers_within_mono [of "k x" m "n + m"] by simp
next
  case (Step f)
  have "answers_within (handler_bind (fst (f w)) k) (n - 1 + m)" for w
    using Step.IH [of w "n - 1"] Step.prems by (simp add: answers_within_Step)
  with Step.prems(1) show ?case by (simp add: answers_within_Step)
qed

lemma answers_within_atomic: "answers_within (atomic m) 1"
  by (simp add: atomic_def answers_within_Step)

lemma answers_within_pure: "answers_within (pure_step r) 0"
  by (simp add: pure_step_def)

lemma answers_within_await:
  assumes "answers_within p n" and "\<And>x. answers_within (k x) m"
  shows "answers_within (await p k) (n + m)"
  unfolding await_def
proof (rule answers_within_bind [OF assms(1)])
  show "answers_within (continue_ok k r) m" for r by (cases r) (simp_all add: assms(2))
qed

subsection \<open>Handlers that run together\<close>

text \<open>
  The state of a process is the world and its handlers, each with the request it serves. A request
  arrives at any moment; the environment may change the world as \<open>env\<close> says.
\<close>

type_synonym ('w, 'q, 'a) process = "'w \<times> ('q \<times> ('w, 'a) handler) list"

inductive process_step ::
  "('q \<Rightarrow> ('w, 'a) handler) \<Rightarrow> ('w \<Rightarrow> 'w \<Rightarrow> bool) \<Rightarrow> ('w, 'q, 'a) process \<Rightarrow> ('w, 'q, 'a) process \<Rightarrow> bool"
  for serve env where
  arrive: "process_step serve env (w, hs) (w, hs @ [(q, serve q)])"
| resume: "i < length hs \<Longrightarrow> hs ! i = (q, Step f) \<Longrightarrow>
    process_step serve env (w, hs) (snd (f w), hs[i := (q, fst (f w))])"
| outside: "env w w' \<Longrightarrow> process_step serve env (w, hs) (w', hs)"

abbreviation process_steps where
  "process_steps serve env \<equiv> (process_step serve env)\<^sup>*\<^sup>*"

inductive_cases process_step_cases: "process_step serve env s s'"

lemma process_steps_finish:
  "i < length hs \<Longrightarrow> hs ! i = (q, p) \<Longrightarrow>
   process_steps serve env (w, hs) (snd (run_handler p w), hs[i := (q, Done (fst (run_handler p w)))])"
proof (induction p arbitrary: w hs rule: handler_induct)
  case (Done x)
  then show ?case by (metis list_update_id run_handler.simps(1) rtranclp.rtrancl_refl fst_conv snd_conv)
next
  case (Step f)
  let ?hs = "hs[i := (q, fst (f w))]"
  have "process_step serve env (w, hs) (snd (f w), ?hs)" using Step.prems by (rule resume)
  moreover have "process_steps serve env (snd (f w), ?hs)
      (snd (run_handler (fst (f w)) (snd (f w))), ?hs[i := (q, Done (fst (run_handler (fst (f w)) (snd (f w)))))])"
    using Step.prems by (intro Step.IH) simp_all
  ultimately show ?case by (simp add: converse_rtranclp_into_rtranclp)
qed

text \<open>A request that is served without interruption is an execution of the process.\<close>

lemma process_steps_serve:
  "process_steps serve env (w, hs)
     (snd (run_handler (serve q) w), hs @ [(q, Done (fst (run_handler (serve q) w)))])"
proof -
  have "process_step serve env (w, hs) (w, hs @ [(q, serve q)])" by (rule arrive)
  with process_steps_finish [of "length hs" "hs @ [(q, serve q)]" q "serve q" serve env w]
  show ?thesis by (simp add: converse_rtranclp_into_rtranclp)
qed

text \<open>
  Executions with the number of steps their handlers took. When the handlers of all requests are bounded,
  so is that number, however the steps interleave: each handler carries the steps it has left.
\<close>

inductive process_run ::
  "('q \<Rightarrow> ('w, 'a) handler) \<Rightarrow> ('w \<Rightarrow> 'w \<Rightarrow> bool) \<Rightarrow> ('w, 'q, 'a) process \<Rightarrow> nat \<Rightarrow> ('w, 'q, 'a) process \<Rightarrow> bool"
  for serve env s where
  run_start: "process_run serve env s 0 s"
| run_arrive: "process_run serve env s n (w, hs) \<Longrightarrow> process_run serve env s n (w, hs @ [(q, serve q)])"
| run_resume: "process_run serve env s n (w, hs) \<Longrightarrow> i < length hs \<Longrightarrow> hs ! i = (q, Step f) \<Longrightarrow>
    process_run serve env s (Suc n) (snd (f w), hs[i := (q, fst (f w))])"
| run_outside: "process_run serve env s n (w, hs) \<Longrightarrow> env w w' \<Longrightarrow> process_run serve env s n (w', hs)"

lemma process_run_iff: "process_steps serve env s s' \<longleftrightarrow> (\<exists>n. process_run serve env s n s')"
proof
  assume "process_steps serve env s s'"
  then show "\<exists>n. process_run serve env s n s'"
  proof induction
    case (step s1 s2)
    then obtain n where run: "process_run serve env s n s1" by blast
    from step(2) run show ?case by (cases rule: process_step.cases) (blast intro: process_run.intros)+
  qed (blast intro: run_start)
next
  assume "\<exists>n. process_run serve env s n s'"
  then obtain n where "process_run serve env s n s'" ..
  then show "process_steps serve env s s'"
    by induction (auto intro: rtranclp.rtrancl_into_rtrancl process_step.intros)
qed

definition within_budget :: "('w, 'q, 'a) process \<Rightarrow> nat list \<Rightarrow> bool" where
  "within_budget s bs \<longleftrightarrow> list_all2 (\<lambda>h b. answers_within (snd h) b) (snd s) bs"

lemma process_run_budget:
  assumes bounded: "\<And>q. answers_within (serve q) N" and "process_run serve env (w0, []) n s"
  shows "\<exists>bs. within_budget s bs \<and> n + sum_list bs = N * length (snd s)"
  using assms(2)
proof induction
  case (run_arrive n w hs q)
  then obtain bs where "within_budget (w, hs) bs" "n + sum_list bs = N * length hs" by auto
  then have "within_budget (w, hs @ [(q, serve q)]) (bs @ [N])" "n + sum_list (bs @ [N]) = N * length (hs @ [(q, serve q)])"
    using bounded by (simp_all add: within_budget_def list_all2_appendI)
  then show ?case by auto
next
  case (run_resume n w hs i q f)
  then obtain bs where bs: "within_budget (w, hs) bs" "n + sum_list bs = N * length hs" by auto
  then have i: "i < length bs" "answers_within (Step f) (bs ! i)"
    using run_resume(2,3) unfolding within_budget_def list_all2_conv_all_nth by (auto dest: spec [of _ i])
  then have "within_budget (snd (f w), hs[i := (q, fst (f w))]) (bs[i := bs ! i - 1])" and "0 < bs ! i"
    using bs(1) by (auto simp: within_budget_def answers_within_Step intro: list_all2_update_cong)
  moreover have "Suc n + sum_list (bs[i := bs ! i - 1]) = N * length hs"
    using i(1) bs(2) \<open>0 < bs ! i\<close> elem_le_sum_list [OF i(1)] by (simp add: sum_list_update)
  ultimately show ?case by auto
qed (auto simp: within_budget_def)

lemma process_run_bound:
  assumes "\<And>q. answers_within (serve q) N" and "process_run serve env (w0, []) n (w, hs)"
  shows "n \<le> N * length hs"
  using process_run_budget [OF assms] by auto

subsection \<open>Rely and guarantee\<close>

text \<open>
  \<open>R\<close> says how the world may evolve under everyone's steps and \<open>I\<close> is its invariant. A handler is safe
  from \<open>w\<close> when each of its steps, taken in any world reached from \<open>w\<close>, keeps both, and its answer
  satisfies \<open>Q\<close>.
\<close>

primrec safe_handler ::
  "('w \<Rightarrow> bool) \<Rightarrow> ('w \<Rightarrow> 'w \<Rightarrow> bool) \<Rightarrow> ('a \<Rightarrow> 'w \<Rightarrow> bool) \<Rightarrow> ('w, 'a) handler \<Rightarrow> 'w \<Rightarrow> bool" where
  "safe_handler I R Q (Done x) = (\<lambda>w. Q x w)"
| "safe_handler I R Q (Step f) = (\<lambda>w. \<forall>w'. R w w' \<longrightarrow> I w' \<longrightarrow>
     I (snd (f w')) \<and> R w' (snd (f w')) \<and> fst (map_prod (safe_handler I R Q) id (f w')) (snd (f w')))"

lemma safe_handler_Step:
  "safe_handler I R Q (Step f) w \<longleftrightarrow> (\<forall>w'. R w w' \<longrightarrow> I w' \<longrightarrow>
     I (snd (f w')) \<and> R w' (snd (f w')) \<and> safe_handler I R Q (fst (f w')) (snd (f w')))"
  by simp

declare safe_handler.simps(2) [simp del]

definition stable_post :: "('w \<Rightarrow> 'w \<Rightarrow> bool) \<Rightarrow> ('a \<Rightarrow> 'w \<Rightarrow> bool) \<Rightarrow> bool" where
  "stable_post R Q \<longleftrightarrow> (\<forall>x v w. R v w \<longrightarrow> Q x v \<longrightarrow> Q x w)"

text \<open>A process whose handlers are safe from its world.\<close>

definition process_ok ::
  "('w \<Rightarrow> bool) \<Rightarrow> ('w \<Rightarrow> 'w \<Rightarrow> bool) \<Rightarrow> ('q \<Rightarrow> 'a \<Rightarrow> 'w \<Rightarrow> bool) \<Rightarrow> ('w, 'q, 'a) process \<Rightarrow> bool" where
  "process_ok I R Q s \<longleftrightarrow> I (fst s) \<and> (\<forall>(q, p) \<in> set (snd s). safe_handler I R (Q q) p (fst s))"

locale rely_guarantee =
  fixes I :: "'w \<Rightarrow> bool"
    and R :: "'w \<Rightarrow> 'w \<Rightarrow> bool"
  assumes R_refl: "R w w"
    and R_trans: "R u v \<Longrightarrow> R v w \<Longrightarrow> R u w"
begin

lemma safe_later:
  assumes "stable_post R Q" "safe_handler J R Q p v" "R v w"
  shows "safe_handler J R Q p w"
  using assms by (cases p) (auto simp: stable_post_def safe_handler_Step intro: R_trans)

lemma safe_done: "safe_handler I R Q (Done x) w \<longleftrightarrow> Q x w"
  by simp

lemma safe_bind:
  assumes "safe_handler I R Q p w"
    and "\<And>x w'. R w w' \<Longrightarrow> Q x w' \<Longrightarrow> safe_handler I R Q' (k x) w'"
  shows "safe_handler I R Q' (handler_bind p k) w"
  using assms
proof (induction p arbitrary: w rule: handler_induct)
  case (Done x)
  then show ?case using R_refl by simp
next
  case (Step f)
  show ?case
    unfolding handler_bind.simps safe_handler_Step
  proof (intro allI impI)
    fix w' assume w': "R w w'" "I w'"
    let ?v = "snd (f w')"
    from w' Step.prems(1) have "I ?v \<and> R w' ?v" and sub: "safe_handler I R Q (fst (f w')) ?v"
      unfolding safe_handler_Step by blast+
    moreover have "safe_handler I R Q' (handler_bind (fst (f w')) k) ?v"
      using Step.IH [OF sub] Step.prems(2) calculation w' by (meson R_trans)
    ultimately show "I (snd (map_prod (\<lambda>p. handler_bind p k) id (f w'))) \<and>
        R w' (snd (map_prod (\<lambda>p. handler_bind p k) id (f w'))) \<and>
        safe_handler I R Q' (fst (map_prod (\<lambda>p. handler_bind p k) id (f w')))
          (snd (map_prod (\<lambda>p. handler_bind p k) id (f w')))"
      by simp
  qed
qed

lemma safe_atomic:
  assumes "\<And>w'. R w w' \<Longrightarrow> I w' \<Longrightarrow> I (snd (m w')) \<and> R w' (snd (m w')) \<and> Q (fst (m w')) (snd (m w'))"
  shows "safe_handler I R Q (atomic m) w"
  using assms by (simp add: atomic_def safe_handler_Step)

lemma safe_pure: "Q r w \<Longrightarrow> safe_handler I R Q (pure_step r) w"
  by (simp add: pure_step_def)

text \<open>
  The rule for the question mark: the answers \<open>Err\<close> and \<open>Panic\<close> of the first part are answers of the
  whole, a value continues.
\<close>

lemma safe_await:
  assumes "safe_handler I R Q p w"
    and "\<And>e w'. R w w' \<Longrightarrow> Q (Err e) w' \<Longrightarrow> Q' (Err e) w'"
    and "\<And>w'. R w w' \<Longrightarrow> Q Panic w' \<Longrightarrow> Q' Panic w'"
    and "\<And>x w'. R w w' \<Longrightarrow> Q (Ok x) w' \<Longrightarrow> safe_handler I R Q' (k x) w'"
  shows "safe_handler I R Q' (await p k) w"
  unfolding await_def
proof (rule safe_bind [OF assms(1)])
  fix r w' assume "R w w'" "Q r w'"
  then show "safe_handler I R Q' (continue_ok k r) w'" using assms(2-4) by (cases r) auto
qed

lemma safe_run:
  assumes "safe_handler I R Q p w" "I w"
  shows "I (snd (run_handler p w)) \<and> R w (snd (run_handler p w)) \<and> Q (fst (run_handler p w)) (snd (run_handler p w))"
  using assms
proof (induction p arbitrary: w rule: handler_induct)
  case (Step f)
  from Step.prems R_refl have "I (snd (f w)) \<and> R w (snd (f w)) \<and> safe_handler I R Q (fst (f w)) (snd (f w))"
    by (simp add: safe_handler_Step)
  with Step.IH [of w "snd (f w)"] show ?case by (auto intro: R_trans)
qed (simp add: R_refl)

text \<open>Safe handlers make a safe process, however their steps interleave.\<close>

lemma process_step_ok:
  assumes "process_step serve env s s'" "process_ok I R Q s"
    and "\<And>q. stable_post R (Q q)" "\<And>q w. I w \<Longrightarrow> safe_handler I R (Q q) (serve q) w"
    and "\<And>w w'. env w w' \<Longrightarrow> I w \<Longrightarrow> I w' \<and> R w w'"
  shows "process_ok I R Q s' \<and> R (fst s) (fst s')"
  using assms(1)
proof cases
  case (arrive w hs q)
  then show ?thesis using assms(2,4) R_refl by (auto simp: process_ok_def)
next
  case (resume i hs q f w)
  let ?v = "snd (f w)"
  from resume assms(2) nth_mem [of i hs] have "safe_handler I R (Q q) (Step f) w" and inv: "I w"
    by (auto simp: process_ok_def)
  then have v: "I ?v" "R w ?v" "safe_handler I R (Q q) (fst (f w)) ?v"
    using R_refl by (simp_all add: safe_handler_Step)
  have "safe_handler I R (Q r) p ?v" if "(r, p) \<in> set hs" for r p
    using that assms(2) resume safe_later [OF assms(3) _ v(2)] by (auto simp: process_ok_def)
  with v resume show ?thesis
    by (auto simp: process_ok_def dest!: set_update_subset_insert [THEN subsetD])
next
  case (outside w w' hs)
  with assms(2,5) have v: "I w'" "R w w'" by (auto simp: process_ok_def)
  then show ?thesis using outside assms(2) safe_later [OF assms(3) _ v(2)] by (auto simp: process_ok_def)
qed

theorem process_steps_ok:
  assumes "process_steps serve env s s'" "process_ok I R Q s"
    and "\<And>q. stable_post R (Q q)" "\<And>q w. I w \<Longrightarrow> safe_handler I R (Q q) (serve q) w"
    and "\<And>w w'. env w w' \<Longrightarrow> I w \<Longrightarrow> I w' \<and> R w w'"
  shows "process_ok I R Q s' \<and> R (fst s) (fst s')"
  using assms(1,2)
proof (induction rule: rtranclp_induct)
  case (step s' s'')
  then show ?case using process_step_ok [OF step(2) _ assms(3-5)] by (blast intro: R_trans)
qed (simp add: R_refl)

end

subsection \<open>Handlers that arrive later\<close>

text \<open>
  Once a stable condition \<open>K\<close> holds of the world, the handlers of the requests that arrive from then on may
  rely on it; the handlers that were already there remain safe.
\<close>

definition late_ok ::
  "('w \<Rightarrow> bool) \<Rightarrow> ('w \<Rightarrow> 'w \<Rightarrow> bool) \<Rightarrow> nat \<Rightarrow> ('q \<Rightarrow> 'a \<Rightarrow> 'w \<Rightarrow> bool) \<Rightarrow> ('w, 'q, 'a) process \<Rightarrow> bool" where
  "late_ok J R n Q s \<longleftrightarrow> n \<le> length (snd s) \<and>
     (\<forall>i < length (snd s). n \<le> i \<longrightarrow> safe_handler J R (Q (fst (snd s ! i))) (snd (snd s ! i)) (fst s))"

context rely_guarantee
begin

lemma safe_strengthen:
  assumes "safe_handler I R Q p w" "K w" "\<And>v w. R v w \<Longrightarrow> K v \<Longrightarrow> K w"
  shows "safe_handler (\<lambda>w. I w \<and> K w) R Q p w"
  using assms(1,2)
proof (induction p arbitrary: w rule: handler_induct)
  case (Step f)
  then show ?case using assms(3) unfolding safe_handler_Step by (metis (no_types, lifting))
qed simp

lemma late_step:
  assumes "process_step serve env s s'" "process_ok I R Q s"
    and Q: "\<And>q. stable_post R (Q q)" "\<And>q w. I w \<Longrightarrow> safe_handler I R (Q q) (serve q) w"
      "\<And>w w'. env w w' \<Longrightarrow> I w \<Longrightarrow> I w' \<and> R w w'"
    and K: "\<And>w w'. R w w' \<Longrightarrow> K w \<Longrightarrow> K w'" "K (fst s)"
    and Q': "\<And>q. stable_post R (Q' q)" "\<And>q w. I w \<Longrightarrow> K w \<Longrightarrow> safe_handler (\<lambda>w. I w \<and> K w) R (Q' q) (serve q) w"
    and late: "late_ok (\<lambda>w. I w \<and> K w) R n Q' s"
  shows "late_ok (\<lambda>w. I w \<and> K w) R n Q' s'"
proof -
  let ?J = "\<lambda>w. I w \<and> K w"
  have inv: "I (fst s)" and R: "R (fst s) (fst s')"
    using assms(2) process_step_ok [OF assms(1,2) Q] by (simp_all add: process_ok_def)
  have old: "safe_handler ?J R (Q' (fst (snd s ! i))) (snd (snd s ! i)) (fst s')" if "i < length (snd s)" "n \<le> i" for i
    using late that safe_later [OF Q'(1) _ R] by (simp add: late_ok_def)
  from assms(1) show ?thesis
  proof cases
    case (arrive w hs q)
    with old late inv K(2) Q'(2) [of w q] show ?thesis
      by (auto simp: late_ok_def nth_append less_Suc_eq)
  next
    case (resume i hs q f w)
    have "safe_handler ?J R (Q' q) (fst (f w)) (snd (f w))" if "n \<le> i"
      using late that resume inv K(2) R_refl by (auto simp: late_ok_def safe_handler_Step)
    with old late resume show ?thesis by (auto simp: late_ok_def nth_list_update)
  next
    case (outside w w' hs)
    with old late show ?thesis by (auto simp: late_ok_def)
  qed
qed

theorem late_steps:
  assumes "process_steps serve env s s'" "process_ok I R Q s"
    and Q: "\<And>q. stable_post R (Q q)" "\<And>q w. I w \<Longrightarrow> safe_handler I R (Q q) (serve q) w"
      "\<And>w w'. env w w' \<Longrightarrow> I w \<Longrightarrow> I w' \<and> R w w'"
    and K: "\<And>w w'. R w w' \<Longrightarrow> K w \<Longrightarrow> K w'" "K (fst s)"
    and Q': "\<And>q. stable_post R (Q' q)" "\<And>q w. I w \<Longrightarrow> K w \<Longrightarrow> safe_handler (\<lambda>w. I w \<and> K w) R (Q' q) (serve q) w"
  shows "late_ok (\<lambda>w. I w \<and> K w) R (length (snd s)) Q' s'"
  using assms(1)
proof (induction rule: rtranclp_induct)
  case base
  then show ?case by (simp add: late_ok_def)
next
  case (step s' s'')
  have ok: "process_ok I R Q s'" "R (fst s) (fst s')"
    using process_steps_ok [OF step(1) assms(2) Q] by simp_all
  show ?case
    by (rule late_step [OF step(2) ok(1) Q K(1) K(1) [OF ok(2) K(2)] Q' step(3)])
qed

end

subsection \<open>Answers that are values\<close>

text \<open>A condition on the value of a handler that succeeds; its errors are unconstrained.\<close>

definition on_ok :: "('a \<Rightarrow> 'w \<Rightarrow> bool) \<Rightarrow> ('a, 'e) outcome \<Rightarrow> 'w \<Rightarrow> bool" where
  "on_ok G r w \<longleftrightarrow> (\<forall>x. r = Ok x \<longrightarrow> G x w)"

lemma on_ok_simps [simp]: "on_ok G (Ok x) w \<longleftrightarrow> G x w" "on_ok G (Err e) w" "on_ok G Panic w"
  by (simp_all add: on_ok_def)

context rely_guarantee
begin

lemma stable_on_ok: "stable_post R G \<Longrightarrow> stable_post R (on_ok G)"
  by (auto simp: stable_post_def on_ok_def)

lemma ok_await:
  assumes "safe_handler I R (on_ok G) p w"
    and "\<And>x w'. R w w' \<Longrightarrow> G x w' \<Longrightarrow> safe_handler I R (on_ok H) (k x) w'"
  shows "safe_handler I R (on_ok H) (await p k) w"
  using assms(1) by (rule safe_await) (simp_all add: assms(2))

lemma ok_pure: "(\<And>x. r = Ok x \<Longrightarrow> G x w) \<Longrightarrow> safe_handler I R (on_ok G) (pure_step r) w"
  by (rule safe_pure) (simp add: on_ok_def)

lemma ok_await_pure:
  "(\<And>x. r = Ok x \<Longrightarrow> safe_handler I R (on_ok H) (k x) w) \<Longrightarrow>
     safe_handler I R (on_ok H) (await (pure_step r) k) w"
  by (cases r) (simp_all add: await_def pure_step_def)

lemma ok_atomic:
  assumes "\<And>v. R w v \<Longrightarrow> I v \<Longrightarrow> I (snd (m v)) \<and> R v (snd (m v)) \<and> (\<forall>x. fst (m v) = Ok x \<longrightarrow> G x (snd (m v)))"
  shows "safe_handler I R (on_ok G) (atomic m) w"
  using assms by (intro safe_atomic) (simp add: on_ok_def)

lemma ok_conseq:
  assumes "safe_handler I R (on_ok G) p w" "\<And>x w'. R w w' \<Longrightarrow> G x w' \<Longrightarrow> H x w'"
  shows "safe_handler I R (on_ok H) p w"
proof -
  have "safe_handler I R (on_ok H) (handler_bind p Done) w"
    by (rule safe_bind [OF assms(1)]) (use assms(2) in \<open>auto simp: on_ok_def\<close>)
  moreover have "handler_bind p Done = p"
    by (induction p rule: handler_induct) (simp_all add: map_prod_def case_prod_beta)
  ultimately show ?thesis by simp
qed

end

end
