(* ===== verification/Json.thy ===== *)
theory Json
  imports Prelude
begin

section \<open>JSON values and the interface of the JSON library\<close>

text \<open>
  The suites of \<open>zs-crypto\<close> build JSON documents with \<open>serde_json\<close>, canonicalise and
  serialise them, and read them back into structs with derived deserialisers. The library is
  not part of the repository: its value type is the datatype \<open>json\<close> below (an object keeps its
  entries in iteration order), its writer \<open>to_vec\<close> and its reader \<open>from_slice\<close> are
  parameters, and the locale \<open>serde_json\<close> names the documented laws the suites rely on. The
  last part models what the attributes of the repository's own structs ask of a derived
  deserialiser: required, defaulted and unknown fields.
\<close>

subsection \<open>Values\<close>

text \<open>
  A number is a \<open>u64\<close>, a negative \<open>i64\<close>, or a float (kept as its bit pattern: the
  repository never writes one, and refuses to canonicalise one).
\<close>

datatype number = PosInt u64 | NegInt int | Float u64

datatype json =
    JNull
  | JBool bool
  | JNumber number
  | JString string
  | JArray "json list"
  | JObject "(string \<times> json) list"

text \<open>
  \<open>Map::insert\<close>: replaces the value of a key that is present, appends a new entry otherwise
  (the insertion order of the \<open>preserve_order\<close> feature, which the workspace compiles in).
\<close>

fun map_insert :: "string \<Rightarrow> json \<Rightarrow> (string \<times> json) list \<Rightarrow> (string \<times> json) list" where
  "map_insert k v [] = [(k, v)]"
| "map_insert k v ((k', v') # kvs) =
     (if k' = k then (k, v) # kvs else (k', v') # map_insert k v kvs)"

text \<open>Insertion of a field that is present only when its source is.\<close>

definition insert_some :: "string \<Rightarrow> json option \<Rightarrow> (string \<times> json) list \<Rightarrow> (string \<times> json) list" where
  "insert_some k v kvs = (case v of None \<Rightarrow> kvs | Some x \<Rightarrow> map_insert k x kvs)"

text \<open>\<open>json!\<close> of an \<open>i64\<close> and of an \<open>Option\<close>.\<close>

definition json_of_i64 :: "int \<Rightarrow> json" where
  "json_of_i64 i = JNumber (if i < 0 then NegInt i else PosInt (word_of_int i))"

fun json_of_option :: "('a \<Rightarrow> json) \<Rightarrow> 'a option \<Rightarrow> json" where
  "json_of_option f None = JNull"
| "json_of_option f (Some x) = f x"

lemma map_insert_fresh: "k \<notin> fst ` set kvs \<Longrightarrow> map_insert k v kvs = kvs @ [(k, v)]"
  by (induction kvs) auto

lemma keys_map_insert: "fst ` set (map_insert k v kvs) = insert k (fst ` set kvs)"
  by (induction k v kvs rule: map_insert.induct) (simp_all add: insert_commute)

lemma distinct_map_insert:
  "distinct (map fst kvs) \<Longrightarrow> distinct (map fst (map_insert k v kvs))"
proof (induction kvs)
  case (Cons e kvs)
  have "fst e \<notin> fst ` set (map_insert k v kvs)" if "fst e \<noteq> k"
    using Cons.prems that by (simp add: keys_map_insert)
  with Cons show ?case by (cases e) auto
qed simp

lemma map_of_map_insert: "map_of (map_insert k v kvs) = (map_of kvs)(k \<mapsto> v)"
  by (induction kvs) auto

text \<open>A document built by insertions: its keys, its fields, its values.\<close>

named_theorems document_simps "reading a field of a document built by insertions"

lemma map_of_map_insert_same [document_simps]: "map_of (map_insert k v kvs) k = Some v"
  by (simp add: map_of_map_insert)

lemma map_of_map_insert_other [document_simps]:
  "k \<noteq> k' \<Longrightarrow> map_of (map_insert k v kvs) k' = map_of kvs k'"
  by (simp add: map_of_map_insert)

lemma map_of_insert_some_same [document_simps]:
  "map_of kvs k = None \<Longrightarrow> map_of (insert_some k v kvs) k = v"
  by (cases v) (simp_all add: insert_some_def map_of_map_insert)

lemma map_of_insert_some_other [document_simps]:
  "k \<noteq> k' \<Longrightarrow> map_of (insert_some k v kvs) k' = map_of kvs k'"
  by (cases v) (simp_all add: insert_some_def map_of_map_insert)

lemma distinct_insert_some:
  "distinct (map fst kvs) \<Longrightarrow> distinct (map fst (insert_some k v kvs))"
  by (cases v) (simp_all add: insert_some_def distinct_map_insert)

lemma keys_insert_some_subset: "fst ` set (insert_some k v kvs) \<subseteq> insert k (fst ` set kvs)"
  by (cases v) (simp_all add: insert_some_def keys_map_insert subset_insertI)

lemma distinct_inserts [intro]:
  "distinct (map fst []) "
  "distinct (map fst kvs) \<Longrightarrow> distinct (map fst (map_insert k v kvs))"
  "distinct (map fst kvs) \<Longrightarrow> distinct (map fst (insert_some k w kvs))"
  by (simp_all add: distinct_map_insert distinct_insert_some)

lemma keys_map_insert_subset: "fst ` set kvs \<subseteq> A \<Longrightarrow> k \<in> A \<Longrightarrow> fst ` set (map_insert k v kvs) \<subseteq> A"
  by (simp add: keys_map_insert)

lemma keys_insert_some_subset': "fst ` set kvs \<subseteq> A \<Longrightarrow> k \<in> A \<Longrightarrow> fst ` set (insert_some k v kvs) \<subseteq> A"
  using keys_insert_some_subset [of k v kvs] by blast

lemmas keys_subset = keys_map_insert_subset keys_insert_some_subset'

lemma values_map_insert: "snd ` set (map_insert k v kvs) \<subseteq> insert v (snd ` set kvs)"
  by (induction k v kvs rule: map_insert.induct) auto

lemma values_insert_some: "snd ` set (insert_some k v kvs) \<subseteq> set_option v \<union> snd ` set kvs"
  using values_map_insert by (cases v) (auto simp: insert_some_def)

subsection \<open>Well-formed values\<close>

text \<open>
  What the library's round trip needs: no float, negative numbers within \<open>i64\<close>, and the keys
  of an object distinct, as they are in a \<open>serde_json::Map\<close>. The reader refuses more than 127
  nested arrays and objects.
\<close>

fun json_wf :: "json \<Rightarrow> bool" where
  "json_wf JNull = True"
| "json_wf (JBool b) = True"
| "json_wf (JNumber (PosInt n)) = True"
| "json_wf (JNumber (NegInt i)) = (- (2 ^ 63) \<le> i \<and> i < 0)"
| "json_wf (JNumber (Float f)) = False"
| "json_wf (JString s) = True"
| "json_wf (JArray vs) = list_all json_wf vs"
| "json_wf (JObject kvs) = (distinct (map fst kvs) \<and> list_all (\<lambda>kv. json_wf (snd kv)) kvs)"

fun json_depth :: "json \<Rightarrow> nat" where
  "json_depth (JArray vs) = Suc (Max (set (0 # map json_depth vs)))"
| "json_depth (JObject kvs) = Suc (Max (set (0 # map (\<lambda>kv. json_depth (snd kv)) kvs)))"
| "json_depth v = 0"

lemma Max_insert_0_const: "finite A \<Longrightarrow> A \<subseteq> {c} \<Longrightarrow> Max (insert 0 A) \<le> (c :: nat)"
  by (auto simp: Max_le_iff finite_subset)

lemma Max_insert_0_zero [simp]: "Max (insert (0 :: nat) ((\<lambda>x. 0) ` set xs)) = 0"
  using Max_insert_0_const [of "(\<lambda>x. 0) ` set xs" 0] by (simp add: image_subset_iff)

lemma json_array_strings: "json_wf (JArray (map JString ss))" "json_depth (JArray (map JString ss)) \<le> 1"
  by (simp_all add: list_all_iff image_image)

text \<open>A document whose values are well-formed and at most \<open>n\<close> deep; insertions keep it.\<close>

definition values_ok :: "nat \<Rightarrow> (string \<times> json) list \<Rightarrow> bool" where
  "values_ok n kvs \<longleftrightarrow> distinct (map fst kvs) \<and> snd ` set kvs \<subseteq> {v. json_wf v \<and> json_depth v \<le> n}"

lemma values_ok_Nil [intro]: "values_ok n []"
  by (simp add: values_ok_def)

lemma values_ok_map_insert [intro]:
  "values_ok n kvs \<Longrightarrow> json_wf v \<Longrightarrow> json_depth v \<le> n \<Longrightarrow> values_ok n (map_insert k v kvs)"
  using values_map_insert [of k v kvs] unfolding values_ok_def by (blast intro: distinct_map_insert)

lemma values_ok_insert_some [intro]:
  "values_ok n kvs \<Longrightarrow> (\<And>x. v = Some x \<Longrightarrow> json_wf x \<and> json_depth x \<le> n) \<Longrightarrow>
     values_ok n (insert_some k v kvs)"
  using values_insert_some [of k v kvs] unfolding values_ok_def
  by (cases v) (auto intro: distinct_insert_some)

lemma values_ok_object:
  assumes "values_ok n kvs"
  shows "json_wf (JObject kvs)" "json_depth (JObject kvs) \<le> Suc n"
  using assms by (auto simp: values_ok_def list_all_iff Max_le_iff image_subset_iff)

text \<open>A string whose JSON form is itself between quotes.\<close>

definition plain_char :: "char \<Rightarrow> bool" where
  "plain_char c \<longleftrightarrow>
     0x20 \<le> char_code c \<and> char_code c \<le> 0x7E \<and> c \<noteq> CHR 0x22 \<and> c \<noteq> CHR 0x5C"

definition plain_string :: "string \<Rightarrow> bool" where
  "plain_string s \<longleftrightarrow> list_all plain_char s"

subsection \<open>The laws of the library\<close>

text \<open>Joining the written entries of an array or an object with commas.\<close>

fun comma_sep :: "bytes list \<Rightarrow> bytes" where
  "comma_sep [] = []"
| "comma_sep [x] = x"
| "comma_sep (x # y # xs) = x @ [0x2C] @ comma_sep (y # xs)"

lemma length_comma_sep:
  "length (comma_sep xs) = sum_list (map length xs) + (length xs - 1)"
  by (induction xs rule: comma_sep.induct) auto

text \<open>
  The documented behaviour: \<open>to_vec\<close> writes compact JSON (no white space between tokens) and
  \<open>from_slice\<close> reads back what \<open>to_vec\<close> wrote.
\<close>

locale serde_json =
  fixes to_vec :: "json \<Rightarrow> bytes"
    and from_slice :: "bytes \<Rightarrow> json option"
  assumes from_slice_to_vec:
      "json_wf v \<Longrightarrow> json_depth v \<le> 127 \<Longrightarrow> from_slice (to_vec v) = Some v"
    and to_vec_object:
      "to_vec (JObject kvs) =
         [0x7B] @ comma_sep (map (\<lambda>(k, v). to_vec (JString k) @ [0x3A] @ to_vec v) kvs) @ [0x7D]"
    and to_vec_array:
      "to_vec (JArray vs) = [0x5B] @ comma_sep (map to_vec vs) @ [0x5D]"
    and to_vec_plain_string:
      "plain_string s \<Longrightarrow> to_vec (JString s) = [0x22] @ as_bytes s @ [0x22]"
begin

lemma to_vec_inject:
  assumes "json_wf v" "json_depth v \<le> 127" "json_wf w" "json_depth w \<le> 127"
    and "to_vec v = to_vec w"
  shows "v = w"
  by (metis assms from_slice_to_vec option.inject)

lemma length_to_vec_plain: "plain_string s \<Longrightarrow> length (to_vec (JString s)) = length s + 2"
  by (simp add: to_vec_plain_string)

lemma length_to_vec_object:
  "length (to_vec (JObject kvs)) =
     2 + sum_list (map (\<lambda>(k, v). length (to_vec (JString k)) + 1 + length (to_vec v)) kvs)
       + (length kvs - 1)"
proof -
  have "map length (map (\<lambda>(k, v). to_vec (JString k) @ [0x3A] @ to_vec v) kvs) =
      map (\<lambda>(k, v). length (to_vec (JString k)) + 1 + length (to_vec v)) kvs"
    by (simp add: case_prod_beta)
  then show ?thesis
    by (simp add: to_vec_object length_comma_sep del: map_map)
qed

end

subsection \<open>Derived deserialisers\<close>

text \<open>
  \<open>struct_fields deny fs j\<close> is the view a derived deserialiser has of a struct with the fields
  \<open>fs\<close> (in declaration order): an object whose known keys occur once, and which has no other
  key under \<open>deny_unknown_fields\<close>; or an array that lists the fields in order.
\<close>

definition struct_fields :: "bool \<Rightarrow> string list \<Rightarrow> json \<Rightarrow> (string \<Rightarrow> json option) option" where
  "struct_fields deny fs j =
     (case j of
        JObject kvs \<Rightarrow>
          if distinct (filter (\<lambda>k. k \<in> set fs) (map fst kvs)) \<and>
             (deny \<longrightarrow> list_all (\<lambda>k. k \<in> set fs) (map fst kvs))
          then Some (map_of kvs) else None
      | JArray vs \<Rightarrow> if length vs \<le> length fs then Some (map_of (zip fs vs)) else None
      | _ \<Rightarrow> None)"

text \<open>A required field, and an \<open>Option\<close> field marked \<open>default\<close>.\<close>

definition req_field :: "(string \<Rightarrow> json option) \<Rightarrow> string \<Rightarrow> (json \<Rightarrow> 'a option) \<Rightarrow> 'a option" where
  "req_field m k dec = Option.bind (m k) dec"

definition opt_field :: "(string \<Rightarrow> json option) \<Rightarrow> string \<Rightarrow> (json \<Rightarrow> 'a option) \<Rightarrow> 'a option option" where
  "opt_field m k dec =
     (case m k of None \<Rightarrow> Some None | Some JNull \<Rightarrow> Some None | Some v \<Rightarrow> map_option Some (dec v))"

fun de_string :: "json \<Rightarrow> string option" where
  "de_string (JString s) = Some s"
| "de_string _ = None"

fun de_u64 :: "json \<Rightarrow> u64 option" where
  "de_u64 (JNumber (PosInt n)) = Some n"
| "de_u64 _ = None"

fun de_u32 :: "json \<Rightarrow> u32 option" where
  "de_u32 (JNumber (PosInt n)) = (if unat n < 2 ^ 32 then Some (ucast n) else None)"
| "de_u32 _ = None"

fun de_vec :: "(json \<Rightarrow> 'a option) \<Rightarrow> json \<Rightarrow> 'a list option" where
  "de_vec dec (JArray vs) = collect_options (map dec vs)"
| "de_vec dec _ = None"

lemma de_vec_strings [simp]: "de_vec de_string (JArray (map JString ss)) = Some ss"
  by (simp add: comp_def)

lemma de_u32_ucast: "de_u32 (JNumber (PosInt (ucast (v :: u32)))) = Some v"
proof -
  have v: "unat v < 2 ^ 32" using unsigned_less [of v, where 'a = nat] by simp
  have "unat (ucast v :: u64) = unat v"
    using v by (simp add: unsigned_ucast_eq take_bit_nat_eq_self)
  moreover have "(ucast (ucast v :: u64) :: u32) = v"
    by (rule bit_word_eqI) (auto simp: bit_ucast_iff)
  ultimately show ?thesis using v by simp
qed

lemma struct_fields_object:
  assumes "distinct (map fst kvs)" and "fst ` set kvs \<subseteq> set fs"
  shows "struct_fields deny fs (JObject kvs) = Some (map_of kvs)"
  using assms by (auto simp: struct_fields_def list_all_iff distinct_map_filter distinct_filter)

end
