(* ===== verification/Common.thy ===== *)
theory Common
  imports Json "HOL-Library.Multiset"
begin

section \<open>Shared bricks of the issuing suites (\<open>crates/zs-crypto/src/common.rs\<close>)\<close>

text \<open>
  Field validators, hexadecimal encoding, the identifier of a public key, and the recursive
  canonicalisation of a JSON document. The libraries the crate calls are the parameter \<open>zs_ext\<close>:
  the JSON writer and reader, the SHA-256 digest and the two signature verifiers of
  \<open>aws-lc-rs\<close>. The lemmas show that hexadecimal encoding round-trips, that canonicalisation
  panics exactly on a float, and that its result depends only on the contents of the objects,
  never on the order in which their entries were inserted.
\<close>

subsection \<open>The third-party libraries\<close>

record zs_ext =
  ext_to_vec :: "json \<Rightarrow> bytes"
  ext_from_slice :: "bytes \<Rightarrow> json option"
  ext_sha256 :: "bytes \<Rightarrow> bytes"
  ext_p256_verify :: "bytes \<Rightarrow> bytes \<Rightarrow> bytes \<Rightarrow> bool"
  ext_ed25519_verify :: "bytes \<Rightarrow> bytes \<Rightarrow> bytes \<Rightarrow> bool"

text \<open>The documented behaviour the suites rely on.\<close>

locale zs_libraries =
  fixes X :: "'x zs_ext_scheme"
  assumes json_laws: "serde_json (ext_to_vec X) (ext_from_slice X)"
    and sha256_length: "length (ext_sha256 X m) = 32"

subsection \<open>Validated fields\<close>

datatype field_error = FieldError string

text \<open>The macro \<open>bounded_ascii_string!\<close>: the constructor of every bounded ASCII type.\<close>

definition ascii_byte_ok :: "char \<Rightarrow> bool" where
  "ascii_byte_ok b \<longleftrightarrow>
     0x20 \<le> char_code b \<and> char_code b \<le> 0x7E \<and> b \<noteq> CHR 0x22 \<and> b \<noteq> CHR 0x5C"

definition bounded_ascii_new :: "nat \<Rightarrow> string \<Rightarrow> string \<Rightarrow> (string, field_error) outcome" where
  "bounded_ascii_new max_len field s =
     (if s = [] \<or> length s > max_len then Err (FieldError field)
      else if \<not> list_all ascii_byte_ok s then Err (FieldError field)
      else Ok s)"

text \<open>\<open>u8::is_ascii_digit\<close> and \<open>u8::is_ascii_hexdigit\<close> of the standard library.\<close>

definition is_ascii_digit :: "char \<Rightarrow> bool" where
  "is_ascii_digit c \<longleftrightarrow> 0x30 \<le> char_code c \<and> char_code c \<le> 0x39"

definition is_ascii_hexdigit :: "char \<Rightarrow> bool" where
  "is_ascii_hexdigit c \<longleftrightarrow> is_ascii_digit c \<or>
     0x61 \<le> char_code c \<and> char_code c \<le> 0x66 \<or> 0x41 \<le> char_code c \<and> char_code c \<le> 0x46"

text \<open>\<open>Timestamp::new\<close>: exactly \<open>AAAA-MM-JJThh:mm:ssZ\<close>, twenty bytes.\<close>

definition timestamp_valid :: "string \<Rightarrow> bool" where
  "timestamp_valid bs \<longleftrightarrow>
     length bs = 20 \<and> bs ! 4 = CHR ''-'' \<and> bs ! 7 = CHR ''-'' \<and> bs ! 10 = CHR ''T'' \<and>
     bs ! 13 = CHR '':'' \<and> bs ! 16 = CHR '':'' \<and> bs ! 19 = CHR ''Z'' \<and>
     list_all (\<lambda>(i, b). i \<in> {4, 7, 10, 13, 16, 19} \<or> is_ascii_digit b) (enumerate 0 bs)"

definition Timestamp_new :: "string \<Rightarrow> (string, field_error) outcome" where
  "Timestamp_new s = (if \<not> timestamp_valid s then Err (FieldError ''timestamp'') else Ok s)"

text \<open>The macro \<open>uuid_string!\<close>: the form \<open>8-4-4-4-12\<close>, with the version nibble when asked.\<close>

definition uuid_new :: "string \<Rightarrow> bool \<Rightarrow> string \<Rightarrow> (string, field_error) outcome" where
  "uuid_new field require_v7 bs =
     (let dashes_ok = length bs = 36 \<and> bs ! 8 = CHR ''-'' \<and> bs ! 13 = CHR ''-'' \<and>
            bs ! 18 = CHR ''-'' \<and> bs ! 23 = CHR ''-'';
          hex_ok = dashes_ok \<and>
            list_all (\<lambda>(i, b). i \<in> {8, 13, 18, 23} \<or> is_ascii_hexdigit b) (enumerate 0 bs);
          version_ok = dashes_ok \<and> (\<not> require_v7 \<or> bs ! 14 = CHR ''7'')
      in if \<not> (hex_ok \<and> version_ok) then Err (FieldError field) else Ok bs)"

definition EventId_new :: "string \<Rightarrow> (string, field_error) outcome" where
  "EventId_new = uuid_new ''event_id'' True"

definition RequestId_new :: "string \<Rightarrow> (string, field_error) outcome" where
  "RequestId_new = uuid_new ''decision.request_id'' False"

subsection \<open>Hexadecimal\<close>

text \<open>The format \<open>{:02x}\<close> of a byte, and \<open>u8::from_str_radix\<close> in base 16.\<close>

definition hex_digit :: "nat \<Rightarrow> char" where
  "hex_digit n = (if n < 10 then char_of (0x30 + n) else char_of (0x57 + n))"

definition fmt_02x :: "u8 \<Rightarrow> string" where
  "fmt_02x b = [hex_digit (unat b div 16), hex_digit (unat b mod 16)]"

definition hexval :: "char \<Rightarrow> nat option" where
  "hexval c =
     (if is_ascii_digit c then Some (char_code c - 0x30)
      else if 0x61 \<le> char_code c \<and> char_code c \<le> 0x66 then Some (char_code c - 0x57)
      else if 0x41 \<le> char_code c \<and> char_code c \<le> 0x46 then Some (char_code c - 0x37)
      else None)"

fun radix16 :: "nat \<Rightarrow> string \<Rightarrow> nat option" where
  "radix16 acc [] = Some acc"
| "radix16 acc (c # cs) =
     (case hexval c of
        None \<Rightarrow> None
      | Some d \<Rightarrow> if acc * 16 + d > 255 then None else radix16 (acc * 16 + d) cs)"

definition from_str_radix_16 :: "string \<Rightarrow> u8 option" where
  "from_str_radix_16 s =
     (case s of
        [] \<Rightarrow> None
      | c # cs \<Rightarrow>
          if c = CHR ''+'' then (if cs = [] then None else map_option word_of_nat (radix16 0 cs))
          else map_option word_of_nat (radix16 0 s))"

definition hex_encode :: "bytes \<Rightarrow> string" where
  "hex_encode bs = concat (map fmt_02x bs)"

definition hex_decode :: "string \<Rightarrow> bytes option" where
  "hex_decode s =
     (if odd (length s) \<or> \<not> list_all is_ascii_hexdigit s then None
      else collect_options
        (map (\<lambda>i. from_str_radix_16 (take 2 (drop i s))) (map (\<lambda>k. 2 * k) [0..<length s div 2])))"

definition sha256 :: "'x zs_ext_scheme \<Rightarrow> bytes \<Rightarrow> bytes" where
  "sha256 X m = ext_sha256 X m"

definition key_id_from_public_key :: "'x zs_ext_scheme \<Rightarrow> bytes \<Rightarrow> string" where
  "key_id_from_public_key X sec1_uncompressed = hex_encode (take 8 (sha256 X sec1_uncompressed))"

subsection \<open>Canonical form\<close>

text \<open>
  \<open>sort_keys_recursively\<close>: the entries of every object sorted by the bytes of their keys, the
  order of arrays kept, a float refused by an \<open>assert!\<close>.
\<close>

fun sort_keys_recursively :: "json \<Rightarrow> (json, 'e) outcome" where
  "sort_keys_recursively (JObject kvs) =
     and_then
       (collect_results
         (map (\<lambda>kv. and_then (sort_keys_recursively (snd kv)) (\<lambda>v. Ok (fst kv, v)))
           (sort_key (\<lambda>kv. as_bytes (fst kv)) kvs)))
       (\<lambda>sorted_kvs. Ok (JObject sorted_kvs))"
| "sort_keys_recursively (JArray vs) =
     and_then (collect_results (map sort_keys_recursively vs)) (\<lambda>items. Ok (JArray items))"
| "sort_keys_recursively (JNumber n) =
     (case n of Float f \<Rightarrow> Panic | _ \<Rightarrow> Ok (JNumber n))"
| "sort_keys_recursively v = Ok v"

definition canonical_bytes :: "'x zs_ext_scheme \<Rightarrow> json \<Rightarrow> (bytes, 'e) outcome" where
  "canonical_bytes X v =
     and_then (sort_keys_recursively v) (\<lambda>sorted_v. Ok (ext_to_vec X sorted_v))"

section \<open>Properties of the shared bricks\<close>

subsection \<open>Validators\<close>

lemma ascii_byte_ok_plain: "ascii_byte_ok = plain_char"
  by (simp add: fun_eq_iff ascii_byte_ok_def plain_char_def)

lemma bounded_ascii_new_eq_Ok [outcome_simps]:
  "bounded_ascii_new n f s = Ok t \<longleftrightarrow> t = s \<and> s \<noteq> [] \<and> length s \<le> n \<and> plain_string s"
  by (auto simp: bounded_ascii_new_def plain_string_def ascii_byte_ok_plain)

lemma bounded_ascii_new_not_Panic [simp]: "bounded_ascii_new n f s \<noteq> Panic"
  by (simp add: bounded_ascii_new_def)

lemma is_ascii_digit_plain: "is_ascii_digit c \<Longrightarrow> plain_char c"
  by (auto simp: is_ascii_digit_def plain_char_def)

lemma is_ascii_hexdigit_plain: "is_ascii_hexdigit c \<Longrightarrow> plain_char c"
  by (auto simp: is_ascii_hexdigit_def is_ascii_digit_def plain_char_def)

lemma Timestamp_new_eq_Ok [outcome_simps]:
  "Timestamp_new s = Ok t \<longleftrightarrow> t = s \<and> timestamp_valid s"
  by (auto simp: Timestamp_new_def)

lemma list_all_enumerate_plain:
  assumes "list_all (\<lambda>(i, b). i \<in> I \<or> P b) (enumerate 0 s)"
    and "\<And>i. i \<in> I \<Longrightarrow> i < length s \<Longrightarrow> plain_char (s ! i)" and "\<And>b. P b \<Longrightarrow> plain_char b"
  shows "plain_string s"
  unfolding plain_string_def list_all_length
proof (intro allI impI)
  fix i assume i: "i < length s"
  with assms(1) have "i \<in> I \<or> P (s ! i)"
    by (auto simp: list_all_length nth_enumerate_eq)
  with i assms(2,3) show "plain_char (s ! i)" by blast
qed

lemma timestamp_valid_plain: "timestamp_valid s \<Longrightarrow> plain_string s"
  unfolding timestamp_valid_def
  by (elim conjE, erule list_all_enumerate_plain)
    (auto simp: plain_char_def is_ascii_digit_def)

lemma uuid_new_eq_Ok_plain:
  assumes "uuid_new f v7 s = Ok t"
  shows "t = s \<and> length s = 36 \<and> plain_string s"
proof -
  from assms have "t = s" and len: "length s = 36"
    and all: "list_all (\<lambda>(i, b). i \<in> {8, 13, 18, 23} \<or> is_ascii_hexdigit b) (enumerate 0 s)"
    and dash: "s ! 8 = CHR ''-''" "s ! 13 = CHR ''-''" "s ! 18 = CHR ''-''" "s ! 23 = CHR ''-''"
    by (auto simp: uuid_new_def Let_def split: if_splits)
  have "plain_string s"
    using dash by (intro list_all_enumerate_plain [OF all])
      (auto simp: plain_char_def dest: is_ascii_hexdigit_plain)
  with \<open>t = s\<close> len show ?thesis by simp
qed

lemma uuid_new_not_Panic [simp]: "uuid_new f v7 s \<noteq> Panic"
  by (simp add: uuid_new_def Let_def)

subsection \<open>Hexadecimal\<close>

lemma char_code_hex_digit:
  "n < 16 \<Longrightarrow> char_code (hex_digit n) = (if n < 10 then 0x30 + n else 0x57 + n)"
  by (simp add: hex_digit_def)

lemma hexval_hex_digit [simp]: "n < 16 \<Longrightarrow> hexval (hex_digit n) = Some n"
  by (auto simp: hexval_def is_ascii_digit_def char_code_hex_digit)

lemma is_ascii_hexdigit_hex_digit [simp]: "n < 16 \<Longrightarrow> is_ascii_hexdigit (hex_digit n)"
  by (auto simp: is_ascii_hexdigit_def is_ascii_digit_def char_code_hex_digit)

lemma nibbles_less [simp]: "unat (b :: u8) div 16 < 16" "unat (b :: u8) mod 16 < 16"
  using unat_u8_less [of b] by auto

lemma fmt_02x_hexdigits: "list_all is_ascii_hexdigit (fmt_02x b)"
  by (simp add: fmt_02x_def)

lemma length_fmt_02x [simp]: "length (fmt_02x b) = 2"
  by (simp add: fmt_02x_def)

lemma hexval_not_plus: "hexval c \<noteq> None \<Longrightarrow> c \<noteq> CHR ''+''"
  by (auto simp: hexval_def is_ascii_digit_def)

lemma from_str_radix_16_fmt_02x [simp]: "from_str_radix_16 (fmt_02x b) = Some b"
proof -
  have "hex_digit (unat b div 16) \<noteq> CHR ''+''"
    by (intro hexval_not_plus) simp
  moreover have "unat b div 16 * 16 + unat b mod 16 = unat b" by simp
  ultimately show ?thesis
    using unat_u8_less [of b] by (auto simp: from_str_radix_16_def fmt_02x_def not_less)
qed

lemma length_hex_encode [simp]: "length (hex_encode bs) = 2 * length bs"
  by (simp add: hex_encode_def length_concat sum_list_triv comp_def)

lemma hex_encode_hexdigits: "list_all is_ascii_hexdigit (hex_encode bs)"
  using fmt_02x_hexdigits by (induction bs) (auto simp: hex_encode_def)

lemma hex_encode_plain [simp]: "plain_string (hex_encode bs)"
  using hex_encode_hexdigits [of bs]
  by (auto simp: plain_string_def list_all_iff is_ascii_hexdigit_plain)

lemma take_drop_hex_encode:
  "k < length bs \<Longrightarrow> take 2 (drop (2 * k) (hex_encode bs)) = fmt_02x (bs ! k)"
proof (induction bs arbitrary: k)
  case (Cons b bs)
  then show ?case
    by (cases k) (auto simp: hex_encode_def fmt_02x_def)
qed simp

lemma hex_decode_encode [simp]: "hex_decode (hex_encode bs) = Some bs"
proof -
  have "map (\<lambda>i. from_str_radix_16 (take 2 (drop i (hex_encode bs))))
      (map (\<lambda>k. 2 * k) [0..<length (hex_encode bs) div 2]) = map Some bs"
    by (rule nth_equalityI) (auto simp: take_drop_hex_encode)
  then show ?thesis
    using hex_encode_hexdigits [of bs] by (simp add: hex_decode_def del: map_map)
qed

lemma hex_encode_inj [simp]: "hex_encode bs = hex_encode cs \<longleftrightarrow> bs = cs"
  by (metis hex_decode_encode option.inject)

lemma hex_decode_length: "hex_decode s = Some bs \<Longrightarrow> length s = 2 * length bs"
proof -
  assume "hex_decode s = Some bs"
  then have "even (length s)"
    and "map (\<lambda>i. from_str_radix_16 (take 2 (drop i s)))
      (map (\<lambda>k. 2 * k) [0..<length s div 2]) = map Some bs"
    by (auto simp: hex_decode_def collect_options_eq_Some split: if_splits)
  then show ?thesis by (metis (no_types) length_map length_upt diff_zero dvd_mult_div_cancel)
qed

subsection \<open>Canonicalisation\<close>

text \<open>The specification: the sorted value, and whether a float occurs in it.\<close>

fun has_float :: "json \<Rightarrow> bool" where
  "has_float (JObject kvs) = list_ex (\<lambda>kv. has_float (snd kv)) kvs"
| "has_float (JArray vs) = list_ex has_float vs"
| "has_float (JNumber n) = (case n of Float f \<Rightarrow> True | _ \<Rightarrow> False)"
| "has_float v = False"

fun sort_json :: "json \<Rightarrow> json" where
  "sort_json (JObject kvs) =
     JObject (map (\<lambda>kv. (fst kv, sort_json (snd kv))) (sort_key (\<lambda>kv. as_bytes (fst kv)) kvs))"
| "sort_json (JArray vs) = JArray (map sort_json vs)"
| "sort_json v = v"

lemma collect_results_map_cases:
  assumes "\<And>x. x \<in> set xs \<Longrightarrow> f x = (if P x then Panic else Ok (g x))"
  shows "collect_results (map f xs) = (if list_ex P xs then Panic else Ok (map g xs))"
  using assms by (induction xs) auto

lemma list_ex_sort_key [simp]: "list_ex P (sort_key f xs) = list_ex P xs"
  by (simp add: list_ex_iff)

lemma sort_keys_recursively_eq:
  "sort_keys_recursively v = (if has_float v then Panic else (Ok (sort_json v) :: (json, 'e) outcome))"
proof (induction v rule: sort_json.induct)
  case (1 kvs)
  let ?g = "\<lambda>kv. and_then (sort_keys_recursively (snd kv)) (\<lambda>v. Ok (fst kv, v))
    :: (string \<times> json, 'e) outcome"
  have "?g kv = (if has_float (snd kv) then Panic else Ok (fst kv, sort_json (snd kv)))"
    if "kv \<in> set (sort_key (\<lambda>kv. as_bytes (fst kv)) kvs)" for kv
    using 1 [OF that] by simp
  then have "collect_results (map ?g (sort_key (\<lambda>kv. as_bytes (fst kv)) kvs)) =
      (if list_ex (\<lambda>kv. has_float (snd kv)) (sort_key (\<lambda>kv. as_bytes (fst kv)) kvs) then Panic
       else Ok (map (\<lambda>kv. (fst kv, sort_json (snd kv))) (sort_key (\<lambda>kv. as_bytes (fst kv)) kvs)))"
    by (intro collect_results_map_cases)
  then show ?case by simp
next
  case (2 vs)
  then show ?case
    by (simp add: collect_results_map_cases [where P = has_float and g = sort_json])
qed (auto split: number.split)

lemma canonical_bytes_eq:
  "canonical_bytes X v = (if has_float v then Panic else Ok (ext_to_vec X (sort_json v)))"
  by (simp add: canonical_bytes_def sort_keys_recursively_eq)

lemma json_wf_no_float: "json_wf v \<Longrightarrow> \<not> has_float v"
  by (induction v rule: json_wf.induct) (auto simp: list_all_iff list_ex_iff)

lemma mset_map_sort_json_fst:
  "mset (map fst (map (\<lambda>kv. (fst kv, h (snd kv))) (sort_key f kvs))) = mset (map fst kvs)"
  by (simp add: comp_def)

lemma distinct_fst_sort_json:
  "distinct (map fst (map (\<lambda>kv. (fst kv, h (snd kv))) (sort_key f kvs))) = distinct (map fst kvs)"
  using mset_map_sort_json_fst [of h f kvs] by (metis mset_eq_imp_distinct_iff)

lemma json_wf_sort_json [simp]: "json_wf v \<Longrightarrow> json_wf (sort_json v)"
proof (induction v rule: sort_json.induct)
  case (1 kvs)
  then show ?case
    using distinct_fst_sort_json [of sort_json "\<lambda>kv. as_bytes (fst kv)" kvs]
    by (auto simp: list_all_iff simp del: map_map)
qed (auto simp: list_all_iff)

lemma json_depth_sort_json [simp]: "json_depth (sort_json v) = json_depth v"
proof (induction v rule: sort_json.induct)
  case (1 kvs)
  then have "(\<lambda>kv. json_depth (sort_json (snd kv))) ` set kvs = (\<lambda>kv. json_depth (snd kv)) ` set kvs"
    by (intro image_cong) auto
  then show ?case by (simp add: image_image)
next
  case (2 vs)
  then have "(\<lambda>v. json_depth (sort_json v)) ` set vs = json_depth ` set vs"
    by (intro image_cong) auto
  then show ?case by (simp add: image_image)
qed auto

text \<open>Equality of contents: objects compared up to the order of their entries, at every depth.\<close>

inductive json_perm :: "json \<Rightarrow> json \<Rightarrow> bool" where
  perm_refl: "json_perm v v"
| perm_array: "list_all2 json_perm vs ws \<Longrightarrow> json_perm (JArray vs) (JArray ws)"
| perm_object: "mset kvs = mset zs \<Longrightarrow> mset ws = mset us \<Longrightarrow>
    list_all2 (\<lambda>x y. fst x = fst y \<and> json_perm (snd x) (snd y)) zs us \<Longrightarrow>
    json_perm (JObject kvs) (JObject ws)"

fun distinct_keys :: "json \<Rightarrow> bool" where
  "distinct_keys (JObject kvs) =
     (distinct (map fst kvs) \<and> list_all (\<lambda>kv. distinct_keys (snd kv)) kvs)"
| "distinct_keys (JArray vs) = list_all distinct_keys vs"
| "distinct_keys v = True"

lemma json_wf_distinct_keys: "json_wf v \<Longrightarrow> distinct_keys v"
  by (induction v rule: json_wf.induct) (auto simp: list_all_iff)

lemma sort_key_keys_unique:
  assumes "distinct (map fst kvs)" and "mset kvs = mset zs"
  shows "sort_key (\<lambda>kv. as_bytes (fst kv)) kvs = sort_key (\<lambda>kv. as_bytes (fst kv)) zs"
proof (rule sort_key_inj_key_eq)
  show "mset kvs = mset (sort_key (\<lambda>kv. as_bytes (fst kv)) zs)" using assms(2) by simp
  show "inj_on (\<lambda>kv. as_bytes (fst kv)) (set kvs)"
    using assms(1) by (auto simp: inj_on_def distinct_map)
qed simp

lemma map_fst_list_all2: "list_all2 (\<lambda>x y. fst x = fst y \<and> R x y) zs us \<Longrightarrow> map fst zs = map fst us"
  by (induction rule: list_all2_induct) auto

lemma map_sort_json_sort_key:
  "map (\<lambda>kv. (fst kv, h (snd kv))) (sort_key (\<lambda>kv. f (fst kv)) kvs) =
     sort_key (\<lambda>kv. f (fst kv)) (map (\<lambda>kv. (fst kv, h (snd kv))) kvs)"
proof (induction kvs)
  case (Cons kv kvs)
  have "map (\<lambda>kv. (fst kv, h (snd kv))) (insort_key (\<lambda>kv. f (fst kv)) x xs) =
      insort_key (\<lambda>kv. f (fst kv)) (fst x, h (snd x)) (map (\<lambda>kv. (fst kv, h (snd kv))) xs)" for x xs
    by (induction xs) auto
  with Cons show ?case by simp
qed simp

lemma json_perm_sort_json:
  "json_perm v w \<Longrightarrow> distinct_keys v \<Longrightarrow> sort_json v = sort_json w"
proof (induction rule: json_perm.induct)
  case (perm_array vs ws)
  then have "list_all2 (\<lambda>x y. sort_json x = sort_json y) vs ws"
    by (auto simp: list_all2_conv_all_nth list_all_length)
  then show ?case by (simp add: map_eq_list_all2)
next
  case (perm_object kvs zs ws us)
  let ?H = "\<lambda>kv. (fst kv, sort_json (snd kv))" and ?k = "\<lambda>kv. as_bytes (fst kv)"
  have keys: "distinct (map fst kvs)" "distinct (map fst zs)"
    using perm_object.prems perm_object.hyps(1)
    by (auto simp: mset_eq_imp_distinct_iff [of "map fst zs" "map fst kvs"])
  then have "distinct (map fst ws)"
    using map_fst_list_all2 [OF perm_object.IH] perm_object.hyps(2)
    by (metis mset_eq_imp_distinct_iff mset_map)
  have dk: "distinct_keys (snd x)" if "x \<in> set zs" for x
    using perm_object.prems that mset_eq_setD [OF perm_object.hyps(1)] by (auto simp: list_all_iff)
  have "map ?H zs = map ?H us"
    using perm_object.IH dk by (auto simp: map_eq_list_all2 list_all2_conv_all_nth)
  then have "sort_key ?k (map ?H zs) = sort_key ?k (map ?H us)" by simp
  then show ?case
    using sort_key_keys_unique [OF keys(1) perm_object.hyps(1)]
      sort_key_keys_unique [OF \<open>distinct (map fst ws)\<close> perm_object.hyps(2)]
    by (simp add: map_sort_json_sort_key)
qed simp

lemma sort_json_json_perm: "sort_json v = sort_json w \<Longrightarrow> json_perm v w"
proof (induction v arbitrary: w rule: sort_json.induct)
  case (1 kvs)
  let ?k = "\<lambda>kv. as_bytes (fst kv)"
  from "1.prems" obtain ws where w: "w = JObject ws" by (cases w) auto
  have "list_all2 (\<lambda>x y. fst x = fst y \<and> sort_json (snd x) = sort_json (snd y))
      (sort_key ?k kvs) (sort_key ?k ws)"
    using "1.prems" w by (simp add: map_eq_list_all2)
  then have "list_all2 (\<lambda>x y. fst x = fst y \<and> json_perm (snd x) (snd y))
      (sort_key ?k kvs) (sort_key ?k ws)"
    by (rule list.rel_mono_strong) (use "1.IH" in auto)
  with w show ?case by (auto intro: perm_object [of kvs "sort_key ?k kvs" ws "sort_key ?k ws"])
next
  case (2 vs)
  from "2.prems" obtain ws where w: "w = JArray ws" by (cases w) auto
  with "2.prems" have "list_all2 (\<lambda>x y. sort_json x = sort_json y) vs ws"
    by (simp add: map_eq_list_all2)
  then have "list_all2 json_perm vs ws"
    by (rule list.rel_mono_strong) (use "2.IH" in auto)
  with w show ?case by (simp add: perm_array)
qed (case_tac w; auto intro: perm_refl)+

subsection \<open>Deserialising a sorted document\<close>

lemma map_of_sort_json:
  assumes "distinct (map fst kvs)"
  shows "map_of (map (\<lambda>kv. (fst kv, h (snd kv))) (sort_key f kvs)) = map_option h \<circ> map_of kvs"
proof -
  have "distinct (map fst (sort_key f kvs))"
    using assms by (metis mset_eq_imp_distinct_iff mset_map mset_sort)
  then have "map_of (sort_key f kvs) = map_of kvs"
    using assms by (subst map_of_inject_set) simp_all
  then show ?thesis
    using map_of_map [of h "sort_key f kvs"] by (simp add: case_prod_unfold)
qed

definition sorted_view :: "(string \<Rightarrow> json option) \<Rightarrow> string \<Rightarrow> json option" where
  "sorted_view m k = map_option sort_json (m k)"

lemma struct_fields_sorted:
  assumes "distinct (map fst kvs)" and "fst ` set kvs \<subseteq> set fs"
  shows "struct_fields deny fs (sort_json (JObject kvs)) = Some (sorted_view (map_of kvs))"
proof -
  let ?s = "map (\<lambda>kv. (fst kv, sort_json (snd kv))) (sort_key (\<lambda>kv. as_bytes (fst kv)) kvs)"
  have "struct_fields deny fs (JObject ?s) = Some (map_of ?s)"
    using assms by (intro struct_fields_object)
      (auto simp: distinct_fst_sort_json simp del: map_map)
  then show ?thesis
    by (simp only: sort_json.simps map_of_sort_json [OF assms(1)] sorted_view_def [abs_def] comp_def)
qed

lemma req_field_sorted [simp]:
  "m k = Some v \<Longrightarrow> req_field (sorted_view m) k dec = dec (sort_json v)"
  by (simp add: req_field_def sorted_view_def)

lemma opt_field_sorted_None [simp]:
  "m k = None \<Longrightarrow> opt_field (sorted_view m) k dec = Some None"
  by (simp add: opt_field_def sorted_view_def)

lemma opt_field_sorted_Some:
  "m k = Some v \<Longrightarrow> dec (sort_json v) = Some x \<Longrightarrow> v \<noteq> JNull \<Longrightarrow>
     opt_field (sorted_view m) k dec = Some (Some x)"
  by (cases v) (simp_all add: opt_field_def sorted_view_def)

lemma opt_field_sorted_map:
  assumes "m k = map_option f v" and "\<And>x. v = Some x \<Longrightarrow> dec (sort_json (f x)) = Some x \<and> f x \<noteq> JNull"
  shows "opt_field (sorted_view m) k dec = Some v"
  using assms by (cases v) (auto intro: opt_field_sorted_Some)

text \<open>The two directions together, for the writer of the JSON library.\<close>

lemma sum_list_sort_key: "sum_list (map f (sort_key g xs)) = (sum_list (map f xs) :: nat)"
proof -
  have "sum_mset (mset (map f (sort_key g xs))) = sum_mset (mset (map f xs))" by simp
  then show ?thesis by (simp only: sum_mset_sum_list)
qed

context zs_libraries
begin

lemma canonical_bytes_eq_iff_perm:
  assumes "json_wf v" "json_wf w" "json_depth v \<le> 127" "json_depth w \<le> 127"
  shows "(canonical_bytes X v :: (bytes, 'e) outcome) = canonical_bytes X w \<longleftrightarrow> json_perm v w"
proof
  assume "(canonical_bytes X v :: (bytes, 'e) outcome) = canonical_bytes X w"
  then have "ext_to_vec X (sort_json v) = ext_to_vec X (sort_json w)"
    using assms by (simp add: canonical_bytes_eq json_wf_no_float)
  then have "sort_json v = sort_json w"
    using assms by (intro serde_json.to_vec_inject [OF json_laws]) simp_all
  then show "json_perm v w" by (rule sort_json_json_perm)
next
  assume "json_perm v w"
  then have "sort_json v = sort_json w"
    using assms(1) by (simp add: json_perm_sort_json json_wf_distinct_keys)
  then show "(canonical_bytes X v :: (bytes, 'e) outcome) = canonical_bytes X w"
    using assms(1,2) by (simp add: canonical_bytes_eq json_wf_no_float)
qed

text \<open>The size of a sorted document: what each entry adds, and what a new entry adds.\<close>

lemma length_sorted_object:
  "length (ext_to_vec X (sort_json (JObject kvs))) =
     2 + sum_list (map (\<lambda>kv. length (ext_to_vec X (JString (fst kv))) + 1 +
       length (ext_to_vec X (sort_json (snd kv)))) kvs) + (length kvs - 1)"
proof -
  let ?h = "\<lambda>kv. (fst kv, sort_json (snd kv))" and ?sort = "sort_key (\<lambda>kv. as_bytes (fst kv))"
  let ?len = "\<lambda>(k, v). length (ext_to_vec X (JString k)) + 1 + length (ext_to_vec X v)"
  have "sum_list (map ?len (map ?h (?sort kvs))) = sum_list (map ?len (map ?h kvs))"
    by (simp only: map_map sum_list_sort_key)
  then show ?thesis
    by (simp add: serde_json.length_to_vec_object [OF json_laws] comp_def)
qed

lemma length_sorted_insert:
  assumes "k \<notin> fst ` set kvs" and "kvs \<noteq> []"
  shows "length (ext_to_vec X (sort_json (JObject (map_insert k v kvs)))) =
    length (ext_to_vec X (sort_json (JObject kvs))) + 1 +
      (length (ext_to_vec X (JString k)) + 1) + length (ext_to_vec X (sort_json v))"
proof -
  have "length kvs + 1 - 1 = (length kvs - 1) + 1" using assms(2) by (cases kvs) auto
  then show ?thesis
    unfolding map_insert_fresh [OF assms(1)] length_sorted_object by simp
qed

end

end
