(* ===== verification/Authenticator_Proof.thy ===== *)
theory Authenticator_Proof
  imports Common
begin

section \<open>The suite \<open>authenticator-proof/v1\<close> (\<open>crates/zs-crypto/src/authenticator_proof.rs\<close>)\<close>

text \<open>
  Acceptance of an authenticator's public key, verification of a proof of possession under the
  algorithm of the registered key, and the challenges of a ceremony. The random generator is a
  parameter: a function from the number of bytes asked to the bytes, or \<open>None\<close> when the system
  generator is unavailable. The comparison of challenges takes constant time in the source; its
  value is equality.
\<close>

definition PROOF_SUITE_V1 :: string where
  "PROOF_SUITE_V1 = ''authenticator-proof/v1''"

datatype proof_algorithm = Es256 | EdDsa

record public_key_material =
  pkm_algorithm :: proof_algorithm
  pkm_raw :: bytes

record accepted_key =
  ak_algorithm :: proof_algorithm
  ak_raw :: bytes

datatype proof_error = ProofUnknownSuite | ProofMalformedKey | ProofInvalidSignature | MalformedChallenge

definition accept_key :: "string \<Rightarrow> public_key_material \<Rightarrow> (accepted_key, proof_error) outcome" where
  "accept_key suite material =
     (if suite \<noteq> PROOF_SUITE_V1 then Err ProofUnknownSuite
      else
        (let expected_len = (case pkm_algorithm material of Es256 \<Rightarrow> 65 | EdDsa \<Rightarrow> 32)
         in if length (pkm_raw material) \<noteq> expected_len then Err ProofMalformedKey
            else if pkm_algorithm material = Es256 \<and> pkm_raw material ! 0 \<noteq> 0x04
              then Err ProofMalformedKey
            else Ok \<lparr>ak_algorithm = pkm_algorithm material, ak_raw = pkm_raw material\<rparr>))"

definition proof_verify ::
  "'x zs_ext_scheme \<Rightarrow> accepted_key \<Rightarrow> bytes \<Rightarrow> bytes \<Rightarrow> (unit, proof_error) outcome" where
  "proof_verify X key message signature =
     (if (case ak_algorithm key of
            Es256 \<Rightarrow> ext_p256_verify X (ak_raw key) message signature
          | EdDsa \<Rightarrow> ext_ed25519_verify X (ak_raw key) message signature)
      then Ok () else Err ProofInvalidSignature)"

definition CHALLENGE_LEN :: nat where
  "CHALLENGE_LEN = 32"

definition new_challenge :: "(nat \<Rightarrow> bytes option) \<Rightarrow> (bytes, 'e) outcome" where
  "new_challenge fill = (case fill CHALLENGE_LEN of None \<Rightarrow> Panic | Some bs \<Rightarrow> Ok bs)"

definition accept_challenge :: "string \<Rightarrow> bytes \<Rightarrow> (bytes, proof_error) outcome" where
  "accept_challenge suite bs =
     (if suite \<noteq> PROOF_SUITE_V1 then Err ProofUnknownSuite
      else if length bs \<noteq> CHALLENGE_LEN then Err MalformedChallenge
      else Ok bs)"

definition challenge_matches :: "bytes \<Rightarrow> bytes \<Rightarrow> bool" where
  "challenge_matches expected presented \<longleftrightarrow> expected = presented"

definition proof_sha256 :: "'x zs_ext_scheme \<Rightarrow> bytes \<Rightarrow> bytes" where
  "proof_sha256 X bs = ext_sha256 X bs"

lemma accept_key_Ok:
  "accept_key suite m = Ok k \<longleftrightarrow>
     suite = PROOF_SUITE_V1 \<and> k = \<lparr>ak_algorithm = pkm_algorithm m, ak_raw = pkm_raw m\<rparr> \<and>
     (case pkm_algorithm m of
        Es256 \<Rightarrow> length (pkm_raw m) = 65 \<and> pkm_raw m ! 0 = 0x04
      | EdDsa \<Rightarrow> length (pkm_raw m) = 32)"
  by (auto simp: accept_key_def Let_def split: proof_algorithm.splits)

lemma accept_key_not_Panic [simp]: "accept_key suite m \<noteq> Panic"
  by (auto simp: accept_key_def Let_def)

lemma proof_verify_Ok [outcome_simps]:
  "proof_verify X key m sig = Ok u \<longleftrightarrow>
     (case ak_algorithm key of
        Es256 \<Rightarrow> ext_p256_verify X (ak_raw key) m sig
      | EdDsa \<Rightarrow> ext_ed25519_verify X (ak_raw key) m sig)"
  by (simp add: proof_verify_def)

lemma proof_verify_not_Panic [simp]: "proof_verify X key m sig \<noteq> Panic"
  by (simp add: proof_verify_def)

lemma accept_new_challenge:
  assumes "\<And>n bs. fill n = Some bs \<Longrightarrow> length bs = n"
    and "new_challenge fill = (Ok c :: (bytes, proof_error) outcome)"
  shows "accept_challenge PROOF_SUITE_V1 c = Ok c"
  using assms by (auto simp: new_challenge_def accept_challenge_def split: option.splits)

end
