(* ===== verification/Audit_Chain.thy ===== *)
theory Audit_Chain
  imports Authenticator_Proof
begin

section \<open>The audit chain (\<open>crates/zs-audit\<close>)\<close>

text \<open>
  The records of an audit event before sealing, the verification of a sequence of sealed events,
  domain by domain, and the traits through which an event is recorded. The central lemma gives
  \<open>verify_chain\<close> a specification that does not mention its loop or its hash map: every domain's
  subsequence is numbered from 0 and linked by digests. From it follow the independence of the
  interleaving of domains, the undetected truncation the documentation announces, and the
  evidence of tampering: two accepted histories with the same last event are the same history, or
  two different byte strings have the same digest.
\<close>

subsection \<open>Records before sealing (\<open>record.rs\<close>)\<close>

datatype record_event_type =
    RecAuthenticatorRegistered
  | RecAuthenticatorRevoked
  | RecAuthenticationAttempted
  | RecAuthenticationSucceeded
  | RecAuthenticationFailed
  | RecRecoveryInitiated
  | RecQuorumOperation
  | RecAuditChainVerified
  | RecPolicyDecided
  | RecCredentialIssued

fun record_event_type_str :: "record_event_type \<Rightarrow> string" where
  "record_event_type_str RecAuthenticatorRegistered = ''authenticator.registered''"
| "record_event_type_str RecAuthenticatorRevoked = ''authenticator.revoked''"
| "record_event_type_str RecAuthenticationAttempted = ''authentication.attempted''"
| "record_event_type_str RecAuthenticationSucceeded = ''authentication.succeeded''"
| "record_event_type_str RecAuthenticationFailed = ''authentication.failed''"
| "record_event_type_str RecRecoveryInitiated = ''recovery.initiated''"
| "record_event_type_str RecQuorumOperation = ''quorum.operation''"
| "record_event_type_str RecAuditChainVerified = ''audit.chain_verified''"
| "record_event_type_str RecPolicyDecided = ''policy.decided''"
| "record_event_type_str RecCredentialIssued = ''credential.issued''"

datatype record_actor_kind = RecHuman | RecWorkload | RecSystem

fun record_actor_kind_str :: "record_actor_kind \<Rightarrow> string" where
  "record_actor_kind_str RecHuman = ''human''"
| "record_actor_kind_str RecWorkload = ''workload''"
| "record_actor_kind_str RecSystem = ''system''"

record record_actor =
  ra_subject_id :: string
  ra_kind :: record_actor_kind
  ra_aal :: "string option"
  ra_auth_method :: "string option"

datatype record_outcome = RecSuccess | RecDenied | RecError

fun record_outcome_str :: "record_outcome \<Rightarrow> string" where
  "record_outcome_str RecSuccess = ''success''"
| "record_outcome_str RecDenied = ''denied''"
| "record_outcome_str RecError = ''error''"

record record_target =
  rt_target_type :: string
  rt_target_id :: string

record record_context =
  rx_source_network :: "string option"
  rx_ticket_ref :: "string option"
  rx_justification :: "string option"

record audit_record =
  ar_occurred_at :: string
  ar_authority_domain :: string
  ar_event_type :: record_event_type
  ar_actor :: record_actor
  ar_target :: "record_target option"
  ar_outcome :: record_outcome
  ar_context :: "record_context option"

text \<open>The sink is an argument: whatever it answers, an error included, is the answer (\<open>sink.rs\<close>).\<close>

definition record_or_fail ::
  "(audit_record \<Rightarrow> ('s, 'receipt, 'e) action) \<Rightarrow> audit_record \<Rightarrow> ('s, 'receipt, 'e) action" where
  "record_or_fail sink record = sink record"

subsection \<open>Verification of a chain (\<open>chain.rs\<close>)\<close>

definition CHAIN_ROOT :: bytes where
  "CHAIN_ROOT = replicate 32 0"

record chain_entry =
  ce_authority_domain :: string
  ce_sequence :: u64
  ce_prev_hash :: bytes
  ce_sealed_bytes :: bytes

datatype chain_error =
    ChainEmpty
  | InvalidRoot string
  | FirstSequenceNotZero string u64
  | SequenceGap string u64 u64
  | BrokenLink string nat

definition hash_sealed_event :: "'x zs_ext_scheme \<Rightarrow> bytes \<Rightarrow> bytes" where
  "hash_sealed_event X sealed_bytes = proof_sha256 X sealed_bytes"

text \<open>
  The body of the loop for one entry, against the last event seen in its domain, and the loop with
  its index and its hash map. The addition \<open>prev_sequence + 1\<close> wraps, as it does in a release build.
\<close>

definition verify_entry ::
  "'x zs_ext_scheme \<Rightarrow> nat \<Rightarrow> (u64 \<times> bytes) option \<Rightarrow> chain_entry \<Rightarrow> (unit, chain_error) outcome" where
  "verify_entry X index latest e =
     (case latest of
        None \<Rightarrow>
          if ce_prev_hash e \<noteq> CHAIN_ROOT then Err (InvalidRoot (ce_authority_domain e))
          else if ce_sequence e \<noteq> 0
            then Err (FirstSequenceNotZero (ce_authority_domain e) (ce_sequence e))
          else Ok ()
      | Some (prev_sequence, prev_sealed_bytes) \<Rightarrow>
          if ce_sequence e \<noteq> prev_sequence + 1
            then Err (SequenceGap (ce_authority_domain e) prev_sequence (ce_sequence e))
          else if ce_prev_hash e \<noteq> hash_sealed_event X prev_sealed_bytes
            then Err (BrokenLink (ce_authority_domain e) index)
          else Ok ())"

fun verify_chain_loop ::
  "'x zs_ext_scheme \<Rightarrow> nat \<Rightarrow> (string \<rightharpoonup> u64 \<times> bytes) \<Rightarrow> chain_entry list \<Rightarrow> (unit, chain_error) outcome" where
  "verify_chain_loop X index last_by_domain [] = Ok ()"
| "verify_chain_loop X index last_by_domain (e # es) =
     and_then (verify_entry X index (last_by_domain (ce_authority_domain e)) e) (\<lambda>_.
       verify_chain_loop X (Suc index)
         (last_by_domain(ce_authority_domain e \<mapsto> (ce_sequence e, ce_sealed_bytes e))) es)"

definition verify_chain :: "'x zs_ext_scheme \<Rightarrow> chain_entry list \<Rightarrow> (unit, chain_error) outcome" where
  "verify_chain X es =
     (if es = [] then Err ChainEmpty else verify_chain_loop X 0 Map.empty es)"

section \<open>Specification and properties\<close>

text \<open>The chain of one domain, without loop or map: numbered from 0, linked by digests.\<close>

definition link_at :: "'x zs_ext_scheme \<Rightarrow> chain_entry list \<Rightarrow> nat \<Rightarrow> bool" where
  "link_at X es i \<longleftrightarrow>
     ce_sequence (es ! i) = word_of_nat i \<and>
     ce_prev_hash (es ! i) =
       (if i = 0 then CHAIN_ROOT else hash_sealed_event X (ce_sealed_bytes (es ! (i - 1))))"

definition linked :: "'x zs_ext_scheme \<Rightarrow> chain_entry list \<Rightarrow> bool" where
  "linked X es \<longleftrightarrow> (\<forall>i < length es. link_at X es i)"

definition in_domain :: "string \<Rightarrow> chain_entry list \<Rightarrow> chain_entry list" where
  "in_domain d es = filter (\<lambda>e. ce_authority_domain e = d) es"

definition last_view :: "chain_entry list \<Rightarrow> string \<rightharpoonup> u64 \<times> bytes" where
  "last_view es d =
     (if in_domain d es = [] then None
      else Some (ce_sequence (last (in_domain d es)), ce_sealed_bytes (last (in_domain d es))))"

lemma link_at_append: "i < length es \<Longrightarrow> link_at X (es @ fs) i = link_at X es i"
  by (auto simp: link_at_def nth_append)

lemma linked_appendD: "linked X (es @ fs) \<Longrightarrow> linked X es"
  unfolding linked_def by (metis link_at_append length_append trans_less_add1)

lemma linked_snoc:
  "linked X (es @ [e]) \<longleftrightarrow> linked X es \<and> ce_sequence e = word_of_nat (length es) \<and>
     ce_prev_hash e = (if es = [] then CHAIN_ROOT else hash_sealed_event X (ce_sealed_bytes (last es)))"
proof -
  have "linked X (es @ [e]) \<longleftrightarrow> linked X es \<and> link_at X (es @ [e]) (length es)"
    by (auto simp: linked_def less_Suc_eq link_at_append)
  moreover have "link_at X (es @ [e]) (length es) \<longleftrightarrow> ce_sequence e = word_of_nat (length es) \<and>
     ce_prev_hash e = (if es = [] then CHAIN_ROOT else hash_sealed_event X (ce_sealed_bytes (last es)))"
    by (simp add: link_at_def nth_append last_conv_nth)
  ultimately show ?thesis by blast
qed

lemma linked_Nil [simp]: "linked X []"
  by (simp add: linked_def)

lemma in_domain_snoc:
  "in_domain d (es @ [e]) = (if ce_authority_domain e = d then in_domain d es @ [e] else in_domain d es)"
  by (simp add: in_domain_def)

lemma last_view_snoc:
  "last_view (es @ [e]) = (last_view es)(ce_authority_domain e \<mapsto> (ce_sequence e, ce_sealed_bytes e))"
  by (auto simp: last_view_def in_domain_snoc fun_eq_iff)

text \<open>Against the last event of a valid prefix, the body accepts exactly the next link.\<close>

lemma verify_entry_Ok:
  assumes "linked X (in_domain (ce_authority_domain e) es)"
  shows "verify_entry X i (last_view es (ce_authority_domain e)) e = Ok () \<longleftrightarrow>
    linked X (in_domain (ce_authority_domain e) (es @ [e]))"
proof (cases "in_domain (ce_authority_domain e) es" rule: rev_cases)
  case Nil
  then show ?thesis
    by (auto simp: verify_entry_def last_view_def in_domain_snoc linked_snoc [of X "[]", simplified])
next
  case (snoc ds d)
  with assms have "ce_sequence d = word_of_nat (length ds)" by (simp add: linked_snoc)
  then have "ce_sequence d + 1 = word_of_nat (length (ds @ [d]))" by simp
  with snoc assms show ?thesis
    using linked_snoc [of X "ds @ [d]" e] by (auto simp: verify_entry_def last_view_def in_domain_snoc)
qed

lemma verify_entry_not_Panic [simp]: "verify_entry X i l e \<noteq> Panic"
  by (auto simp: verify_entry_def split: option.splits)

lemma verify_chain_loop_spec:
  assumes "\<And>d. linked X (in_domain d es)"
  shows "verify_chain_loop X i (last_view es) fs = Ok () \<longleftrightarrow> (\<forall>d. linked X (in_domain d (es @ fs)))"
  using assms
proof (induction fs arbitrary: es i)
  case (Cons e fs)
  let ?d = "ce_authority_domain e"
  show ?case
  proof (cases "verify_entry X i (last_view es ?d) e = Ok ()")
    case True
    then have "linked X (in_domain ?d (es @ [e]))" using verify_entry_Ok Cons.prems by blast
    then have "linked X (in_domain d (es @ [e]))" for d
      using Cons.prems [of d] by (cases "d = ?d") (auto simp: in_domain_snoc)
    from Cons.IH [OF this] True show ?thesis by (simp flip: last_view_snoc)
  next
    case False
    then have "\<not> linked X (in_domain ?d es @ [e])"
      using verify_entry_Ok [OF Cons.prems] by (simp add: in_domain_snoc)
    then have "\<not> linked X ((in_domain ?d es @ [e]) @ in_domain ?d fs)"
      using linked_appendD by blast
    then have "\<not> linked X (in_domain ?d (es @ e # fs))" by (simp add: in_domain_def)
    with False show ?thesis by (auto simp: outcome_simps)
  qed
qed simp

lemma last_view_Nil: "last_view [] = Map.empty"
  by (simp add: last_view_def in_domain_def fun_eq_iff)

lemma verify_chain_iff:
  "verify_chain X es = Ok () \<longleftrightarrow> es \<noteq> [] \<and> (\<forall>d. linked X (in_domain d es))"
  using verify_chain_loop_spec [of X "[]" 0 es]
  by (simp add: verify_chain_def last_view_Nil in_domain_def)

lemma verify_chain_loop_not_Panic: "verify_chain_loop X i m es \<noteq> Panic"
  by (induction es arbitrary: i m) (auto simp: outcome_simps)

lemma verify_chain_not_Panic: "verify_chain X es \<noteq> Panic"
  by (simp add: verify_chain_def verify_chain_loop_not_Panic)

text \<open>An error is reported at the first entry that is not the next link of its domain.\<close>

lemma verify_chain_loop_Err:
  assumes "verify_chain_loop X i (last_view es) fs = Err err" and "\<And>d. linked X (in_domain d es)"
  shows "\<exists>gs e hs. fs = gs @ e # hs \<and> (\<forall>d. linked X (in_domain d (es @ gs))) \<and>
    verify_entry X (i + length gs) (last_view (es @ gs) (ce_authority_domain e)) e = Err err"
  using assms
proof (induction fs arbitrary: es i)
  case (Cons e fs)
  let ?d = "ce_authority_domain e"
  show ?case
  proof (cases "verify_entry X i (last_view es ?d) e")
    case (Ok u)
    then have "linked X (in_domain ?d (es @ [e]))" using verify_entry_Ok [OF Cons.prems(2)] by simp
    then have prefix_ok: "linked X (in_domain d (es @ [e]))" for d
      using Cons.prems(2) [of d] by (cases "d = ?d") (auto simp: in_domain_snoc)
    have "verify_chain_loop X (Suc i) (last_view (es @ [e])) fs = Err err"
      using Cons.prems(1) Ok by (simp add: last_view_snoc)
    from Cons.IH [OF this prefix_ok] obtain gs f hs where
      "fs = gs @ f # hs" "\<forall>d. linked X (in_domain d ((es @ [e]) @ gs))"
      "verify_entry X (Suc i + length gs) (last_view ((es @ [e]) @ gs) (ce_authority_domain f)) f = Err err"
      by blast
    then show ?thesis by (intro exI [of _ "e # gs"]) auto
  next
    case (Err e')
    with Cons.prems show ?thesis by (intro exI [of _ "[]"]) auto
  qed simp
qed simp

lemma verify_chain_Err:
  assumes "verify_chain X es = Err err" and "es \<noteq> []"
  obtains gs e hs where "es = gs @ e # hs" "\<And>d. linked X (in_domain d gs)"
    "verify_entry X (length gs) (last_view gs (ce_authority_domain e)) e = Err err"
  using verify_chain_loop_Err [of X 0 "[]" es err] assms
  by (auto simp: verify_chain_def last_view_Nil in_domain_def)

subsection \<open>Truncation and interleaving\<close>

lemma verify_chain_prefix: "verify_chain X (es @ fs) = Ok () \<Longrightarrow> es \<noteq> [] \<Longrightarrow> verify_chain X es = Ok ()"
proof -
  assume ok: "verify_chain X (es @ fs) = Ok ()" and "es \<noteq> []"
  have "linked X (in_domain d es)" for d
  proof -
    have "linked X (in_domain d es @ in_domain d fs)"
      using ok by (simp add: verify_chain_iff in_domain_def)
    then show ?thesis by (rule linked_appendD)
  qed
  with \<open>es \<noteq> []\<close> show ?thesis by (simp add: verify_chain_iff)
qed

lemma verify_chain_interleaving:
  assumes "\<And>d. in_domain d es = in_domain d fs"
  shows "verify_chain X es = Ok () \<longleftrightarrow> verify_chain X fs = Ok ()"
proof -
  have "es = [] \<longleftrightarrow> (\<forall>d. in_domain d es = [])" for es
    by (cases es) (auto simp: in_domain_def filter_empty_conv)
  then have "es = [] \<longleftrightarrow> fs = []" using assms by metis
  then show ?thesis using assms by (auto simp: verify_chain_iff)
qed

subsection \<open>Evidence of tampering\<close>

text \<open>
  \<open>view\<close> reads the position and the link that an event's own bytes carry, as the verification of a
  seal does; an entry is authentic when it reports them unchanged.
\<close>

definition authentic :: "(bytes \<Rightarrow> (u64 \<times> bytes) option) \<Rightarrow> chain_entry \<Rightarrow> bool" where
  "authentic view e \<longleftrightarrow> view (ce_sealed_bytes e) = Some (ce_sequence e, ce_prev_hash e)"

lemma history_same_length:
  fixes es fs :: "chain_entry list"
  assumes "linked X es" "linked X fs" "list_all (authentic view) es" "list_all (authentic view) fs"
    and "es \<noteq> []" "fs \<noteq> []" "length es \<le> 2 ^ 64" "length fs \<le> 2 ^ 64"
    and "ce_sealed_bytes (last es) = ce_sealed_bytes (last fs)"
  shows "length es = length fs"
proof -
  obtain es' e fs' f where ef: "es = es' @ [e]" "fs = fs' @ [f]"
    using assms(5,6) by (metis rev_exhaust)
  have "ce_sequence e = ce_sequence f"
    using assms(3,4,9) ef by (auto simp: authentic_def)
  then have "(word_of_nat (length es') :: u64) = word_of_nat (length fs')"
    using assms(1,2) ef by (simp add: linked_snoc)
  moreover have "unat (word_of_nat (length es') :: u64) = length es'"
      "unat (word_of_nat (length fs') :: u64) = length fs'"
    using assms(7,8) ef by (auto intro!: unat_word_of_nat_eq)
  ultimately have "length es' = length fs'" by metis
  with ef show ?thesis by simp
qed

lemma history_unique:
  fixes es fs :: "chain_entry list"
  assumes "length es = length fs" "linked X es" "linked X fs"
    and "list_all (authentic view) es" "list_all (authentic view) fs"
    and "es \<noteq> []" "ce_sealed_bytes (last es) = ce_sealed_bytes (last fs)"
  shows "map ce_sealed_bytes es = map ce_sealed_bytes fs \<or>
    (\<exists>m m'. m \<noteq> m' \<and> ext_sha256 X m = ext_sha256 X m')"
  using assms
proof (induction es arbitrary: fs rule: rev_induct)
  case (snoc e es)
  then obtain fs' f where fs: "fs = fs' @ [f]" "length es = length fs'"
    by (cases fs rule: rev_cases) auto
  have ef: "ce_sealed_bytes e = ce_sealed_bytes f" using snoc.prems(7) fs by simp
  then have prev: "ce_prev_hash e = ce_prev_hash f"
    using snoc.prems(4,5) fs by (auto simp: authentic_def)
  show ?case
  proof (cases "es = []")
    case True
    with fs ef show ?thesis by simp
  next
    case False
    then have "fs' \<noteq> []" using fs(2) by auto
    have "ext_sha256 X (ce_sealed_bytes (last es)) = ext_sha256 X (ce_sealed_bytes (last fs'))"
      using prev snoc.prems(2,3) fs(1) False \<open>fs' \<noteq> []\<close>
      by (simp add: linked_snoc hash_sealed_event_def proof_sha256_def)
    moreover have ?thesis if "ce_sealed_bytes (last es) = ce_sealed_bytes (last fs')"
      using snoc.IH [OF fs(2) _ _ _ _ False that] snoc.prems fs ef by (auto simp: linked_snoc)
    ultimately show ?thesis by metis
  qed
qed simp

end
