(* ===== verification/Hsm_Pool.thy ===== *)
theory Hsm_Pool
  imports Prelude
begin

section \<open>The PKCS#11 session pool (\<open>crates/zs-hsm\<close>)\<close>

text \<open>
  The token and the \<open>cryptoki\<close> driver are the parameter \<open>pkcs11\<close>, a record of state-passing
  calls over an abstract token state. On top of it stand, in the order of \<open>pool.rs\<close>, the opening
  of a pool, the acquisition and the return of a session, the replacement of a lost one, and the
  two operations of the trait \<open>HsmSigner\<close>. The lemmas show where each session goes on every
  branch, what a successful signature and a successful key lookup say of the token, that the
  decoder of \<open>CKA_EC_POINT\<close> inverts DER, and, for the interleaving of several threads, that a
  session is never in two hands and that the pool never grows beyond its configured size.
\<close>

subsection \<open>Errors, mechanisms and the signing surface\<close>

datatype signing_mechanism = EcdsaP256Sha256

datatype hsm_error =
    NotInitialized
  | TokenAbsent
  | SessionLost
  | NotLoggedIn
  | KeyNotFound string
  | MechanismUnsupported signing_mechanism
  | PoolExhausted
  | DeviceError

record key_ref =
  key_ref_label :: string

definition KeyRef_new :: "string \<Rightarrow> key_ref" where
  "KeyRef_new l = \<lparr>key_ref_label = l\<rparr>"

subsection \<open>The driver\<close>

text \<open>The error values of the driver that \<open>map_error\<close> distinguishes; the rest is \<open>OtherRv\<close>.\<close>

datatype rv_error =
    SessionHandleInvalid
  | SessionClosed
  | UserNotLoggedIn
  | PinIncorrect
  | TokenNotPresent
  | DeviceRemoved
  | MechanismInvalid
  | OtherRv

datatype ck_mechanism = Ck_Ecdsa | Ck_Other nat

datatype session_limit = Limit_Max u64 | Limit_Unavailable | Limit_Infinite

datatype object_class = PRIVATE_KEY | PUBLIC_KEY

datatype ck_attribute = EcPoint bytes | OtherAttribute

type_synonym hsm_session = nat

record 't pkcs11 =
  pk_new :: "string \<Rightarrow> ('t, unit, rv_error) action"
  pk_initialize :: "('t, unit, rv_error) action"
  pk_slots :: "('t, u64 list, rv_error) action"
  pk_max_session_count :: "u64 \<Rightarrow> ('t, session_limit, rv_error) action"
  pk_mechanisms :: "u64 \<Rightarrow> ('t, ck_mechanism list, rv_error) action"
  pk_open_rw_session :: "u64 \<Rightarrow> ('t, hsm_session, rv_error) action"
  pk_login :: "hsm_session \<Rightarrow> string \<Rightarrow> ('t, unit, rv_error) action"
  pk_find_objects :: "hsm_session \<Rightarrow> object_class \<Rightarrow> bytes \<Rightarrow> ('t, nat list, rv_error) action"
  pk_sign :: "hsm_session \<Rightarrow> ck_mechanism \<Rightarrow> nat \<Rightarrow> bytes \<Rightarrow> ('t, bytes, rv_error) action"
  pk_get_attributes :: "hsm_session \<Rightarrow> nat \<Rightarrow> ('t, ck_attribute list, rv_error) action"
  pk_close :: "hsm_session \<Rightarrow> 't \<Rightarrow> 't"

fun map_error :: "rv_error \<Rightarrow> hsm_error" where
  "map_error SessionHandleInvalid = SessionLost"
| "map_error SessionClosed = SessionLost"
| "map_error UserNotLoggedIn = NotLoggedIn"
| "map_error PinIncorrect = NotLoggedIn"
| "map_error TokenNotPresent = TokenAbsent"
| "map_error DeviceRemoved = TokenAbsent"
| "map_error MechanismInvalid = MechanismUnsupported EcdsaP256Sha256"
| "map_error OtherRv = DeviceError"

fun to_cryptoki_mechanism :: "signing_mechanism \<Rightarrow> ck_mechanism" where
  "to_cryptoki_mechanism EcdsaP256Sha256 = Ck_Ecdsa"

fun to_mechanism_type :: "signing_mechanism \<Rightarrow> ck_mechanism" where
  "to_mechanism_type EcdsaP256Sha256 = Ck_Ecdsa"

subsection \<open>Opening a pool\<close>

record hsm_config =
  cfg_module_path :: string
  cfg_slot_id :: "u64 option"
  cfg_pin :: string
  cfg_pool_size :: nat
  cfg_acquire_timeout :: nat

text \<open>
  \<open>Inner\<close>: the driver's state, the slot, the PIN and the queue behind the mutex. The condition
  variable has no state of its own.
\<close>

record 't session_pool =
  pool_pkcs11 :: 't
  pool_slot :: u64
  pool_pin :: string
  pool_sessions :: "hsm_session list"

definition resolve_slot :: "'t pkcs11 \<Rightarrow> u64 option \<Rightarrow> ('t, u64, hsm_error) action" where
  "resolve_slot P requested =
     act_bind (act_map_err map_error (pk_slots P)) (\<lambda>slots.
       act_lift (ok_or TokenAbsent
         (case requested of
            Some i \<Rightarrow> find (\<lambda>s. s = i) slots
          | None \<Rightarrow> (case slots of [] \<Rightarrow> None | s # _ \<Rightarrow> Some s))))"

definition ensure_mechanism_supported ::
  "'t pkcs11 \<Rightarrow> u64 \<Rightarrow> signing_mechanism \<Rightarrow> ('t, unit, hsm_error) action" where
  "ensure_mechanism_supported P slot mechanism =
     act_bind (act_map_err map_error (pk_mechanisms P slot)) (\<lambda>offered.
       if to_mechanism_type mechanism \<in> set offered then act_return ()
       else act_lift (Err (MechanismUnsupported mechanism)))"

text \<open>
  The loop that opens and authenticates the sessions. On an error the sessions opened so far are
  dropped, which closes them.
\<close>

fun open_sessions ::
  "'t pkcs11 \<Rightarrow> u64 \<Rightarrow> string \<Rightarrow> nat \<Rightarrow> hsm_session list \<Rightarrow> ('t, hsm_session list, hsm_error) action"
where
  "open_sessions P slot pin 0 opened t = (Ok opened, t)"
| "open_sessions P slot pin (Suc n) opened t =
     (case pk_open_rw_session P slot t of
        (Ok session, t') \<Rightarrow>
          (case pk_login P session pin t' of
             (Ok u, t'') \<Rightarrow> open_sessions P slot pin n (opened @ [session]) t''
           | (Err e, t'') \<Rightarrow> (Err (map_error e), fold (pk_close P) opened (pk_close P session t''))
           | (Panic, t'') \<Rightarrow> (Panic, t''))
      | (Err e, t') \<Rightarrow> (Err (map_error e), fold (pk_close P) opened t')
      | (Panic, t') \<Rightarrow> (Panic, t'))"

definition session_pool_open ::
  "'t pkcs11 \<Rightarrow> hsm_config \<Rightarrow> ('t, 't session_pool, hsm_error) action" where
  "session_pool_open P config =
     act_bind (act_map_err (\<lambda>_. NotInitialized) (pk_new P (cfg_module_path config))) (\<lambda>_.
     act_bind (act_map_err (\<lambda>_. NotInitialized) (pk_initialize P)) (\<lambda>_.
     act_bind (resolve_slot P (cfg_slot_id config)) (\<lambda>slot.
     act_bind (act_map_err map_error (pk_max_session_count P slot)) (\<lambda>limit.
     if (case limit of Limit_Max m \<Rightarrow> cfg_pool_size config > unat m | _ \<Rightarrow> False)
     then act_lift (Err DeviceError)
     else
       act_bind (ensure_mechanism_supported P slot EcdsaP256Sha256) (\<lambda>_.
       act_bind (open_sessions P slot (cfg_pin config) (cfg_pool_size config) []) (\<lambda>sessions t.
         (Ok \<lparr>pool_pkcs11 = t, pool_slot = slot, pool_pin = cfg_pin config,
              pool_sessions = sessions\<rparr>, t)))))))"

subsection \<open>Acquiring and returning a session\<close>

text \<open>
  The loop of \<open>acquire\<close>. What the other threads do while this one waits on the condition
  variable is the argument \<open>wakes\<close>: each entry is one return of \<open>wait_timeout\<close>, with the queue
  found under the mutex and the flag \<open>timed_out\<close>; the end of the list is the moment the deadline
  is reached (\<open>remaining.is_zero()\<close>).
\<close>

type_synonym wakes = "(hsm_session list \<times> bool) list"

fun acquire :: "wakes \<Rightarrow> hsm_session list \<Rightarrow> (hsm_session, hsm_error) outcome \<times> hsm_session list" where
  "acquire wakes (session # guard) = (Ok session, guard)"
| "acquire [] [] = (Err PoolExhausted, [])"
| "acquire ((next_guard, timed_out) # wakes) [] =
     (if timed_out \<and> next_guard = [] then (Err PoolExhausted, next_guard)
      else acquire wakes next_guard)"

definition pool_acquire :: "wakes \<Rightarrow> ('t session_pool, hsm_session, hsm_error) action" where
  "pool_acquire wakes p =
     (case acquire wakes (pool_sessions p) of (r, q) \<Rightarrow> (r, p\<lparr>pool_sessions := q\<rparr>))"

definition release :: "hsm_session \<Rightarrow> 't session_pool \<Rightarrow> 't session_pool" where
  "release session p = p\<lparr>pool_sessions := pool_sessions p @ [session]\<rparr>"

text \<open>A call of the driver on the token behind the pool, and the drop of a session.\<close>

definition on_token :: "('t, 'a, rv_error) action \<Rightarrow> ('t session_pool, 'a, hsm_error) action" where
  "on_token m p = (case m (pool_pkcs11 p) of (r, t) \<Rightarrow> (map_err map_error r, p\<lparr>pool_pkcs11 := t\<rparr>))"

definition drop_session :: "'t pkcs11 \<Rightarrow> hsm_session \<Rightarrow> 't session_pool \<Rightarrow> 't session_pool" where
  "drop_session P session p = p\<lparr>pool_pkcs11 := pk_close P session (pool_pkcs11 p)\<rparr>"

definition evict_and_replenish :: "'t pkcs11 \<Rightarrow> 't session_pool \<Rightarrow> 't session_pool" where
  "evict_and_replenish P p =
     (case on_token (pk_open_rw_session P (pool_slot p)) p of
        (Ok session, p') \<Rightarrow>
          (case on_token (pk_login P session (pool_pin p')) p' of
             (Ok u, p'') \<Rightarrow> release session p''
           | (_, p'') \<Rightarrow> drop_session P session p'')
      | (_, p') \<Rightarrow> p')"

text \<open>\<open>acquire_timeout\<close>, in seconds: the configured value is not consulted.\<close>

definition pool_acquire_timeout :: "'t session_pool \<Rightarrow> nat" where
  "pool_acquire_timeout p = 5"

definition handle_operation_failure ::
  "'t pkcs11 \<Rightarrow> hsm_session \<Rightarrow> hsm_error \<Rightarrow> 't session_pool \<Rightarrow> 't session_pool" where
  "handle_operation_failure P session err p =
     (if err \<in> {SessionLost, NotLoggedIn, TokenAbsent}
      then evict_and_replenish P (drop_session P session p)
      else release session p)"

subsection \<open>The operations of \<open>HsmSigner\<close>\<close>

definition find_key ::
  "'t pkcs11 \<Rightarrow> hsm_session \<Rightarrow> key_ref \<Rightarrow> object_class \<Rightarrow> ('t session_pool, nat, hsm_error) action" where
  "find_key P session key cls =
     act_bind (on_token (pk_find_objects P session cls (as_bytes (key_ref_label key)))) (\<lambda>handles.
       case handles of
         [single] \<Rightarrow> act_return single
       | _ \<Rightarrow> act_lift (Err (KeyNotFound (key_ref_label key))))"

text \<open>
  \<open>sign_digest\<close>. A failed \<open>find_key\<close> leaves the function by the question mark: the session held
  in the local variable is dropped there, hence closed, and does not go back to the pool.
\<close>

definition sign_digest ::
  "'t pkcs11 \<Rightarrow> wakes \<Rightarrow> key_ref \<Rightarrow> signing_mechanism \<Rightarrow> bytes \<Rightarrow>
     ('t session_pool, bytes, hsm_error) action" where
  "sign_digest P wakes key mechanism digest =
     act_bind (pool_acquire wakes) (\<lambda>session p.
       case find_key P session key PRIVATE_KEY p of
         (Err e, p') \<Rightarrow> (Err e, drop_session P session p')
       | (Panic, p') \<Rightarrow> (Panic, p')
       | (Ok handle, p') \<Rightarrow>
           (case on_token (pk_sign P session (to_cryptoki_mechanism mechanism) handle digest) p' of
              (Ok raw, p'') \<Rightarrow> (Ok raw, release session p'')
            | (Err mapped, p'') \<Rightarrow> (Err mapped, handle_operation_failure P session mapped p'')
            | (Panic, p'') \<Rightarrow> (Panic, p'')))"

text \<open>
  \<open>decode_ec_point\<close>: the content of a DER octet string. \<open>der.get(a..b)\<close> is \<open>None\<close> past the end;
  the length has at most four bytes, so \<open>usize\<close> does not overflow.
\<close>

definition be_length :: "bytes \<Rightarrow> nat" where
  "be_length bs = fold (\<lambda>b len. len * 256 + unat b) bs 0"

definition get_range :: "bytes \<Rightarrow> nat \<Rightarrow> nat \<Rightarrow> bytes option" where
  "get_range bs a b = (if a \<le> b \<and> b \<le> length bs then Some (take (b - a) (drop a bs)) else None)"

unbundle bit_operations_syntax

definition decode_ec_point :: "bytes \<Rightarrow> (bytes, hsm_error) outcome" where
  "decode_ec_point der =
     (if length der < 2 \<or> der ! 0 \<noteq> 0x04 then Err DeviceError
      else if der ! 1 AND 0x80 = 0
        then ok_or DeviceError (get_range der 2 (2 + unat (der ! 1)))
      else
        (let length_bytes = unat (der ! 1 AND 0x7F)
         in if length_bytes = 0 \<or> length_bytes > 4 \<or> length der < 2 + length_bytes
            then Err DeviceError
            else
              (let len = be_length (take length_bytes (drop 2 der))
               in ok_or DeviceError
                    (get_range der (2 + length_bytes) (2 + length_bytes + len)))))"

fun find_ec_point :: "ck_attribute list \<Rightarrow> bytes option" where
  "find_ec_point [] = None"
| "find_ec_point (EcPoint bs # as) = Some bs"
| "find_ec_point (OtherAttribute # as) = find_ec_point as"

definition public_key ::
  "'t pkcs11 \<Rightarrow> wakes \<Rightarrow> key_ref \<Rightarrow> ('t session_pool, bytes, hsm_error) action" where
  "public_key P wakes key =
     act_bind (pool_acquire wakes) (\<lambda>session p.
       case find_key P session key PUBLIC_KEY p of
         (Err e, p') \<Rightarrow> (Err e, release session p')
       | (Panic, p') \<Rightarrow> (Panic, p')
       | (Ok handle, p') \<Rightarrow>
           (case on_token (pk_get_attributes P session handle) p' of
              (Ok vals, p'') \<Rightarrow>
                (and_then (ok_or (KeyNotFound (key_ref_label key)) (find_ec_point vals))
                   decode_ec_point, release session p'')
            | (Err mapped, p'') \<Rightarrow> (Err mapped, handle_operation_failure P session mapped p'')
            | (Panic, p'') \<Rightarrow> (Panic, p'')))"


section \<open>Properties of the pool\<close>

subsection \<open>Acquisition\<close>

text \<open>A session comes from the front of the queue the mutex protects; the only error is exhaustion.\<close>

lemma acquire_cases:
  "(\<exists>s g. acquire wakes q = (Ok s, g) \<and> (s # g = q \<or> s # g \<in> fst ` set wakes)) \<or>
   acquire wakes q = (Err PoolExhausted, [])"
  by (induction wakes q rule: acquire.induct) auto

lemma pool_acquire_cases:
  obtains (got) s g where "pool_acquire wakes p = (Ok s, p\<lparr>pool_sessions := g\<rparr>)"
      "s # g = pool_sessions p \<or> s # g \<in> fst ` set wakes"
  | (exhausted) "pool_acquire wakes p = (Err PoolExhausted, p\<lparr>pool_sessions := []\<rparr>)"
proof (cases "acquire wakes (pool_sessions p) = (Err PoolExhausted, [])")
  case True
  then show ?thesis using exhausted by (simp add: pool_acquire_def)
next
  case False
  then obtain s g where "acquire wakes (pool_sessions p) = (Ok s, g)"
      "s # g = pool_sessions p \<or> s # g \<in> fst ` set wakes"
    using acquire_cases [of wakes "pool_sessions p"] by blast
  then show ?thesis using got by (simp add: pool_acquire_def)
qed

lemma pool_acquire_front: "pool_sessions p = s # g \<Longrightarrow> pool_acquire wakes p = (Ok s, p\<lparr>pool_sessions := g\<rparr>)"
  by (simp add: pool_acquire_def)

lemma on_token_sessions: "on_token m p = (r, p') \<Longrightarrow> pool_sessions p' = pool_sessions p"
  by (auto simp: on_token_def split: prod.splits)

lemma find_key_sessions: "find_key P s key cls p = (r, p') \<Longrightarrow> pool_sessions p' = pool_sessions p"
  unfolding find_key_def act_bind_def
  by (auto simp: on_token_def act_return_def act_lift_def split: prod.splits outcome.splits list.splits)

lemma drop_session_sessions [simp]: "pool_sessions (drop_session P s p) = pool_sessions p"
  by (simp add: drop_session_def)

lemma release_sessions [simp]: "pool_sessions (release s p) = pool_sessions p @ [s]"
  by (simp add: release_def)

lemma evict_and_replenish_sessions:
  "pool_sessions (evict_and_replenish P p) = pool_sessions p \<or>
   (\<exists>s. pool_sessions (evict_and_replenish P p) = pool_sessions p @ [s] \<and>
      fst (pk_open_rw_session P (pool_slot p) (pool_pkcs11 p)) = Ok s)"
  unfolding evict_and_replenish_def
  by (auto simp: outcome_simps on_token_def split: prod.splits outcome.splits)

lemmas pool_sessions_simps =
  on_token_sessions find_key_sessions drop_session_sessions release_sessions

subsection \<open>Signing\<close>

text \<open>What a successful signature says: one handle under the label, one call of the token.\<close>

lemma on_token_Ok: "on_token m p = (Ok x, p') \<longleftrightarrow>
    (\<exists>t. m (pool_pkcs11 p) = (Ok x, t) \<and> p' = p\<lparr>pool_pkcs11 := t\<rparr>)"
  by (auto simp: on_token_def outcome_simps split: prod.splits)

lemma single_handle_Ok:
  "(case hs of [h] \<Rightarrow> act_return h | _ \<Rightarrow> act_lift (Err e)) p = (Ok h', p') \<longleftrightarrow> hs = [h'] \<and> p' = p"
  by (auto simp: act_return_def act_lift_def split: list.splits)

lemma find_key_Ok:
  "find_key P s key cls p = (Ok h, p') \<longleftrightarrow>
     (\<exists>t. pk_find_objects P s cls (as_bytes (key_ref_label key)) (pool_pkcs11 p) = (Ok [h], t) \<and>
        p' = p\<lparr>pool_pkcs11 := t\<rparr>)"
  unfolding find_key_def act_bind_eq_Ok single_handle_Ok on_token_Ok by blast

lemma sign_digest_Ok:
  assumes "sign_digest P wakes key mech digest p = (Ok raw, p')"
  obtains s h t t' t'' where
    "pk_find_objects P s PRIVATE_KEY (as_bytes (key_ref_label key)) t = (Ok [h], t')"
    "pk_sign P s (to_cryptoki_mechanism mech) h digest t' = (Ok raw, t'')"
    "pool_pkcs11 p' = t''"
proof -
  from assms obtain s p1 p2 h where
    acq: "pool_acquire wakes p = (Ok s, p1)" and
    fk: "find_key P s key PRIVATE_KEY p1 = (Ok h, p2)" and
    rest: "(case on_token (pk_sign P s (to_cryptoki_mechanism mech) h digest) p2 of
              (Ok raw, p'') \<Rightarrow> (Ok raw, release s p'')
            | (Err mapped, p'') \<Rightarrow> (Err mapped, handle_operation_failure P s mapped p'')
            | (Panic, p'') \<Rightarrow> (Panic, p'')) = (Ok raw, p')"
    unfolding sign_digest_def act_bind_eq_Ok case_outcome_eq_Ok by blast
  obtain t' where f: "pk_find_objects P s PRIVATE_KEY (as_bytes (key_ref_label key)) (pool_pkcs11 p1) = (Ok [h], t')"
    and p2: "p2 = p1\<lparr>pool_pkcs11 := t'\<rparr>" using fk unfolding find_key_Ok by blast
  from rest p2 obtain t'' where "pk_sign P s (to_cryptoki_mechanism mech) h digest t' = (Ok raw, t'')"
      "pool_pkcs11 p' = t''"
    by (auto simp: on_token_def outcome_simps release_def split: prod.splits outcome.splits)
  with f that show ?thesis by blast
qed

lemma pool_acquire_pkcs11: "pool_acquire wakes p = (r, p') \<Longrightarrow> pool_pkcs11 p' = pool_pkcs11 p"
  by (auto simp: pool_acquire_def split: prod.splits)

lemma public_key_Ok:
  assumes "public_key P wakes key p = (Ok pk, p')"
  obtains s h t as der where
    "pk_find_objects P s PUBLIC_KEY (as_bytes (key_ref_label key)) (pool_pkcs11 p) = (Ok [h], t)"
    "pk_get_attributes P s h t = (Ok as, pool_pkcs11 p')" "find_ec_point as = Some der"
    "decode_ec_point der = Ok pk"
proof -
  from assms obtain s p1 p2 h where acq: "pool_acquire wakes p = (Ok s, p1)" and
    fk: "find_key P s key PUBLIC_KEY p1 = (Ok h, p2)" and
    rest: "(case on_token (pk_get_attributes P s h) p2 of
              (Ok vals, p'') \<Rightarrow>
                (and_then (ok_or (KeyNotFound (key_ref_label key)) (find_ec_point vals))
                   decode_ec_point, release s p'')
            | (Err mapped, p'') \<Rightarrow> (Err mapped, handle_operation_failure P s mapped p'')
            | (Panic, p'') \<Rightarrow> (Panic, p'')) = (Ok pk, p')"
    unfolding public_key_def act_bind_eq_Ok case_outcome_eq_Ok by blast
  obtain t where f: "pk_find_objects P s PUBLIC_KEY (as_bytes (key_ref_label key)) (pool_pkcs11 p) = (Ok [h], t)"
    and p2: "p2 = p1\<lparr>pool_pkcs11 := t\<rparr>"
    using fk pool_acquire_pkcs11 [OF acq] unfolding find_key_Ok by auto
  from rest p2 obtain as der where "pk_get_attributes P s h t = (Ok as, pool_pkcs11 p')"
      "find_ec_point as = Some der" "decode_ec_point der = Ok pk"
    by (auto simp: on_token_def release_def outcome_simps split: prod.splits outcome.splits)
  with f that show ?thesis by blast
qed

subsection \<open>Where the session goes\<close>

lemma handle_operation_failure_sessions:
  "pool_sessions (handle_operation_failure P s e p) =
     (if e \<in> {SessionLost, NotLoggedIn, TokenAbsent}
      then pool_sessions (evict_and_replenish P (drop_session P s p))
      else pool_sessions p @ [s])"
  by (simp add: handle_operation_failure_def)

lemma sign_digest_front:
  assumes "pool_sessions p = s # g"
  shows "sign_digest P wakes key mech digest p =
    (case find_key P s key PRIVATE_KEY (p\<lparr>pool_sessions := g\<rparr>) of
         (Err e, p') \<Rightarrow> (Err e, drop_session P s p')
       | (Panic, p') \<Rightarrow> (Panic, p')
       | (Ok handle, p') \<Rightarrow>
           (case on_token (pk_sign P s (to_cryptoki_mechanism mech) handle digest) p' of
              (Ok raw, p'') \<Rightarrow> (Ok raw, release s p'')
            | (Err mapped, p'') \<Rightarrow> (Err mapped, handle_operation_failure P s mapped p'')
            | (Panic, p'') \<Rightarrow> (Panic, p'')))"
  unfolding sign_digest_def by (simp add: pool_acquire_front [OF assms])

lemma sign_digest_Ok_sessions:
  assumes "pool_sessions p = s # g" and "sign_digest P wakes key mech digest p = (Ok raw, p')"
  shows "pool_sessions p' = g @ [s]"
proof -
  from assms obtain h p1 p2 where fk: "find_key P s key PRIVATE_KEY (p\<lparr>pool_sessions := g\<rparr>) = (Ok h, p1)"
    and sg: "on_token (pk_sign P s (to_cryptoki_mechanism mech) h digest) p1 = (Ok raw, p2)"
    and p': "p' = release s p2"
    unfolding sign_digest_front [OF assms(1)] case_outcome_eq_Ok
    by (auto simp: case_outcome_eq_Ok)
  from find_key_sessions [OF fk] on_token_sessions [OF sg] p' show ?thesis by simp
qed

lemma sign_digest_lost_key:
  assumes "pool_sessions p = s # g"
    and "find_key P s key PRIVATE_KEY (p\<lparr>pool_sessions := g\<rparr>) = (Err e, p1)"
  shows "sign_digest P wakes key mech digest p = (Err e, drop_session P s p1)"
    and "pool_sessions (snd (sign_digest P wakes key mech digest p)) = g"
  using find_key_sessions [OF assms(2)] by (simp_all add: sign_digest_front [OF assms(1)] assms(2))

lemma public_key_lost_key:
  assumes "pool_sessions p = s # g"
    and "find_key P s key PUBLIC_KEY (p\<lparr>pool_sessions := g\<rparr>) = (Err e, p1)"
  shows "public_key P wakes key p = (Err e, release s p1)"
    and "pool_sessions (snd (public_key P wakes key p)) = g @ [s]"
  using find_key_sessions [OF assms(2)]
  by (simp_all add: public_key_def pool_acquire_front [OF assms(1)] assms(2))

text \<open>Signatures under a key the token does not hold, one after the other, empty the pool.\<close>

definition sign_requests ::
  "'t pkcs11 \<Rightarrow> key_ref \<Rightarrow> (wakes \<times> signing_mechanism \<times> bytes) list \<Rightarrow> 't session_pool \<Rightarrow> 't session_pool" where
  "sign_requests P key = fold (\<lambda>(wakes, mech, digest) p. snd (sign_digest P wakes key mech digest p))"

lemma acquire_exhausted: "list_all (\<lambda>w. fst w = []) wakes \<Longrightarrow> acquire wakes [] = (Err PoolExhausted, [])"
  by (induction wakes) auto

lemma sign_digest_exhausted:
  "pool_sessions p = [] \<Longrightarrow> list_all (\<lambda>w. fst w = []) wakes \<Longrightarrow>
     fst (sign_digest P wakes key mech digest p) = Err PoolExhausted"
  by (simp add: sign_digest_def act_bind_def pool_acquire_def acquire_exhausted)

lemma sign_requests_drain:
  assumes absent: "\<And>s q. \<exists>e. fst (find_key P s key PRIVATE_KEY q) = Err e"
    and "length reqs \<le> length (pool_sessions p)"
  shows "pool_sessions (sign_requests P key reqs p) = drop (length reqs) (pool_sessions p)"
  using assms(2)
proof (induction reqs arbitrary: p)
  case (Cons req reqs)
  then obtain s g where front: "pool_sessions p = s # g" by (cases "pool_sessions p") auto
  obtain wakes mech digest where req: "req = (wakes, mech, digest)" by (cases req)
  obtain e p1 where "find_key P s key PRIVATE_KEY (p\<lparr>pool_sessions := g\<rparr>) = (Err e, p1)"
    using absent by (metis prod.collapse)
  from sign_digest_lost_key(2) [OF front this, of wakes mech digest] Cons front req
  show ?case by (simp add: sign_requests_def)
qed (simp add: sign_requests_def)

subsection \<open>Threads sharing the pool\<close>

text \<open>
  One thread of a sealer is between two calls, holds a session it has popped, or has dropped a
  lost session and is about to open another. Every critical section of the mutex is one step.
\<close>

datatype phase = Idle | Holding hsm_session | Evicting

record pool_view =
  view_queue :: "hsm_session list"
  view_threads :: "nat \<Rightarrow> phase"

definition view_held :: "pool_view \<Rightarrow> hsm_session set" where
  "view_held v = {s. \<exists>i. view_threads v i = Holding s}"

inductive pool_step :: "pool_view \<Rightarrow> pool_view \<Rightarrow> bool" where
  step_acquire: "view_threads v i = Idle \<Longrightarrow> view_queue v = s # g \<Longrightarrow>
    pool_step v (v\<lparr>view_queue := g, view_threads := (view_threads v)(i := Holding s)\<rparr>)"
| step_release: "view_threads v i = Holding s \<Longrightarrow>
    pool_step v (v\<lparr>view_queue := view_queue v @ [s], view_threads := (view_threads v)(i := Idle)\<rparr>)"
| step_drop: "view_threads v i = Holding s \<Longrightarrow>
    pool_step v (v\<lparr>view_threads := (view_threads v)(i := Idle)\<rparr>)"
| step_evict: "view_threads v i = Holding s \<Longrightarrow>
    pool_step v (v\<lparr>view_threads := (view_threads v)(i := Evicting)\<rparr>)"
| step_replenish: "view_threads v i = Evicting \<Longrightarrow> s \<notin> set (view_queue v) \<union> view_held v \<Longrightarrow>
    pool_step v (v\<lparr>view_queue := view_queue v @ [s], view_threads := (view_threads v)(i := Idle)\<rparr>)"
| step_give_up: "view_threads v i = Evicting \<Longrightarrow>
    pool_step v (v\<lparr>view_threads := (view_threads v)(i := Idle)\<rparr>)"

definition busy :: "(nat \<Rightarrow> phase) \<Rightarrow> nat set" where
  "busy f = {i. f i \<noteq> Idle}"

definition pool_inv :: "nat \<Rightarrow> pool_view \<Rightarrow> bool" where
  "pool_inv n v \<longleftrightarrow>
     distinct (view_queue v) \<and>
     (\<forall>i s. view_threads v i = Holding s \<longrightarrow> s \<notin> set (view_queue v)) \<and>
     (\<forall>i j s. view_threads v i = Holding s \<longrightarrow> view_threads v j = Holding s \<longrightarrow> i = j) \<and>
     finite (busy (view_threads v)) \<and>
     length (view_queue v) + card (busy (view_threads v)) \<le> n"

lemma busy_idle: "busy (f(k := Idle)) = busy f - {k}"
  by (auto simp: busy_def)

lemma busy_update: "x \<noteq> Idle \<Longrightarrow> busy (f(k := x)) = insert k (busy f)"
  by (auto simp: busy_def)

lemma card_busy_idle:
  "finite (busy f) \<Longrightarrow> f k \<noteq> Idle \<Longrightarrow> Suc (card (busy f - {k})) = card (busy f)"
  by (intro card_Suc_Diff1) (auto simp: busy_def)

lemma pool_inv_step:
  assumes "pool_step v w" and "pool_inv n v"
  shows "pool_inv n w"
  using assms
proof (induction rule: pool_step.induct)
  case (step_acquire v i s g)
  then have "i \<notin> busy (view_threads v)" by (simp add: busy_def)
  with step_acquire show ?case by (auto simp: pool_inv_def busy_update)
next
  case (step_release v i s)
  then show ?case using card_busy_idle [of "view_threads v" i]
    by (auto simp: pool_inv_def busy_idle)
next
  case (step_drop v i s)
  then show ?case using card_busy_idle [of "view_threads v" i]
    by (auto simp: pool_inv_def busy_idle)
next
  case (step_evict v i s)
  then have "insert i (busy (view_threads v)) = busy (view_threads v)"
    by (auto simp: busy_def)
  with step_evict show ?case by (auto simp: pool_inv_def busy_update)
next
  case (step_replenish v i s)
  then show ?case using card_busy_idle [of "view_threads v" i]
    by (auto simp: pool_inv_def busy_idle view_held_def)
next
  case (step_give_up v i)
  then show ?case using card_busy_idle [of "view_threads v" i]
    by (auto simp: pool_inv_def busy_idle)
qed

definition pool_start :: "hsm_session list \<Rightarrow> pool_view" where
  "pool_start sessions = \<lparr>view_queue = sessions, view_threads = (\<lambda>_. Idle)\<rparr>"

lemma pool_inv_start: "distinct ss \<Longrightarrow> pool_inv (length ss) (pool_start ss)"
  by (simp add: pool_inv_def pool_start_def busy_def)

lemma pool_inv_reachable:
  "pool_step\<^sup>*\<^sup>* (pool_start ss) v \<Longrightarrow> distinct ss \<Longrightarrow> pool_inv (length ss) v"
  by (induction rule: rtranclp_induct) (auto intro: pool_inv_step pool_inv_start)

text \<open>
  A call of \<open>sign_digest\<close> that finds a session is a run of these steps by its thread, as long as
  the driver returns fresh session handles.
\<close>

definition view_of :: "'t session_pool \<Rightarrow> (nat \<Rightarrow> phase) \<Rightarrow> pool_view" where
  "view_of p th = \<lparr>view_queue = pool_sessions p, view_threads = th\<rparr>"

lemma view_acquire:
  "pool_sessions p = s # g \<Longrightarrow> th i = Idle \<Longrightarrow> pool_sessions q = g \<Longrightarrow>
     pool_step (view_of p th) (view_of q (th(i := Holding s)))"
  using step_acquire [of "view_of p th" i s g] by (simp add: view_of_def)

lemma view_release:
  "th i = Idle \<Longrightarrow> pool_sessions q = g @ [s] \<Longrightarrow> pool_sessions p = g \<Longrightarrow>
     pool_step (view_of p (th(i := Holding s))) (view_of q th)"
  using step_release [of "view_of p (th(i := Holding s))" i s]
  by (simp add: view_of_def fun_upd_idem)

lemma view_drop:
  "th i = Idle \<Longrightarrow> pool_sessions q = pool_sessions p \<Longrightarrow>
     pool_step (view_of p (th(i := Holding s))) (view_of q th)"
  using step_drop [of "view_of p (th(i := Holding s))" i s]
  by (simp add: view_of_def fun_upd_idem)

lemma view_evict:
  "th i = Idle \<Longrightarrow> pool_sessions q = pool_sessions p \<Longrightarrow>
     pool_step (view_of p (th(i := Holding s))) (view_of q (th(i := Evicting)))"
  using step_evict [of "view_of p (th(i := Holding s))" i s] by (simp add: view_of_def)

lemma view_replenish:
  assumes idle: "th i = Idle" and fresh: "\<And>s t'. pk_open_rw_session P (pool_slot p) (pool_pkcs11 p) = (Ok s, t') \<Longrightarrow>
      s \<notin> set (pool_sessions p) \<union> {s. \<exists>j. th j = Holding s}"
  shows "pool_step (view_of p (th(i := Evicting))) (view_of (evict_and_replenish P p) th)"
  using evict_and_replenish_sessions [of P p]
proof (elim disjE exE conjE)
  assume "pool_sessions (evict_and_replenish P p) = pool_sessions p"
  then show ?thesis
    using step_give_up [of "view_of p (th(i := Evicting))" i] idle
    by (simp add: view_of_def fun_upd_idem)
next
  fix s assume q: "pool_sessions (evict_and_replenish P p) = pool_sessions p @ [s]"
    and "fst (pk_open_rw_session P (pool_slot p) (pool_pkcs11 p)) = Ok s"
  then have "s \<notin> set (pool_sessions p) \<union> {s. \<exists>j. th j = Holding s}"
    using fresh [of s "snd (pk_open_rw_session P (pool_slot p) (pool_pkcs11 p))"]
    by (metis prod.collapse)
  then have "s \<notin> set (pool_sessions p) \<union> view_held (view_of p (th(i := Evicting)))"
    by (auto simp: view_held_def view_of_def split: if_splits)
  then show ?thesis
    using step_replenish [of "view_of p (th(i := Evicting))" i s] idle q
    by (simp add: view_of_def fun_upd_idem)
qed

lemma on_token_slot: "on_token m p = (r, p') \<Longrightarrow> pool_slot p' = pool_slot p"
  by (auto simp: on_token_def split: prod.splits)

lemma find_key_slot: "find_key P s key cls p = (r, p') \<Longrightarrow> pool_slot p' = pool_slot p"
  unfolding find_key_def act_bind_def
  by (auto simp: on_token_def act_return_def act_lift_def split: prod.splits outcome.splits list.splits)

lemma handle_operation_failure_steps:
  assumes idle: "th i = Idle"
    and fresh: "\<And>t s' t'. pk_open_rw_session P (pool_slot p) t = (Ok s', t') \<Longrightarrow>
      s' \<notin> set (pool_sessions p) \<union> {s. \<exists>j. th j = Holding s}"
  shows "pool_step\<^sup>*\<^sup>* (view_of p (th(i := Holding s))) (view_of (handle_operation_failure P s e p) th)"
proof (cases "e \<in> {SessionLost, NotLoggedIn, TokenAbsent}")
  case True
  let ?d = "drop_session P s p"
  have "pool_step (view_of p (th(i := Holding s))) (view_of ?d (th(i := Evicting)))"
    using idle by (intro view_evict) simp_all
  moreover have "pool_step (view_of ?d (th(i := Evicting))) (view_of (evict_and_replenish P ?d) th)"
    using fresh by (intro view_replenish idle) (simp add: drop_session_def)
  ultimately show ?thesis using True by (simp add: handle_operation_failure_def)
next
  case False
  then have "pool_step (view_of p (th(i := Holding s))) (view_of (handle_operation_failure P s e p) th)"
    using idle by (intro view_release [where g = "pool_sessions p"]) (simp_all add: handle_operation_failure_def)
  then show ?thesis by simp
qed

lemma sign_digest_steps:
  assumes q: "pool_sessions p = s # g" and idle: "th i = Idle"
    and run: "sign_digest P wakes key mech digest p = (r, p')" and r: "r \<noteq> Panic"
    and fresh: "\<And>t s' t'. pk_open_rw_session P (pool_slot p) t = (Ok s', t') \<Longrightarrow>
      s' \<notin> set (pool_sessions p) \<union> {s. \<exists>j. th j = Holding s}"
  shows "pool_step\<^sup>*\<^sup>* (view_of p th) (view_of p' th)"
proof -
  let ?p = "p\<lparr>pool_sessions := g\<rparr>"
  obtain rf p1 where fk: "find_key P s key PRIVATE_KEY ?p = (rf, p1)" by fastforce
  have p1: "pool_sessions p1 = g" "pool_slot p1 = pool_slot p"
    using find_key_sessions [OF fk] find_key_slot [OF fk] by simp_all
  have acq: "pool_step (view_of p th) (view_of p1 (th(i := Holding s)))"
    using q idle p1 by (intro view_acquire) auto
  have "pool_step\<^sup>*\<^sup>* (view_of p1 (th(i := Holding s))) (view_of p' th)"
  proof (cases rf)
    case (Err e)
    then have "p' = drop_session P s p1"
      using run fk by (simp add: sign_digest_front [OF q])
    then show ?thesis using idle by (simp add: view_drop r_into_rtranclp)
  next
    case (Ok h)
    obtain rs p2 where sg: "on_token (pk_sign P s (to_cryptoki_mechanism mech) h digest) p1 = (rs, p2)"
      by fastforce
    have p2: "pool_sessions p2 = g" "pool_slot p2 = pool_slot p"
      using on_token_sessions [OF sg] on_token_slot [OF sg] p1 by simp_all
    then have eq: "view_of p1 = view_of p2" using p1 by (simp add: fun_eq_iff view_of_def)
    show ?thesis
    proof (cases rs)
      case (Ok raw)
      then have "p' = release s p2" using run fk sg \<open>rf = Ok h\<close> by (simp add: sign_digest_front [OF q])
      then show ?thesis unfolding eq using idle p2
        by (simp add: r_into_rtranclp view_release [where g = g])
    next
      case (Err e)
      then have "p' = handle_operation_failure P s e p2"
        using run fk sg \<open>rf = Ok h\<close> by (simp add: sign_digest_front [OF q])
      moreover have "s' \<notin> set (pool_sessions p2) \<union> {s. \<exists>j. th j = Holding s}"
        if "pk_open_rw_session P (pool_slot p2) t = (Ok s', t')" for t s' t'
        using fresh [of t s' t'] that p2 q by simp
      ultimately show ?thesis unfolding eq
        using handle_operation_failure_steps [where P = P and p = p2 and th = th] idle by simp
    qed (use run fk sg \<open>rf = Ok h\<close> r in \<open>simp add: sign_digest_front [OF q]\<close>)
  qed (use run fk r in \<open>simp add: sign_digest_front [OF q]\<close>)
  with acq show ?thesis by (rule converse_rtranclp_into_rtranclp)
qed

subsection \<open>Decoding \<open>CKA_EC_POINT\<close>\<close>

text \<open>The specification: an octet string in DER, in the short or in the minimal long form.\<close>

fun be_bytes :: "nat \<Rightarrow> bytes" where
  "be_bytes n = (if n < 256 then [word_of_nat n] else be_bytes (n div 256) @ [word_of_nat (n mod 256)])"

declare be_bytes.simps [simp del]

definition der_octet_string :: "bytes \<Rightarrow> bytes" where
  "der_octet_string c =
     (if length c < 128 then [0x04, word_of_nat (length c)] @ c
      else [0x04, 0x80 OR word_of_nat (length (be_bytes (length c)))] @ be_bytes (length c) @ c)"

lemma be_length_snoc: "be_length (bs @ [b]) = be_length bs * 256 + unat b"
  by (simp add: be_length_def)

lemma be_length_be_bytes [simp]: "be_length (be_bytes n) = n"
proof (induction n rule: be_bytes.induct)
  case (1 n)
  show ?case
  proof (cases "n < 256")
    case True
    then show ?thesis
      by (simp add: be_bytes.simps [of n] be_length_def unat_word_of_nat_eq)
  next
    case False
    with 1 show ?thesis
      by (simp add: be_bytes.simps [of n] be_length_snoc unat_word_of_nat_eq)
  qed
qed

lemma be_bytes_length: "n < 256 ^ Suc k \<Longrightarrow> length (be_bytes n) \<le> Suc k"
proof (induction k arbitrary: n)
  case 0
  then show ?case by (simp add: be_bytes.simps [of n])
next
  case (Suc k)
  then have "n div 256 < 256 ^ Suc k" by (simp add: less_mult_imp_div_less)
  with Suc.IH [of "n div 256"] show ?case by (simp add: be_bytes.simps [of n])
qed

lemma be_bytes_length_pos: "0 < length (be_bytes n)"
  by (simp add: be_bytes.simps [of n])

lemma get_range_append [simp]: "get_range (a @ c @ r) (length a) (length a + length c) = Some c"
  by (simp add: get_range_def)

lemma decode_ec_point_short:
  assumes "length c < 128"
  shows "decode_ec_point ([0x04, word_of_nat (length c)] @ c @ r) = Ok c"
proof -
  have u: "unat (word_of_nat (length c) :: u8) = length c"
    using assms by (intro unat_word_of_nat_eq) simp
  have "\<not> bit (word_of_nat (length c) :: u8) 7"
    using assms by (simp add: bit_of_nat_iff bit_nat_iff bit_iff_odd [of "length c"])
  then have "(word_of_nat (length c) :: u8) AND 2 ^ 7 = 0"
    by (intro bit_word_eqI) (auto simp: bit_and_iff bit_exp_iff simp del: power_numeral)
  then have "(word_of_nat (length c) :: u8) AND 0x80 = 0" by simp
  moreover have "get_range ([0x04, word_of_nat (length c)] @ c @ r) 2 (2 + length c) = Some c"
    using get_range_append [of "[0x04, word_of_nat (length c)]" c r] by (simp add: numeral_2_eq_2)
  ultimately show ?thesis using u by (simp add: decode_ec_point_def)
qed

lemma decode_ec_point_long:
  assumes len: "128 \<le> length c" "length c < 2 ^ 32"
  shows "decode_ec_point ([0x04, 0x80 OR word_of_nat (length (be_bytes (length c)))] @ be_bytes (length c) @ c @ r)
    = Ok c"
proof -
  let ?k = "length (be_bytes (length c))" and ?b = "be_bytes (length c)"
  let ?h = "0x80 OR word_of_nat ?k :: u8"
  have k: "0 < ?k" "?k \<le> 4"
    using len be_bytes_length_pos be_bytes_length [of "length c" 3] by simp_all
  then consider "?k = 1" | "?k = 2" | "?k = 3" | "?k = 4" by linarith
  then have h: "?h AND 0x80 \<noteq> 0 \<and> unat (?h AND 0x7F) = ?k" by cases simp_all
  have "get_range ([0x04, ?h] @ ?b @ c @ r) (2 + ?k) (2 + ?k + length c) = Some c"
    using get_range_append [of "[0x04, ?h] @ ?b" c r] by (simp add: numeral_2_eq_2)
  then show ?thesis using k h by (simp add: decode_ec_point_def Let_def)
qed

lemma decode_ec_point_der:
  "length c < 2 ^ 32 \<Longrightarrow> decode_ec_point (der_octet_string c @ r) = Ok c"
  using decode_ec_point_short [of c r] decode_ec_point_long [of c r]
  by (simp add: der_octet_string_def)

lemma decode_ec_point_not_Panic: "decode_ec_point der \<noteq> Panic"
  by (simp add: decode_ec_point_def Let_def outcome_simps)

end
