(* ===== verification/Json_Text.thy ===== *)
theory Json_Text
  imports Json
begin

section \<open>A reference JSON writer and reader\<close>

text \<open>
  A compact writer and a recursive-descent reader for the values of \<open>json\<close>, with the proof that
  the reader inverts the writer. They discharge the laws of the locale \<open>serde_json\<close>, so that
  the hypotheses the suites make about the JSON library are known to be satisfiable by a real
  codec, and they instantiate the library in the witnesses of the properties.
\<close>

subsection \<open>Writer\<close>

fun dec_digits :: "nat \<Rightarrow> bytes" where
  "dec_digits n =
     (if n < 10 then [word_of_nat (0x30 + n)]
      else dec_digits (n div 10) @ [word_of_nat (0x30 + n mod 10)])"

declare dec_digits.simps [simp del]

definition hex_nibble :: "nat \<Rightarrow> u8" where
  "hex_nibble n = (if n < 10 then word_of_nat (0x30 + n) else word_of_nat (0x57 + n))"

definition escape_char :: "char \<Rightarrow> bytes" where
  "escape_char c =
     (if c = CHR 0x22 \<or> c = CHR 0x5C then [0x5C, u8_of_char c]
      else if char_code c < 0x20
        then [0x5C, 0x75, 0x30, 0x30, hex_nibble (char_code c div 16), hex_nibble (char_code c mod 16)]
      else [u8_of_char c])"

fun json_write :: "json \<Rightarrow> bytes" where
  "json_write JNull = as_bytes ''null''"
| "json_write (JBool b) = as_bytes (if b then ''true'' else ''false'')"
| "json_write (JNumber (PosInt n)) = dec_digits (unat n)"
| "json_write (JNumber (NegInt i)) = 0x2D # dec_digits (nat (- i))"
| "json_write (JNumber (Float f)) = as_bytes ''null''"
| "json_write (JString s) = [0x22] @ concat (map escape_char s) @ [0x22]"
| "json_write (JArray vs) = [0x5B] @ comma_sep (map json_write vs) @ [0x5D]"
| "json_write (JObject kvs) =
     [0x7B] @ comma_sep (map (\<lambda>kv. json_write (JString (fst kv)) @ [0x3A] @ json_write (snd kv)) kvs)
       @ [0x7D]"

subsection \<open>Reader\<close>

definition is_digit_byte :: "u8 \<Rightarrow> bool" where
  "is_digit_byte b \<longleftrightarrow> 0x30 \<le> b \<and> b \<le> 0x39"

fun read_digits :: "nat \<Rightarrow> bytes \<Rightarrow> nat \<times> bytes" where
  "read_digits acc [] = (acc, [])"
| "read_digits acc (b # bs) =
     (if is_digit_byte b then read_digits (acc * 10 + (unat b - 0x30)) bs else (acc, b # bs))"

definition nibble_value :: "u8 \<Rightarrow> nat" where
  "nibble_value b = (if b \<le> 0x39 then unat b - 0x30 else unat b - 0x57)"

fun read_string :: "bytes \<Rightarrow> (string \<times> bytes) option" where
  "read_string [] = None"
| "read_string (b # bs) =
     (if b = 0x22 then Some ([], bs)
      else if b = 0x5C then
        (case bs of
           c # h3 # h2 # h1 # h0 # cs \<Rightarrow>
             if c = 0x75
             then map_option (\<lambda>(s, r). (char_of_u8 (word_of_nat (nibble_value h1 * 16 + nibble_value h0)) # s, r))
                    (read_string cs)
             else map_option (\<lambda>(s, r). (char_of_u8 c # s, r)) (read_string (h3 # h2 # h1 # h0 # cs))
         | c # cs \<Rightarrow> map_option (\<lambda>(s, r). (char_of_u8 c # s, r)) (read_string cs)
         | [] \<Rightarrow> None)
      else map_option (\<lambda>(s, r). (char_of_u8 b # s, r)) (read_string bs))"

definition read_keyword :: "string \<Rightarrow> json \<Rightarrow> bytes \<Rightarrow> (json \<times> bytes) option" where
  "read_keyword k v bs =
     (if take (length k) bs = as_bytes k then Some (v, drop (length k) bs) else None)"

fun read_value :: "nat \<Rightarrow> bytes \<Rightarrow> (json \<times> bytes) option"
and read_items :: "nat \<Rightarrow> bytes \<Rightarrow> (json list \<times> bytes) option"
and read_members :: "nat \<Rightarrow> bytes \<Rightarrow> ((string \<times> json) list \<times> bytes) option" where
  "read_value 0 bs = None"
| "read_value (Suc n) [] = None"
| "read_value (Suc n) (b # bs) =
     (if b = 0x6E then read_keyword ''null'' JNull (b # bs)
      else if b = 0x74 then read_keyword ''true'' (JBool True) (b # bs)
      else if b = 0x66 then read_keyword ''false'' (JBool False) (b # bs)
      else if b = 0x22 then map_option (\<lambda>(s, r). (JString s, r)) (read_string bs)
      else if b = 0x5B then
        (if take 1 bs = [0x5D] then Some (JArray [], drop 1 bs)
         else map_option (\<lambda>(vs, r). (JArray vs, r)) (read_items n bs))
      else if b = 0x7B then
        (if take 1 bs = [0x7D] then Some (JObject [], drop 1 bs)
         else map_option (\<lambda>(kvs, r). (JObject kvs, r)) (read_members n bs))
      else if b = 0x2D then
        (case read_digits 0 bs of (m, r) \<Rightarrow> Some (JNumber (NegInt (- int m)), r))
      else if is_digit_byte b then
        (case read_digits 0 (b # bs) of (m, r) \<Rightarrow> Some (JNumber (PosInt (word_of_nat m)), r))
      else None)"
| "read_items 0 bs = None"
| "read_items (Suc n) bs =
     (case read_value n bs of
        None \<Rightarrow> None
      | Some (v, r) \<Rightarrow>
          if take 1 r = [0x2C] then map_option (\<lambda>(vs, q). (v # vs, q)) (read_items n (drop 1 r))
          else if take 1 r = [0x5D] then Some ([v], drop 1 r)
          else None)"
| "read_members 0 bs = None"
| "read_members (Suc n) bs =
     (if take 1 bs \<noteq> [0x22] then None
      else case read_string (drop 1 bs) of
        None \<Rightarrow> None
      | Some (k, p) \<Rightarrow>
          if take 1 p \<noteq> [0x3A] then None
          else case read_value n (drop 1 p) of
            None \<Rightarrow> None
          | Some (v, r) \<Rightarrow>
              if take 1 r = [0x2C]
              then map_option (\<lambda>(kvs, q). ((k, v) # kvs, q)) (read_members n (drop 1 r))
              else if take 1 r = [0x7D] then Some ([(k, v)], drop 1 r)
              else None)"

definition json_read :: "bytes \<Rightarrow> json option" where
  "json_read bs =
     (case read_value (Suc (length bs)) bs of
        Some (v, r) \<Rightarrow> if r = [] then Some v else None
      | None \<Rightarrow> None)"

subsection \<open>The reader inverts the writer\<close>

lemma digit_byte: "d < 10 \<Longrightarrow> is_digit_byte (word_of_nat (0x30 + d)) \<and> unat (word_of_nat (0x30 + d) :: u8) = 0x30 + d"
proof -
  assume d: "d < 10"
  then have "unat (word_of_nat (0x30 + d) :: u8) = 0x30 + d"
    by (intro unat_word_of_nat_eq) simp
  with d show ?thesis by (simp add: is_digit_byte_def word_le_nat_alt)
qed

definition delimited :: "bytes \<Rightarrow> bool" where
  "delimited r \<longleftrightarrow> r = [] \<or> \<not> is_digit_byte (hd r)"

lemma read_digits_dec:
  "read_digits acc (dec_digits n @ r) = read_digits (acc * 10 ^ length (dec_digits n) + n) r"
proof (induction n arbitrary: acc r rule: dec_digits.induct)
  case (1 n)
  show ?case
  proof (cases "n < 10")
    case True
    then show ?thesis using digit_byte [of n] by (simp add: dec_digits.simps [of n])
  next
    case False
    have "read_digits acc (dec_digits n @ r) =
        read_digits (acc * 10 ^ length (dec_digits (n div 10)) + n div 10)
          (word_of_nat (0x30 + n mod 10) # r)"
      using False "1.IH" by (simp add: dec_digits.simps [of n])
    also have "\<dots> = read_digits ((acc * 10 ^ length (dec_digits (n div 10)) + n div 10) * 10 + n mod 10) r"
      using digit_byte [of "n mod 10"] by simp
    finally show ?thesis
      using False by (simp add: dec_digits.simps [of n] algebra_simps)
  qed
qed

lemma read_digits_delimited: "delimited r \<Longrightarrow> read_digits acc r = (acc, r)"
  by (cases r) (auto simp: delimited_def)

lemma dec_digits_first: "\<exists>b bs. dec_digits n = b # bs \<and> is_digit_byte b"
proof (induction n rule: dec_digits.induct)
  case (1 n)
  show ?case
  proof (cases "n < 10")
    case True
    then show ?thesis using digit_byte [of n] by (simp add: dec_digits.simps [of n])
  next
    case False
    with "1.IH" show ?thesis by (auto simp: dec_digits.simps [of n])
  qed
qed

lemma u8_of_char_eq_iff: "u8_of_char c = u8_of_char d \<longleftrightarrow> c = d"
  using inj_u8_of_char by (simp add: inj_eq)

lemma u8_quote: "u8_of_char c = 0x22 \<longleftrightarrow> c = CHR 0x22"
  using u8_of_char_eq_iff [of c "CHR 0x22"] by (simp add: u8_of_char_def)

lemma u8_backslash: "u8_of_char c = 0x5C \<longleftrightarrow> c = CHR 0x5C"
  using u8_of_char_eq_iff [of c "CHR 0x5C"] by (simp add: u8_of_char_def)

lemma read_string_escaped:
  "c \<noteq> 0x75 \<Longrightarrow> read_string (0x5C # c # bs) = map_option (\<lambda>(s, r). (char_of_u8 c # s, r)) (read_string bs)"
  by (cases bs rule: read_string.cases) (auto split: list.split)

lemma nibble_value_hex: "n < 16 \<Longrightarrow> nibble_value (hex_nibble n) = n"
proof -
  assume n: "n < 16"
  have "unat (word_of_nat (0x30 + n) :: u8) = 0x30 + n" "unat (word_of_nat (0x57 + n) :: u8) = 0x57 + n"
    by (rule unat_word_of_nat_eq, use n in simp)+
  with n show ?thesis by (auto simp: nibble_value_def hex_nibble_def word_le_nat_alt)
qed

lemma read_string_write:
  "read_string (concat (map escape_char s) @ 0x22 # r) = Some (s, r)"
proof (induction s)
  case (Cons c s)
  have "word_of_nat (char_code c div 16 * 16 + char_code c mod 16) = u8_of_char c"
    by (simp only: u8_of_char_def div_mult_mod_eq)
  then have code: "word_of_nat (char_code c div 16) * 16 + word_of_nat (char_code c mod 16) = u8_of_char c"
    by (simp only: of_nat_add of_nat_mult of_nat_numeral)
  consider (esc) "c = CHR 0x22 \<or> c = CHR 0x5C"
    | (ctl) "char_code c < 0x20" "c \<noteq> CHR 0x22" "c \<noteq> CHR 0x5C"
    | (raw) "\<not> char_code c < 0x20" "c \<noteq> CHR 0x22" "c \<noteq> CHR 0x5C" by blast
  then show ?case
  proof cases
    case esc
    then have "u8_of_char c \<noteq> 0x75" by (auto simp: u8_of_char_def)
    with esc Cons show ?thesis
      by (simp add: escape_char_def read_string_escaped del: read_string.simps)
  next
    case ctl
    then have "char_code c div 16 < 16" "char_code c mod 16 < 16" by auto
    with ctl Cons code show ?thesis
      by (simp add: escape_char_def nibble_value_hex)
  next
    case raw
    with Cons show ?thesis by (simp add: escape_char_def u8_quote u8_backslash)
  qed
qed simp

fun json_cost :: "json \<Rightarrow> nat" where
  "json_cost (JArray vs) = 1 + sum_list (map (\<lambda>v. 1 + json_cost v) vs)"
| "json_cost (JObject kvs) = 1 + sum_list (map (\<lambda>kv. 1 + json_cost (snd kv)) kvs)"
| "json_cost (JNumber k) = 1"
| "json_cost (JString s) = 1"
| "json_cost JNull = 1"
| "json_cost (JBool b) = 1"

lemma read_items_write:
  assumes "\<And>v n r. v \<in> set vs \<Longrightarrow> json_cost v \<le> n \<Longrightarrow> delimited r \<Longrightarrow>
      read_value n (json_write v @ r) = Some (v, r)"
    and "vs \<noteq> []" and "sum_list (map (\<lambda>v. 1 + json_cost v) vs) \<le> n"
  shows "read_items n (comma_sep (map json_write vs) @ 0x5D # r) = Some (vs, r)"
  using assms
proof (induction vs arbitrary: n)
  case (Cons v vs)
  from Cons.prems(3) obtain m where n: "n = Suc m" by (cases n) auto
  show ?case
  proof (cases vs)
    case Nil
    have "read_value m (json_write v @ 0x5D # r) = Some (v, 0x5D # r)"
      using Cons.prems(3) n by (intro Cons.prems(1)) (auto simp: delimited_def is_digit_byte_def)
    with Nil n show ?thesis by simp
  next
    case (Cons w ws)
    let ?rest = "comma_sep (map json_write vs) @ 0x5D # r"
    have "read_value m (json_write v @ 0x2C # ?rest) = Some (v, 0x2C # ?rest)"
      using Cons.prems(3) n by (intro Cons.prems(1)) (auto simp: delimited_def is_digit_byte_def)
    moreover have "read_items m ?rest = Some (vs, r)"
      using Cons.prems n Cons by (intro Cons.IH) auto
    ultimately show ?thesis using n Cons by simp
  qed
qed simp

lemma read_members_write:
  assumes "\<And>kv n r. kv \<in> set kvs \<Longrightarrow> json_cost (snd kv) \<le> n \<Longrightarrow> delimited r \<Longrightarrow>
      read_value n (json_write (snd kv) @ r) = Some (snd kv, r)"
    and "kvs \<noteq> []" and "sum_list (map (\<lambda>kv. 1 + json_cost (snd kv)) kvs) \<le> n"
  shows "read_members n
     (comma_sep (map (\<lambda>kv. json_write (JString (fst kv)) @ [0x3A] @ json_write (snd kv)) kvs) @ 0x7D # r)
       = Some (kvs, r)"
  using assms
proof (induction kvs arbitrary: n)
  case (Cons kv kvs)
  let ?w = "\<lambda>kv. json_write (JString (fst kv)) @ [0x3A] @ json_write (snd kv)"
  from Cons.prems(3) obtain m where n: "n = Suc m" by (cases n) auto
  obtain k v where kv: "kv = (k, v)" by (cases kv)
  show ?case
  proof (cases kvs)
    case Nil
    have "read_value m (json_write v @ 0x7D # r) = Some (v, 0x7D # r)"
      using Cons.prems(3) n kv Cons.prems(1) [of kv m "0x7D # r"]
      by (auto simp: delimited_def is_digit_byte_def)
    with Nil n kv show ?thesis by (simp add: read_string_write)
  next
    case (Cons kw kws)
    let ?rest = "comma_sep (map ?w kvs) @ 0x7D # r"
    have "read_value m (json_write v @ 0x2C # ?rest) = Some (v, 0x2C # ?rest)"
      using Cons.prems(3) n kv Cons.prems(1) [of kv m "0x2C # ?rest"]
      by (auto simp: delimited_def is_digit_byte_def)
    moreover have "read_members m ?rest = Some (kvs, r)"
      using Cons.prems n Cons by (intro Cons.IH) auto
    ultimately show ?thesis using n kv Cons by (simp add: read_string_write)
  qed
qed simp

lemma json_write_first:
  "\<exists>b bs. json_write v = b # bs \<and> b \<noteq> 0x5D"
proof (cases v)
  case (JNumber n)
  then show ?thesis
    using dec_digits_first by (cases n) (fastforce simp: is_digit_byte_def u8_of_char_def)+
qed (auto simp: u8_of_char_def)

lemma comma_sep_first:
  "xs \<noteq> [] \<Longrightarrow> hd xs \<noteq> [] \<Longrightarrow> \<exists>bs. comma_sep xs = hd (hd xs) # bs"
  by (cases xs rule: comma_sep.cases) (auto simp: neq_Nil_conv)

lemma read_value_number_write:
  assumes "json_wf (JNumber k)" and "delimited r"
  shows "read_value (Suc n) (json_write (JNumber k) @ r) = Some (JNumber k, r)"
proof (cases k)
  case (PosInt m)
  obtain b bs where b: "dec_digits (unat m) = b # bs" "is_digit_byte b"
    using dec_digits_first by blast
  have "read_digits 0 (dec_digits (unat m) @ r) = (unat m, r)"
    using assms(2) by (simp add: read_digits_dec read_digits_delimited)
  moreover have "b \<noteq> 0x6E" "b \<noteq> 0x74" "b \<noteq> 0x66" "b \<noteq> 0x22" "b \<noteq> 0x5B" "b \<noteq> 0x7B" "b \<noteq> 0x2D"
    using b(2) by (auto simp: is_digit_byte_def)
  ultimately show ?thesis using PosInt b by simp
next
  case (NegInt i)
  have "read_digits 0 (dec_digits (nat (- i)) @ r) = (nat (- i), r)"
    using assms(2) by (simp add: read_digits_dec read_digits_delimited)
  with NegInt assms(1) show ?thesis by simp
next
  case (Float f)
  with assms(1) show ?thesis by simp
qed

lemma read_value_write:
  "json_wf v \<Longrightarrow> json_cost v \<le> n \<Longrightarrow> delimited r \<Longrightarrow> read_value n (json_write v @ r) = Some (v, r)"
proof (induction v arbitrary: n r rule: json_cost.induct)
  case (1 vs)
  then obtain m where n: "n = Suc m" by (cases n) auto
  show ?case
  proof (cases "vs = []")
    case False
    have "read_items m (comma_sep (map json_write vs) @ 0x5D # r) = Some (vs, r)"
      using 1 n False by (intro read_items_write) (auto simp: list_all_iff)
    moreover have "take 1 (comma_sep (map json_write vs) @ 0x5D # r) \<noteq> [0x5D]"
      using False json_write_first [of "hd vs"] comma_sep_first [of "map json_write vs"]
      by (auto simp: list.map_sel)
    ultimately show ?thesis using n by simp
  qed (simp add: n)
next
  case (2 kvs)
  let ?w = "\<lambda>kv. json_write (JString (fst kv)) @ [0x3A] @ json_write (snd kv)"
  from 2 obtain m where n: "n = Suc m" by (cases n) auto
  show ?case
  proof (cases "kvs = []")
    case False
    have "read_members m (comma_sep (map ?w kvs) @ 0x7D # r) = Some (kvs, r)"
      using 2 n False by (intro read_members_write) (auto simp: list_all_iff)
    moreover have "take 1 (comma_sep (map ?w kvs) @ 0x7D # r) \<noteq> [0x7D]"
      using False comma_sep_first [of "map ?w kvs"] by (auto simp: list.map_sel)
    ultimately show ?thesis using n by simp
  qed (simp add: n)
next
  case (3 k)
  then show ?case using read_value_number_write by (cases n) auto
next
  case (4 s)
  then show ?case by (cases n) (simp_all add: read_string_write)
next
  case 5
  then show ?case by (cases n) (simp_all add: read_keyword_def u8_of_char_def)
next
  case (6 b)
  then show ?case by (cases n; cases b) (simp_all add: read_keyword_def u8_of_char_def)
qed

lemma json_cost_le: "json_cost v \<le> length (json_write v)"
proof (induction v rule: json_cost.induct)
  case (1 vs)
  then have "sum_list (map json_cost vs) \<le> sum_list (map (\<lambda>v. length (json_write v)) vs)"
    by (intro sum_list_mono) auto
  then show ?case
    by (cases vs) (auto simp: length_comma_sep comp_def sum_list_Suc sum_list_addf sum_list_triv)
next
  case (2 kvs)
  then have "sum_list (map (\<lambda>kv. json_cost (snd kv)) kvs) \<le>
      sum_list (map (\<lambda>kv. length (json_write (snd kv))) kvs)"
    by (intro sum_list_mono) auto
  then show ?case
    by (cases kvs) (auto simp: length_comma_sep comp_def sum_list_Suc sum_list_addf sum_list_triv)
next
  case (3 k)
  have "dec_digits m \<noteq> []" for m using dec_digits_first [of m] by auto
  then show ?case by (cases k) (simp_all add: Suc_le_eq)
qed auto

lemma json_read_write: "json_wf v \<Longrightarrow> json_read (json_write v) = Some v"
  using read_value_write [of v "Suc (length (json_write v))" "[]"] json_cost_le [of v]
  by (simp add: json_read_def delimited_def)

lemma escape_plain: "plain_string s \<Longrightarrow> concat (map escape_char s) = as_bytes s"
  by (induction s) (auto simp: plain_string_def plain_char_def escape_char_def)

interpretation json_text: serde_json json_write json_read
proof
  fix v assume "json_wf v"
  then show "json_read (json_write v) = Some v" by (rule json_read_write)
next
  fix kvs
  show "json_write (JObject kvs) =
     [0x7B] @ comma_sep (map (\<lambda>(k, v). json_write (JString k) @ [0x3A] @ json_write v) kvs) @ [0x7D]"
    by (simp add: case_prod_unfold)
next
  fix s assume "plain_string s"
  then show "json_write (JString s) = [0x22] @ as_bytes s @ [0x22]"
    by (simp add: escape_plain)
qed simp

end
