(* ===== verification/Signing.thy ===== *)
theory Signing
  imports Common Hsm_Pool Json_Text
begin

section \<open>What the issuing suites share: keys, components, the signing token\<close>

text \<open>
  The three issuing suites of \<open>zs-crypto\<close> open a pool on the same settings, sign through
  \<open>zs-hsm\<close> and verify against a list of accepted keys; two of them carry an array of signature
  components. This theory models what they have in common. The locale \<open>signing_key\<close> states what
  they rely on: the two objects the token holds under a label are a key pair. A reference token
  and reference libraries, defined at the end, interpret it.
\<close>

subsection \<open>Settings, accepted keys, signature components\<close>

record hsm_settings =
  set_module_path :: string
  set_slot_id :: "u64 option"
  set_pin :: string
  set_pool_size :: nat
  set_acquire_timeout :: nat
  set_key_label :: string

definition hsm_config_of :: "hsm_settings \<Rightarrow> hsm_config" where
  "hsm_config_of settings =
     \<lparr>cfg_module_path = set_module_path settings, cfg_slot_id = set_slot_id settings,
      cfg_pin = set_pin settings, cfg_pool_size = set_pool_size settings,
      cfg_acquire_timeout = set_acquire_timeout settings\<rparr>"

record accepted_verifying_key =
  avk_key_id :: string
  avk_raw :: bytes

record wire_signature_component =
  wsc_component :: string
  wsc_key_id :: string
  wsc_value :: string

definition wire_component_fields :: "string list" where
  "wire_component_fields = [''component'', ''key_id'', ''value'']"

definition de_wire_component :: "json \<Rightarrow> wire_signature_component option" where
  "de_wire_component j =
     Option.bind (struct_fields True wire_component_fields j) (\<lambda>m.
     Option.bind (req_field m ''component'' de_string) (\<lambda>c.
     Option.bind (req_field m ''key_id'' de_string) (\<lambda>k.
     Option.bind (req_field m ''value'' de_string) (\<lambda>v.
       Some \<lparr>wsc_component = c, wsc_key_id = k, wsc_value = v\<rparr>))))"

definition component_json :: "wire_signature_component \<Rightarrow> json" where
  "component_json c =
     JObject [(''component'', JString (wsc_component c)), (''key_id'', JString (wsc_key_id c)),
              (''value'', JString (wsc_value c))]"

text \<open>
  The arity and the order of the components: the guard of \<open>verify\<close>, and the loop that resolves
  every key and verifies every component without stopping at the first invalid one. The error
  values are those of the suite.
\<close>

definition components_match :: "string list \<Rightarrow> wire_signature_component list \<Rightarrow> bool" where
  "components_match required comps \<longleftrightarrow>
     length comps = length required \<and>
     list_all (\<lambda>(got, want). wsc_component got = want) (zip comps required)"

fun check_components ::
  "'x zs_ext_scheme \<Rightarrow> 'e \<Rightarrow> 'e \<Rightarrow> accepted_verifying_key list \<Rightarrow> bytes \<Rightarrow> bool \<Rightarrow>
     wire_signature_component list \<Rightarrow> (bool, 'e) outcome" where
  "check_components X unknown invalid keys message all_valid [] = Ok all_valid"
| "check_components X unknown invalid keys message all_valid (c # cs) =
     and_then (ok_or unknown (find (\<lambda>k. avk_key_id k = wsc_key_id c) keys)) (\<lambda>key.
     and_then (ok_or invalid (hex_decode (wsc_value c))) (\<lambda>sig_bytes.
       check_components X unknown invalid keys message
         (all_valid \<and> ext_p256_verify X (avk_raw key) message sig_bytes) cs))"

text \<open>A sealer: the pool, the key and the identifier of the key it publishes.\<close>

record 't sealer =
  sl_pool :: "'t session_pool"
  sl_key :: key_ref
  sl_key_id :: string

definition with_pool :: "('t session_pool, 'a, 'e) action \<Rightarrow> (('t, 'z) sealer_scheme, 'a, 'e) action" where
  "with_pool m sl = (case m (sl_pool sl) of (r, p) \<Rightarrow> (r, sl\<lparr>sl_pool := p\<rparr>))"

lemma with_pool_Ok [outcome_simps]:
  "with_pool m sl = (Ok x, sl') \<longleftrightarrow> (\<exists>p. m (sl_pool sl) = (Ok x, p) \<and> sl' = sl\<lparr>sl_pool := p\<rparr>)"
  by (auto simp: with_pool_def split: prod.splits)

lemma check_components_not_Panic: "check_components X u i keys m b cs \<noteq> Panic"
  by (induction cs arbitrary: b) (auto simp: outcome_simps)

lemma check_components_True:
  "check_components X u i keys m b cs = Ok True \<longleftrightarrow>
     b \<and> (\<forall>c \<in> set cs. \<exists>key sig. find (\<lambda>k. avk_key_id k = wsc_key_id c) keys = Some key \<and>
        hex_decode (wsc_value c) = Some sig \<and> ext_p256_verify X (avk_raw key) m sig)"
  by (induction cs arbitrary: b) (auto simp: outcome_simps)

lemma check_components_single:
  "check_components X u i keys m True [c] = Ok True \<longleftrightarrow>
     (\<exists>key sig. find (\<lambda>k. avk_key_id k = wsc_key_id c) keys = Some key \<and>
        hex_decode (wsc_value c) = Some sig \<and> ext_p256_verify X (avk_raw key) m sig)"
  unfolding check_components_True by simp

lemma check_components_Err:
  "check_components X u i keys m b cs = Err e \<Longrightarrow> e = u \<or> e = i"
  by (induction cs arbitrary: b) (auto simp: outcome_simps)

lemma components_match_single:
  "components_match [w] cs \<longleftrightarrow> (\<exists>c. cs = [c] \<and> wsc_component c = w)"
  by (cases cs) (auto simp: components_match_def)

lemma component_json_wf [simp]: "json_wf (component_json c)" "json_depth (component_json c) = 1"
  by (simp_all add: component_json_def)

lemma de_wire_component_json: "de_wire_component (sort_json (component_json c)) = Some c"
  unfolding de_wire_component_def component_json_def
  by (subst struct_fields_sorted) (simp_all add: wire_component_fields_def)

subsection \<open>The key pair of a label\<close>

locale signing_key = zs_libraries X
  for X :: "'x zs_ext_scheme" +
  fixes P :: "'t pkcs11"
    and label :: string
    and pk :: bytes
  assumes token_signature:
    "pk_find_objects P s PRIVATE_KEY (as_bytes label) t = (Ok [h], t') \<Longrightarrow>
     pk_sign P s Ck_Ecdsa h (ext_sha256 X m) t' = (Ok raw, t'') \<Longrightarrow>
     length raw = 64 \<and> ext_p256_verify X pk m raw"
begin

lemma sign_digest_verifies:
  assumes "sign_digest P wakes \<lparr>key_ref_label = label\<rparr> EcdsaP256Sha256 (sha256 X m) p = (Ok raw, p')"
  shows "length raw = 64" and "ext_p256_verify X pk m raw"
proof -
  from assms obtain s h t t' t'' where
    "pk_find_objects P s PRIVATE_KEY (as_bytes label) t = (Ok [h], t')"
    "pk_sign P s Ck_Ecdsa h (ext_sha256 X m) t' = (Ok raw, t'')"
    by (elim sign_digest_Ok) (simp add: sha256_def)
  then show "length raw = 64" and "ext_p256_verify X pk m raw"
    using token_signature by blast+
qed

end

subsection \<open>Reference libraries and a reference token\<close>

text \<open>
  The JSON library is the codec of \<open>Json_Text\<close>. The digest keeps the first 32 bytes and the
  signature of a digest repeats it: they stand for SHA-256 and ECDSA where a witness needs a
  concrete value of the parameters, and only their interface laws matter there. The token opens
  sessions, checks the PIN, and holds one key pair under one label.
\<close>

definition ref_digest :: "bytes \<Rightarrow> bytes" where
  "ref_digest m = take 32 (m @ replicate 32 0)"

definition ref_public_key :: bytes where
  "ref_public_key = 0x04 # replicate 64 0x11"

definition ref_ext :: zs_ext where
  "ref_ext =
     \<lparr>ext_to_vec = json_write, ext_from_slice = json_read, ext_sha256 = ref_digest,
      ext_p256_verify = (\<lambda>pk m sig. pk = ref_public_key \<and> sig = ref_digest m @ ref_digest m),
      ext_ed25519_verify = (\<lambda>pk m sig. length pk = 32 \<and> sig = ref_digest m @ ref_digest m)\<rparr>"

record ref_token =
  rt_next :: nat
  rt_open :: "nat list"

definition ref_label :: string where
  "ref_label = ''zs-key-v1''"

definition ref_pin :: string where
  "ref_pin = ''1234''"

definition ref_pkcs11 :: "ref_token pkcs11" where
  "ref_pkcs11 =
     \<lparr>pk_new = (\<lambda>path t. (Ok (), t)),
      pk_initialize = (\<lambda>t. (Ok (), t)),
      pk_slots = (\<lambda>t. (Ok [0], t)),
      pk_max_session_count = (\<lambda>slot t. (Ok (Limit_Max 8), t)),
      pk_mechanisms = (\<lambda>slot t. (Ok [Ck_Ecdsa], t)),
      pk_open_rw_session = (\<lambda>slot t. (Ok (rt_next t),
        \<lparr>rt_next = Suc (rt_next t), rt_open = rt_next t # rt_open t\<rparr>)),
      pk_login = (\<lambda>s pin t. (if pin = ref_pin then Ok () else Err PinIncorrect, t)),
      pk_find_objects = (\<lambda>s cls lab t.
        (if s \<notin> set (rt_open t) then Err SessionHandleInvalid
         else if lab \<noteq> as_bytes ref_label then Ok []
         else Ok [case cls of PRIVATE_KEY \<Rightarrow> 1 | PUBLIC_KEY \<Rightarrow> 2], t)),
      pk_sign = (\<lambda>s mech h d t.
        (if s \<notin> set (rt_open t) then Err SessionHandleInvalid
         else if mech \<noteq> Ck_Ecdsa then Err MechanismInvalid
         else if h \<noteq> 1 then Err OtherRv
         else Ok (d @ d), t)),
      pk_get_attributes = (\<lambda>s h t.
        (if s \<notin> set (rt_open t) then Err SessionHandleInvalid
         else if h \<noteq> 2 then Err OtherRv
         else Ok [OtherAttribute, EcPoint (der_octet_string ref_public_key)], t)),
      pk_close = (\<lambda>s t. t\<lparr>rt_open := remove1 s (rt_open t)\<rparr>)\<rparr>"

lemma length_ref_digest [simp]: "length (ref_digest m) = 32"
  by (simp add: ref_digest_def)

interpretation ref_token: signing_key ref_ext ref_pkcs11 ref_label ref_public_key
proof (intro signing_key.intro zs_libraries.intro signing_key_axioms.intro)
  show "serde_json (ext_to_vec ref_ext) (ext_from_slice ref_ext)"
    by (simp add: ref_ext_def json_text.serde_json_axioms)
next
  fix m show "length (ext_sha256 ref_ext m) = 32" by (simp add: ref_ext_def)
next
  fix s t h t' m raw t''
  assume "pk_sign ref_pkcs11 s Ck_Ecdsa h (ext_sha256 ref_ext m) t' = (Ok raw, t'')"
  then show "length raw = 64 \<and> ext_p256_verify ref_ext ref_public_key m raw"
    by (auto simp: ref_pkcs11_def ref_ext_def split: if_splits)
qed

text \<open>A sealer on the reference token, with one open session.\<close>

definition ref_sealer :: "ref_token sealer" where
  "ref_sealer =
     \<lparr>sl_pool = \<lparr>pool_pkcs11 = \<lparr>rt_next = 1, rt_open = [0]\<rparr>, pool_slot = 0, pool_pin = ref_pin,
                 pool_sessions = [0]\<rparr>,
      sl_key = \<lparr>key_ref_label = ref_label\<rparr>,
      sl_key_id = key_id_from_public_key ref_ext ref_public_key\<rparr>"

lemma ref_sign_digest:
  "sign_digest ref_pkcs11 [] (sl_key ref_sealer) EcdsaP256Sha256 d (sl_pool ref_sealer) =
     (Ok (d @ d), sl_pool ref_sealer)"
  by (simp add: sign_digest_def ref_sealer_def pool_acquire_def act_bind_def find_key_def on_token_def
      ref_pkcs11_def release_def act_return_def)

end
