(* ===== verification/Identity_Assertion.thy ===== *)
theory Identity_Assertion
  imports Signing
begin

section \<open>The suite \<open>identity-assertion/v1\<close> (\<open>crates/zs-crypto/src/identity_assertion.rs\<close>)\<close>

text \<open>
  Sealing and verification of an identity assertion: a canonical JSON document with an array of
  signature components, signed over its domain prefix and its canonical bytes without the array.
  The lemmas show that what a sealer emits is accepted by \<open>verify\<close> with the fields of the claims,
  that an accepted document is canonical, correctly signed by an accepted key over exactly the
  fields it reports, inside its validity window and for the expected domain, and that \<open>verify\<close>
  never panics.
\<close>

subsection \<open>Claims\<close>

definition IDENTITY_SUITE_V1 :: string where
  "IDENTITY_SUITE_V1 = ''identity-assertion/v1''"

definition IDENTITY_DOMAIN_PREFIX :: string where
  "IDENTITY_DOMAIN_PREFIX = ''zero-secret/identity-assertion/v1''"

definition IDENTITY_MAX_BYTES :: nat where
  "IDENTITY_MAX_BYTES = 4096"

definition IDENTITY_REQUIRED_COMPONENTS_V1 :: "string list" where
  "IDENTITY_REQUIRED_COMPONENTS_V1 = [''ecdsa-p256'']"

datatype assurance_level = Aal1 | Aal2 | Aal3

fun assurance_level_as_str :: "assurance_level \<Rightarrow> string" where
  "assurance_level_as_str Aal1 = ''AAL1''"
| "assurance_level_as_str Aal2 = ''AAL2''"
| "assurance_level_as_str Aal3 = ''AAL3''"

definition SubjectId_new :: "string \<Rightarrow> (string, field_error) outcome" where
  "SubjectId_new = bounded_ascii_new 256 ''subject_id''"

definition AuthMethod_new :: "string \<Rightarrow> (string, field_error) outcome" where
  "AuthMethod_new = bounded_ascii_new 64 ''auth_method''"

definition Audience_new :: "string \<Rightarrow> (string, field_error) outcome" where
  "Audience_new = bounded_ascii_new 256 ''audience''"

record assertion_claims =
  ac_authority_domain :: string
  ac_subject_id :: string
  ac_aal :: assurance_level
  ac_auth_method :: string
  ac_audience :: string
  ac_issued_at :: string
  ac_expires_at :: string
  ac_audit_event_id :: string

text \<open>The invariant of the field types: each value went through its constructor.\<close>

definition assertion_claims_valid :: "assertion_claims \<Rightarrow> bool" where
  "assertion_claims_valid c \<longleftrightarrow>
     SubjectId_new (ac_subject_id c) = Ok (ac_subject_id c) \<and>
     AuthMethod_new (ac_auth_method c) = Ok (ac_auth_method c) \<and>
     Audience_new (ac_audience c) = Ok (ac_audience c) \<and>
     Timestamp_new (ac_issued_at c) = Ok (ac_issued_at c) \<and>
     Timestamp_new (ac_expires_at c) = Ok (ac_expires_at c) \<and>
     EventId_new (ac_audit_event_id c) = Ok (ac_audit_event_id c)"

datatype identity_seal_error = IdInvalidClaims string | IdSealingUnavailable

fun identity_seal_error_from :: "field_error \<Rightarrow> identity_seal_error" where
  "identity_seal_error_from (FieldError f) = IdInvalidClaims f"

definition identity_opaque :: "hsm_error \<Rightarrow> identity_seal_error" where
  "identity_opaque e = IdSealingUnavailable"

definition identity_unsigned_document :: "assertion_claims \<Rightarrow> (string \<times> json) list" where
  "identity_unsigned_document claims =
     map_insert ''audit_event_id'' (JString (ac_audit_event_id claims))
     (map_insert ''expires_at'' (JString (ac_expires_at claims))
     (map_insert ''issued_at'' (JString (ac_issued_at claims))
     (map_insert ''audience'' (JString (ac_audience claims))
     (map_insert ''auth_method'' (JString (ac_auth_method claims))
     (map_insert ''aal'' (JString (assurance_level_as_str (ac_aal claims)))
     (map_insert ''subject_id'' (JString (ac_subject_id claims))
     (map_insert ''authority_domain'' (JString (ac_authority_domain claims))
     (map_insert ''suite'' (JString IDENTITY_SUITE_V1)
     (map_insert ''schema_version'' (JNumber (PosInt 1)) [])))))))))"

definition identity_signed_message ::
  "'x zs_ext_scheme \<Rightarrow> (string \<times> json) list \<Rightarrow> (bytes, 'e) outcome" where
  "identity_signed_message X unsigned_map =
     and_then (canonical_bytes X (JObject unsigned_map)) (\<lambda>b.
       Ok (as_bytes IDENTITY_DOMAIN_PREFIX @ [0x00] @ b))"

subsection \<open>Sealing\<close>

definition assertion_sealer_open ::
  "'x zs_ext_scheme \<Rightarrow> 't pkcs11 \<Rightarrow> wakes \<Rightarrow> hsm_settings \<Rightarrow> 't \<Rightarrow>
     ('t sealer, identity_seal_error) outcome" where
  "assertion_sealer_open X P wakes settings t =
     (let key = KeyRef_new (set_key_label settings)
      in and_then (map_err identity_opaque (fst (session_pool_open P (hsm_config_of settings) t))) (\<lambda>pool.
         case public_key P wakes key pool of
           (r, pool') \<Rightarrow> and_then (map_err identity_opaque r) (\<lambda>pk.
             Ok \<lparr>sl_pool = pool', sl_key = key, sl_key_id = key_id_from_public_key X pk\<rparr>)))"

definition identity_component :: "string \<Rightarrow> bytes \<Rightarrow> wire_signature_component" where
  "identity_component key_id signature =
     \<lparr>wsc_component = IDENTITY_REQUIRED_COMPONENTS_V1 ! 0, wsc_key_id = key_id,
      wsc_value = hex_encode signature\<rparr>"

definition assertion_seal ::
  "'x zs_ext_scheme \<Rightarrow> 't pkcs11 \<Rightarrow> wakes \<Rightarrow> assertion_claims \<Rightarrow>
     ('t sealer, bytes, identity_seal_error) action" where
  "assertion_seal X P wakes claims sl =
     (let unsigned_map = identity_unsigned_document claims
      in act_bind (act_lift (identity_signed_message X unsigned_map)) (\<lambda>message.
         act_bind (act_map_err identity_opaque
             (with_pool (sign_digest P wakes (sl_key sl) EcdsaP256Sha256 (sha256 X message)))) (\<lambda>signature.
           act_lift (canonical_bytes X (JObject
             (map_insert ''signatures''
               (JArray [component_json (identity_component (sl_key_id sl) signature)]) unsigned_map)))))
       sl)"

definition sealed_assertion_digest :: "'x zs_ext_scheme \<Rightarrow> bytes \<Rightarrow> bytes" where
  "sealed_assertion_digest X sealed_bytes = sha256 X sealed_bytes"

subsection \<open>Verification\<close>

datatype identity_verify_error =
    IdUnknownSuite | IdMalformedKey | IdTooLarge | IdMalformedDocument | IdNonCanonical
  | IdInvalidSignatureArity | IdUnknownKeyId | IdInvalidSignature | IdUnexpectedAuthorityDomain
  | IdNotYetValidOrExpired

definition identity_accept_verifying_key ::
  "string \<Rightarrow> string \<Rightarrow> bytes \<Rightarrow> (accepted_verifying_key, identity_verify_error) outcome" where
  "identity_accept_verifying_key suite key_id sec1_uncompressed =
     (if suite \<noteq> IDENTITY_SUITE_V1 then Err IdUnknownSuite
      else if length sec1_uncompressed \<noteq> 65 \<or> sec1_uncompressed ! 0 \<noteq> 0x04 then Err IdMalformedKey
      else Ok \<lparr>avk_key_id = key_id, avk_raw = sec1_uncompressed\<rparr>)"

record identity_acceptance_policy =
  iap_accepted_suites :: "string list"
  iap_now :: string
  iap_expected_authority_domain :: string

record verified_assertion =
  va_subject_id :: string
  va_aal :: string
  va_auth_method :: string
  va_audience :: string
  va_issued_at :: string
  va_expires_at :: string
  va_audit_event_id :: string

record identity_wire_document =
  iw_schema_version :: u32
  iw_suite :: string
  iw_authority_domain :: string
  iw_subject_id :: string
  iw_aal :: string
  iw_auth_method :: string
  iw_audience :: string
  iw_issued_at :: string
  iw_expires_at :: string
  iw_audit_event_id :: string
  iw_signatures :: "wire_signature_component list"

definition identity_wire_fields :: "string list" where
  "identity_wire_fields =
     [''schema_version'', ''suite'', ''authority_domain'', ''subject_id'', ''aal'', ''auth_method'',
      ''audience'', ''issued_at'', ''expires_at'', ''audit_event_id'', ''signatures'']"

definition de_identity_wire_document :: "json \<Rightarrow> identity_wire_document option" where
  "de_identity_wire_document j =
     Option.bind (struct_fields True identity_wire_fields j) (\<lambda>m.
     Option.bind (req_field m ''schema_version'' de_u32) (\<lambda>version.
     Option.bind (req_field m ''suite'' de_string) (\<lambda>suite.
     Option.bind (req_field m ''authority_domain'' de_string) (\<lambda>authority_domain.
     Option.bind (req_field m ''subject_id'' de_string) (\<lambda>subject_id.
     Option.bind (req_field m ''aal'' de_string) (\<lambda>aal.
     Option.bind (req_field m ''auth_method'' de_string) (\<lambda>auth_method.
     Option.bind (req_field m ''audience'' de_string) (\<lambda>audience.
     Option.bind (req_field m ''issued_at'' de_string) (\<lambda>issued_at.
     Option.bind (req_field m ''expires_at'' de_string) (\<lambda>expires_at.
     Option.bind (req_field m ''audit_event_id'' de_string) (\<lambda>audit_event_id.
     Option.bind (req_field m ''signatures'' (de_vec de_wire_component)) (\<lambda>signatures.
       Some \<lparr>iw_schema_version = version, iw_suite = suite,
             iw_authority_domain = authority_domain, iw_subject_id = subject_id, iw_aal = aal,
             iw_auth_method = auth_method, iw_audience = audience, iw_issued_at = issued_at,
             iw_expires_at = expires_at, iw_audit_event_id = audit_event_id,
             iw_signatures = signatures\<rparr>))))))))))))"

definition identity_unsigned_document_from_wire :: "identity_wire_document \<Rightarrow> (string \<times> json) list" where
  "identity_unsigned_document_from_wire doc =
     map_insert ''audit_event_id'' (JString (iw_audit_event_id doc))
     (map_insert ''expires_at'' (JString (iw_expires_at doc))
     (map_insert ''issued_at'' (JString (iw_issued_at doc))
     (map_insert ''audience'' (JString (iw_audience doc))
     (map_insert ''auth_method'' (JString (iw_auth_method doc))
     (map_insert ''aal'' (JString (iw_aal doc))
     (map_insert ''subject_id'' (JString (iw_subject_id doc))
     (map_insert ''authority_domain'' (JString (iw_authority_domain doc))
     (map_insert ''suite'' (JString (iw_suite doc))
     (map_insert ''schema_version'' (JNumber (PosInt (ucast (iw_schema_version doc)))) [])))))))))"

definition identity_required_components :: "string \<Rightarrow> (string list, identity_verify_error) outcome" where
  "identity_required_components suite =
     (if suite = IDENTITY_SUITE_V1 then Ok IDENTITY_REQUIRED_COMPONENTS_V1 else Err IdUnknownSuite)"

definition identity_full_document :: "identity_wire_document \<Rightarrow> json" where
  "identity_full_document doc =
     JObject (map_insert ''signatures'' (JArray (map component_json (iw_signatures doc)))
       (identity_unsigned_document_from_wire doc))"

text \<open>\<open>&str\<close> compares by bytes; \<open>as_bytes\<close> and the lexicographic order give the same order.\<close>

definition identity_assertion_verify ::
  "'x zs_ext_scheme \<Rightarrow> accepted_verifying_key list \<Rightarrow> bytes \<Rightarrow> identity_acceptance_policy \<Rightarrow>
     (verified_assertion, identity_verify_error) outcome" where
  "identity_assertion_verify X keys bs policy =
     (if length bs > IDENTITY_MAX_BYTES then Err IdTooLarge
      else and_then (ok_or IdMalformedDocument
             (Option.bind (ext_from_slice X bs) de_identity_wire_document)) (\<lambda>doc.
      if iw_schema_version doc \<noteq> 1 then Err IdMalformedDocument
      else if iw_suite doc \<notin> set (iap_accepted_suites policy) then Err IdUnknownSuite
      else and_then (identity_required_components (iw_suite doc)) (\<lambda>required.
      if \<not> components_match required (iw_signatures doc) then Err IdInvalidSignatureArity
      else and_then (canonical_bytes X (identity_full_document doc)) (\<lambda>canonical.
      if canonical \<noteq> bs then Err IdNonCanonical
      else and_then (identity_signed_message X (identity_unsigned_document_from_wire doc)) (\<lambda>message.
      and_then (check_components X IdUnknownKeyId IdInvalidSignature keys message True
                  (iw_signatures doc)) (\<lambda>all_valid.
      if \<not> all_valid then Err IdInvalidSignature
      else if iw_authority_domain doc \<noteq> iap_expected_authority_domain policy
        then Err IdUnexpectedAuthorityDomain
      else if \<not> (as_bytes (iw_issued_at doc) \<le> as_bytes (iap_now policy) \<and>
                  as_bytes (iap_now policy) < as_bytes (iw_expires_at doc))
        then Err IdNotYetValidOrExpired
      else Ok \<lparr>va_subject_id = iw_subject_id doc, va_aal = iw_aal doc,
               va_auth_method = iw_auth_method doc, va_audience = iw_audience doc,
               va_issued_at = iw_issued_at doc, va_expires_at = iw_expires_at doc,
               va_audit_event_id = iw_audit_event_id doc\<rparr>))))))"

section \<open>Properties of the suite\<close>

subsection \<open>The document\<close>

lemma identity_unsigned_from_wire_list:
  "identity_unsigned_document_from_wire doc =
     [(''schema_version'', JNumber (PosInt (ucast (iw_schema_version doc)))),
      (''suite'', JString (iw_suite doc)), (''authority_domain'', JString (iw_authority_domain doc)),
      (''subject_id'', JString (iw_subject_id doc)), (''aal'', JString (iw_aal doc)),
      (''auth_method'', JString (iw_auth_method doc)), (''audience'', JString (iw_audience doc)),
      (''issued_at'', JString (iw_issued_at doc)), (''expires_at'', JString (iw_expires_at doc)),
      (''audit_event_id'', JString (iw_audit_event_id doc))]"
  by (simp add: identity_unsigned_document_from_wire_def)

lemma identity_full_document_list:
  "identity_full_document doc =
     JObject (identity_unsigned_document_from_wire doc @
       [(''signatures'', JArray (map component_json (iw_signatures doc)))])"
  by (simp add: identity_full_document_def identity_unsigned_from_wire_list)

text \<open>Reading back the sorted document gives the document it was built from.\<close>

lemma de_vec_components [simp]:
  "de_vec de_wire_component (sort_json (JArray (map component_json cs))) = Some cs"
  by (simp add: comp_def de_wire_component_json)

lemma de_identity_wire_document_sorted:
  "de_identity_wire_document (sort_json (identity_full_document doc)) = Some doc"
  unfolding de_identity_wire_document_def identity_full_document_list identity_unsigned_from_wire_list
  by (subst struct_fields_sorted)
    (simp_all add: identity_wire_fields_def de_u32_ucast del: sort_json.simps(2) de_u32.simps de_vec.simps)

lemma identity_full_document_wf:
  "json_wf (identity_full_document doc)" "json_depth (identity_full_document doc) \<le> 127"
proof -
  show "json_wf (identity_full_document doc)"
    by (simp add: identity_full_document_list identity_unsigned_from_wire_list list_all_iff)
  have "Max (insert 0 ((\<lambda>x. json_depth (component_json x)) ` set (iw_signatures doc))) \<le> 1"
    by (rule Max_insert_0_const) auto
  then show "json_depth (identity_full_document doc) \<le> 127"
    by (simp add: identity_full_document_list identity_unsigned_from_wire_list image_image)
qed

lemma identity_unsigned_no_float: "\<not> has_float (JObject (identity_unsigned_document_from_wire doc))"
  by (simp add: identity_unsigned_from_wire_list)

text \<open>The bytes signed for a document.\<close>

definition identity_message :: "'x zs_ext_scheme \<Rightarrow> identity_wire_document \<Rightarrow> bytes" where
  "identity_message X doc = as_bytes IDENTITY_DOMAIN_PREFIX @ [0] @
     ext_to_vec X (sort_json (JObject (identity_unsigned_document_from_wire doc)))"

lemma identity_message_eq:
  "identity_signed_message X (identity_unsigned_document_from_wire doc) =
     Ok (identity_message X doc)"
  unfolding identity_signed_message_def canonical_bytes_eq
  using identity_unsigned_no_float [of doc] by (simp add: identity_message_def)

text \<open>The wire document of a set of claims: the document \<open>seal\<close> builds.\<close>

definition identity_wire_of :: "assertion_claims \<Rightarrow> wire_signature_component list \<Rightarrow> identity_wire_document" where
  "identity_wire_of c comps =
     \<lparr>iw_schema_version = 1, iw_suite = IDENTITY_SUITE_V1, iw_authority_domain = ac_authority_domain c,
      iw_subject_id = ac_subject_id c, iw_aal = assurance_level_as_str (ac_aal c),
      iw_auth_method = ac_auth_method c, iw_audience = ac_audience c, iw_issued_at = ac_issued_at c,
      iw_expires_at = ac_expires_at c, iw_audit_event_id = ac_audit_event_id c, iw_signatures = comps\<rparr>"

lemma identity_unsigned_document_wire:
  "identity_unsigned_document c = identity_unsigned_document_from_wire (identity_wire_of c comps)"
  by (simp add: identity_unsigned_document_def identity_unsigned_from_wire_list identity_wire_of_def)

lemma assertion_seal_Ok:
  assumes "assertion_seal X P wakes claims sl = (Ok bs, sl')"
  obtains raw where
    "\<exists>p'. sign_digest P wakes (sl_key sl) EcdsaP256Sha256
       (sha256 X (identity_message X (identity_wire_of claims [identity_component (sl_key_id sl) raw])))
       (sl_pool sl) = (Ok raw, p')"
    "bs = ext_to_vec X (sort_json (identity_full_document
       (identity_wire_of claims [identity_component (sl_key_id sl) raw])))"
proof -
  let ?u = "identity_unsigned_document claims"
  have msg: "identity_signed_message X ?u =
      (Ok (identity_message X (identity_wire_of claims comps)) :: (bytes, identity_seal_error) outcome)" for comps
    unfolding identity_unsigned_document_wire [of claims comps] by (rule identity_message_eq)
  from assms obtain raw p' where
    sign: "sign_digest P wakes (sl_key sl) EcdsaP256Sha256
       (sha256 X (identity_message X (identity_wire_of claims []))) (sl_pool sl) = (Ok raw, p')"
    and can: "canonical_bytes X (JObject (map_insert ''signatures''
        (JArray [component_json (identity_component (sl_key_id sl) raw)]) ?u)) = (Ok bs :: (bytes, identity_seal_error) outcome)"
    unfolding assertion_seal_def Let_def msg [of "[]"] by (auto simp: outcome_simps)
  let ?doc = "identity_wire_of claims [identity_component (sl_key_id sl) raw]"
  have full: "JObject (map_insert ''signatures''
      (JArray [component_json (identity_component (sl_key_id sl) raw)]) ?u) = identity_full_document ?doc"
    unfolding identity_full_document_def identity_unsigned_document_wire [of claims "[identity_component (sl_key_id sl) raw]"]
    by (simp add: identity_wire_of_def)
  have "bs = ext_to_vec X (sort_json (identity_full_document ?doc))"
    using can unfolding full canonical_bytes_eq
    using json_wf_no_float [OF identity_full_document_wf(1)] by simp
  moreover have "identity_message X (identity_wire_of claims []) = identity_message X ?doc"
    by (simp add: identity_message_def flip: identity_unsigned_document_wire)
  ultimately show ?thesis using sign that [of raw] by metis
qed

subsection \<open>Verification\<close>

context zs_libraries
begin

lemma identity_parse:
  "Option.bind (ext_from_slice X (ext_to_vec X (sort_json (identity_full_document doc))))
     de_identity_wire_document = Some doc"
  using serde_json.from_slice_to_vec [OF json_laws, of "sort_json (identity_full_document doc)"]
    identity_full_document_wf [of doc] by (simp add: de_identity_wire_document_sorted)

lemma identity_canonical:
  "canonical_bytes X (identity_full_document doc) = Ok (ext_to_vec X (sort_json (identity_full_document doc)))"
  using json_wf_no_float [OF identity_full_document_wf(1)] by (simp add: canonical_bytes_eq)

end

lemma identity_assertion_verify_not_Panic: "identity_assertion_verify X keys bs policy \<noteq> Panic"
proof -
  have "canonical_bytes X (identity_full_document doc) \<noteq> Panic" for doc
    using json_wf_no_float [OF identity_full_document_wf(1)] by (simp add: canonical_bytes_eq)
  then show ?thesis
    by (auto simp: identity_assertion_verify_def outcome_simps identity_message_eq
        identity_required_components_def check_components_not_Panic split: if_splits)
qed

text \<open>What acceptance says, for any bytes.\<close>

lemma identity_assertion_verify_Ok:
  assumes "identity_assertion_verify X keys bs policy = Ok v"
  obtains doc c key sig where
    "length bs \<le> IDENTITY_MAX_BYTES" "iw_schema_version doc = 1" "iw_suite doc = IDENTITY_SUITE_V1"
    "IDENTITY_SUITE_V1 \<in> set (iap_accepted_suites policy)"
    "iw_signatures doc = [c]" "wsc_component c = ''ecdsa-p256''"
    "bs = ext_to_vec X (sort_json (identity_full_document doc))"
    "key \<in> set keys" "avk_key_id key = wsc_key_id c" "hex_decode (wsc_value c) = Some sig"
    "ext_p256_verify X (avk_raw key) (identity_message X doc) sig"
    "iw_authority_domain doc = iap_expected_authority_domain policy"
    "as_bytes (iw_issued_at doc) \<le> as_bytes (iap_now policy)"
    "as_bytes (iap_now policy) < as_bytes (iw_expires_at doc)"
    "v = \<lparr>va_subject_id = iw_subject_id doc, va_aal = iw_aal doc,
          va_auth_method = iw_auth_method doc, va_audience = iw_audience doc,
          va_issued_at = iw_issued_at doc, va_expires_at = iw_expires_at doc,
          va_audit_event_id = iw_audit_event_id doc\<rparr>"
proof -
  from assms obtain doc where d: "iw_schema_version doc = 1" "iw_suite doc = IDENTITY_SUITE_V1"
      "IDENTITY_SUITE_V1 \<in> set (iap_accepted_suites policy)"
      "components_match [''ecdsa-p256''] (iw_signatures doc)"
      "bs = ext_to_vec X (sort_json (identity_full_document doc))"
      "check_components X IdUnknownKeyId IdInvalidSignature keys (identity_message X doc) True (iw_signatures doc) = Ok True"
      "iw_authority_domain doc = iap_expected_authority_domain policy"
      "as_bytes (iw_issued_at doc) \<le> as_bytes (iap_now policy)"
      "as_bytes (iap_now policy) < as_bytes (iw_expires_at doc)"
    and v: "v = \<lparr>va_subject_id = iw_subject_id doc, va_aal = iw_aal doc,
          va_auth_method = iw_auth_method doc, va_audience = iw_audience doc,
          va_issued_at = iw_issued_at doc, va_expires_at = iw_expires_at doc,
          va_audit_event_id = iw_audit_event_id doc\<rparr>" and len: "length bs \<le> IDENTITY_MAX_BYTES"
    unfolding identity_assertion_verify_def
    by (auto simp: outcome_simps identity_message_eq identity_required_components_def
        IDENTITY_REQUIRED_COMPONENTS_V1_def canonical_bytes_eq split: if_splits)
  from d(4) obtain c where c: "iw_signatures doc = [c]" "wsc_component c = ''ecdsa-p256''"
    by (auto simp: components_match_single)
  with d(6) obtain key sig where "find (\<lambda>k. avk_key_id k = wsc_key_id c) keys = Some key"
    and k: "hex_decode (wsc_value c) = Some sig"
      "ext_p256_verify X (avk_raw key) (identity_message X doc) sig"
    unfolding c check_components_single by blast
  then have "key \<in> set keys" "avk_key_id key = wsc_key_id c"
    by (auto simp: find_Some_iff)
  from len d(1,2,3) c d(5) this k d(7,8,9) v show ?thesis by (rule that)
qed

text \<open>Verifying the canonical bytes of a document: what remains after the parse.\<close>

context zs_libraries
begin

lemma identity_verify_canonical:
  assumes "length (ext_to_vec X (sort_json (identity_full_document doc))) \<le> IDENTITY_MAX_BYTES"
    and "iw_schema_version doc = 1" "iw_suite doc = IDENTITY_SUITE_V1"
    and "IDENTITY_SUITE_V1 \<in> set (iap_accepted_suites policy)"
    and "iw_signatures doc = [c]" "wsc_component c = ''ecdsa-p256''"
    and "find (\<lambda>k. avk_key_id k = wsc_key_id c) keys = Some key" "hex_decode (wsc_value c) = Some sig"
    and "ext_p256_verify X (avk_raw key) (identity_message X doc) sig"
    and "iw_authority_domain doc = iap_expected_authority_domain policy"
    and "as_bytes (iw_issued_at doc) \<le> as_bytes (iap_now policy)"
    and "as_bytes (iap_now policy) < as_bytes (iw_expires_at doc)"
  shows "identity_assertion_verify X keys (ext_to_vec X (sort_json (identity_full_document doc))) policy =
    Ok \<lparr>va_subject_id = iw_subject_id doc, va_aal = iw_aal doc,
        va_auth_method = iw_auth_method doc, va_audience = iw_audience doc,
        va_issued_at = iw_issued_at doc, va_expires_at = iw_expires_at doc,
        va_audit_event_id = iw_audit_event_id doc\<rparr>"
proof -
  have "components_match [''ecdsa-p256''] (iw_signatures doc)"
    using assms(5,6) by (simp add: components_match_single)
  moreover have "check_components X IdUnknownKeyId IdInvalidSignature keys (identity_message X doc) True
      (iw_signatures doc) = Ok True"
    unfolding assms(5) check_components_single using assms(7-9) by blast
  ultimately show ?thesis
    using assms by (simp add: identity_assertion_verify_def identity_parse identity_canonical
        identity_message_eq identity_required_components_def IDENTITY_REQUIRED_COMPONENTS_V1_def)
qed

end

context signing_key
begin

lemma assertion_seal_verify:
  assumes seal: "assertion_seal X P wakes claims sl = (Ok bs, sl')"
    and key: "sl_key sl = \<lparr>key_ref_label = label\<rparr>"
    and known: "find (\<lambda>k. avk_key_id k = sl_key_id sl) keys = Some \<lparr>avk_key_id = sl_key_id sl, avk_raw = pk\<rparr>"
    and policy: "IDENTITY_SUITE_V1 \<in> set (iap_accepted_suites policy)"
      "ac_authority_domain claims = iap_expected_authority_domain policy"
      "as_bytes (ac_issued_at claims) \<le> as_bytes (iap_now policy)"
      "as_bytes (iap_now policy) < as_bytes (ac_expires_at claims)"
    and size: "length bs \<le> IDENTITY_MAX_BYTES"
  shows "identity_assertion_verify X keys bs policy =
    Ok \<lparr>va_subject_id = ac_subject_id claims, va_aal = assurance_level_as_str (ac_aal claims),
        va_auth_method = ac_auth_method claims, va_audience = ac_audience claims,
        va_issued_at = ac_issued_at claims, va_expires_at = ac_expires_at claims,
        va_audit_event_id = ac_audit_event_id claims\<rparr>"
proof -
  from seal obtain raw where
    sg: "\<exists>p'. sign_digest P wakes (sl_key sl) EcdsaP256Sha256
       (sha256 X (identity_message X (identity_wire_of claims [identity_component (sl_key_id sl) raw])))
       (sl_pool sl) = (Ok raw, p')"
    and bs: "bs = ext_to_vec X (sort_json (identity_full_document
       (identity_wire_of claims [identity_component (sl_key_id sl) raw])))"
    by (rule assertion_seal_Ok)
  let ?c = "identity_component (sl_key_id sl) raw" and ?doc = "identity_wire_of claims [identity_component (sl_key_id sl) raw]"
  have "ext_p256_verify X pk (identity_message X ?doc) raw"
    using sg key sign_digest_verifies(2) by auto
  then have "identity_assertion_verify X keys (ext_to_vec X (sort_json (identity_full_document ?doc))) policy =
    Ok \<lparr>va_subject_id = iw_subject_id ?doc, va_aal = iw_aal ?doc,
        va_auth_method = iw_auth_method ?doc, va_audience = iw_audience ?doc,
        va_issued_at = iw_issued_at ?doc, va_expires_at = iw_expires_at ?doc,
        va_audit_event_id = iw_audit_event_id ?doc\<rparr>"
    using size bs policy known
    by (intro identity_verify_canonical [where c = ?c and sig = raw and
          key = "\<lparr>avk_key_id = sl_key_id sl, avk_raw = pk\<rparr>"])
      (simp_all add: identity_wire_of_def identity_component_def IDENTITY_REQUIRED_COMPONENTS_V1_def)
  then show ?thesis using bs by (simp add: identity_wire_of_def)
qed

end

end
