(* ===== verification/Audit_Seal.thy ===== *)
theory Audit_Seal
  imports Identity_Assertion
begin

section \<open>The suite \<open>audit-seal/v1\<close> (\<open>crates/zs-crypto/src/audit_seal.rs\<close>)\<close>

text \<open>
  Sealing and verification of an audit event. The document carries the position of the event in
  its chain (\<open>sequence\<close>, \<open>prev_hash\<close>); the coupling of the event type with the decision it
  reports is checked on both sides; a size guard on emission keeps every sealed event below the
  bound that verification enforces. The lemmas show the round trip of every valid event, that the
  guard measures the sealed size exactly, and what acceptance implies.
\<close>

subsection \<open>Fields\<close>

definition AUDIT_SUITE_V1 :: string where
  "AUDIT_SUITE_V1 = ''audit-seal/v1''"

definition AUDIT_DOMAIN_PREFIX_V1 :: string where
  "AUDIT_DOMAIN_PREFIX_V1 = ''zero-secret/audit-seal/v1''"

definition AUDIT_MAX_BYTES :: nat where
  "AUDIT_MAX_BYTES = 8192"

definition AUDIT_REQUIRED_COMPONENTS_V1 :: "string list" where
  "AUDIT_REQUIRED_COMPONENTS_V1 = [''ecdsa-p256'']"

definition MAX_REASONS :: nat where
  "MAX_REASONS = 16"

definition AuthorityDomain_new :: "string \<Rightarrow> (string, field_error) outcome" where
  "AuthorityDomain_new = bounded_ascii_new 128 ''authority_domain''"

definition ShortText_new :: "string \<Rightarrow> (string, field_error) outcome" where
  "ShortText_new = bounded_ascii_new 256 ''text''"

definition Justification_new :: "string \<Rightarrow> (string, field_error) outcome" where
  "Justification_new = bounded_ascii_new 512 ''context.justification''"

definition PolicyVersion_new :: "string \<Rightarrow> (string, field_error) outcome" where
  "PolicyVersion_new = bounded_ascii_new 256 ''decision.policy_version''"

definition Reason_new :: "string \<Rightarrow> (string, field_error) outcome" where
  "Reason_new = bounded_ascii_new 256 ''decision.reasons''"

definition MAX_SAFE_INTEGER :: u64 where
  "MAX_SAFE_INTEGER = push_bit 53 1 - 1"

definition Sequence_new :: "u64 \<Rightarrow> (u64, field_error) outcome" where
  "Sequence_new n = (if n > MAX_SAFE_INTEGER then Err (FieldError ''sequence'') else Ok n)"

datatype audit_event_type =
    AuthenticatorRegistered
  | AuthenticatorRevoked
  | AuthenticationAttempted
  | AuthenticationSucceeded
  | AuthenticationFailed
  | RecoveryInitiated
  | QuorumOperation
  | AuditChainVerified
  | PolicyDecided
  | CredentialIssued

fun event_type_as_contract_str :: "audit_event_type \<Rightarrow> string" where
  "event_type_as_contract_str AuthenticatorRegistered = ''authenticator.registered''"
| "event_type_as_contract_str AuthenticatorRevoked = ''authenticator.revoked''"
| "event_type_as_contract_str AuthenticationAttempted = ''authentication.attempted''"
| "event_type_as_contract_str AuthenticationSucceeded = ''authentication.succeeded''"
| "event_type_as_contract_str AuthenticationFailed = ''authentication.failed''"
| "event_type_as_contract_str RecoveryInitiated = ''recovery.initiated''"
| "event_type_as_contract_str QuorumOperation = ''quorum.operation''"
| "event_type_as_contract_str AuditChainVerified = ''audit.chain_verified''"
| "event_type_as_contract_str PolicyDecided = ''policy.decided''"
| "event_type_as_contract_str CredentialIssued = ''credential.issued''"

definition event_type_from_contract_str :: "string \<Rightarrow> audit_event_type option" where
  "event_type_from_contract_str s =
     (if s = ''authenticator.registered'' then Some AuthenticatorRegistered
      else if s = ''authenticator.revoked'' then Some AuthenticatorRevoked
      else if s = ''authentication.attempted'' then Some AuthenticationAttempted
      else if s = ''authentication.succeeded'' then Some AuthenticationSucceeded
      else if s = ''authentication.failed'' then Some AuthenticationFailed
      else if s = ''recovery.initiated'' then Some RecoveryInitiated
      else if s = ''quorum.operation'' then Some QuorumOperation
      else if s = ''audit.chain_verified'' then Some AuditChainVerified
      else if s = ''policy.decided'' then Some PolicyDecided
      else if s = ''credential.issued'' then Some CredentialIssued
      else None)"

definition requires_decision :: "audit_event_type \<Rightarrow> bool" where
  "requires_decision e \<longleftrightarrow> e = PolicyDecided \<or> e = CredentialIssued"

datatype actor_kind = Human | Workload | System

fun actor_kind_as_contract_str :: "actor_kind \<Rightarrow> string" where
  "actor_kind_as_contract_str Human = ''human''"
| "actor_kind_as_contract_str Workload = ''workload''"
| "actor_kind_as_contract_str System = ''system''"

definition actor_kind_from_contract_str :: "string \<Rightarrow> actor_kind option" where
  "actor_kind_from_contract_str s =
     (if s = ''human'' then Some Human
      else if s = ''workload'' then Some Workload
      else if s = ''system'' then Some System
      else None)"

record audit_actor =
  actor_subject_id :: string
  actor_kind_of :: actor_kind
  actor_aal :: "assurance_level option"
  actor_auth_method :: "string option"

datatype audit_outcome = OutcomeSuccess | OutcomeDenied | OutcomeError

fun outcome_as_contract_str :: "audit_outcome \<Rightarrow> string" where
  "outcome_as_contract_str OutcomeSuccess = ''success''"
| "outcome_as_contract_str OutcomeDenied = ''denied''"
| "outcome_as_contract_str OutcomeError = ''error''"

definition outcome_from_contract_str :: "string \<Rightarrow> audit_outcome option" where
  "outcome_from_contract_str s =
     (if s = ''success'' then Some OutcomeSuccess
      else if s = ''denied'' then Some OutcomeDenied
      else if s = ''error'' then Some OutcomeError
      else None)"

record audit_target =
  target_type :: string
  target_id :: string

record audit_context =
  ctx_source_network :: "string option"
  ctx_ticket_ref :: "string option"
  ctx_justification :: "string option"

record decision_info =
  di_request_id :: string
  di_decision_hash :: bytes
  di_policy_version :: string
  di_reasons :: "string list"
  di_granted_ttl_seconds :: "u32 option"
  di_decision_signature :: "bytes option"
  di_decision_signature_key_id :: "string option"

record audit_event_fields =
  ev_event_id :: string
  ev_sequence :: u64
  ev_prev_hash :: bytes
  ev_occurred_at :: string
  ev_authority_domain :: string
  ev_event_type :: audit_event_type
  ev_actor :: audit_actor
  ev_target :: "audit_target option"
  ev_outcome :: audit_outcome
  ev_context :: "audit_context option"
  ev_decision :: "decision_info option"

datatype audit_seal_error = InvalidFields string | SealingUnavailable

fun audit_seal_error_from :: "field_error \<Rightarrow> audit_seal_error" where
  "audit_seal_error_from (FieldError f) = InvalidFields f"

definition audit_opaque :: "hsm_error \<Rightarrow> audit_seal_error" where
  "audit_opaque e = SealingUnavailable"

subsection \<open>The document\<close>

definition actor_value :: "audit_actor \<Rightarrow> json" where
  "actor_value actor =
     JObject
       (insert_some ''auth_method'' (map_option JString (actor_auth_method actor))
       (insert_some ''aal'' (map_option (\<lambda>a. JString (assurance_level_as_str a)) (actor_aal actor))
       (map_insert ''kind'' (JString (actor_kind_as_contract_str (actor_kind_of actor)))
       (map_insert ''subject_id'' (JString (actor_subject_id actor)) []))))"

definition target_value :: "audit_target \<Rightarrow> json" where
  "target_value t = JObject [(''type'', JString (target_type t)), (''id'', JString (target_id t))]"

definition context_value :: "audit_context \<Rightarrow> json" where
  "context_value c =
     JObject
       (insert_some ''justification'' (map_option JString (ctx_justification c))
       (insert_some ''ticket_ref'' (map_option JString (ctx_ticket_ref c))
       (insert_some ''source_network'' (map_option JString (ctx_source_network c)) [])))"

definition decision_value :: "decision_info \<Rightarrow> json" where
  "decision_value d =
     JObject
       (insert_some ''decision_signature_key_id''
          (map_option JString (di_decision_signature_key_id d))
       (insert_some ''decision_signature''
          (map_option (\<lambda>sig. JString (hex_encode sig)) (di_decision_signature d))
       (insert_some ''granted_ttl_seconds''
          (map_option (\<lambda>ttl. JNumber (PosInt (ucast ttl))) (di_granted_ttl_seconds d))
       (map_insert ''reasons'' (JArray (map JString (di_reasons d)))
       (map_insert ''policy_version'' (JString (di_policy_version d))
       (map_insert ''decision_hash'' (JString (hex_encode (di_decision_hash d)))
       (map_insert ''request_id'' (JString (di_request_id d)) [])))))))"

definition validate_decision_coupling ::
  "audit_event_type \<Rightarrow> decision_info option \<Rightarrow> (unit, audit_seal_error) outcome" where
  "validate_decision_coupling event_type decision =
     (if requires_decision event_type \<noteq> (decision \<noteq> None) then Err (InvalidFields ''decision'')
      else if (case decision of Some d \<Rightarrow> length (di_reasons d) > MAX_REASONS | None \<Rightarrow> False)
        then Err (InvalidFields ''decision.reasons'')
      else Ok ())"

definition audit_unsigned_document :: "audit_event_fields \<Rightarrow> (string \<times> json) list" where
  "audit_unsigned_document f =
     insert_some ''decision'' (map_option decision_value (ev_decision f))
     (insert_some ''context'' (map_option context_value (ev_context f))
     (map_insert ''outcome'' (JString (outcome_as_contract_str (ev_outcome f)))
     (insert_some ''target'' (map_option target_value (ev_target f))
     (map_insert ''actor'' (actor_value (ev_actor f))
     (map_insert ''event_type'' (JString (event_type_as_contract_str (ev_event_type f)))
     (map_insert ''authority_domain'' (JString (ev_authority_domain f))
     (map_insert ''occurred_at'' (JString (ev_occurred_at f))
     (map_insert ''prev_hash'' (JString (hex_encode (ev_prev_hash f)))
     (map_insert ''sequence'' (JNumber (PosInt (ev_sequence f)))
     (map_insert ''event_id'' (JString (ev_event_id f))
     (map_insert ''schema_version'' (JNumber (PosInt 1)) [])))))))))))"

definition audit_signed_message ::
  "'x zs_ext_scheme \<Rightarrow> string \<Rightarrow> (string \<times> json) list \<Rightarrow> (bytes, 'e) outcome" where
  "audit_signed_message X domain_prefix unsigned_map =
     and_then (canonical_bytes X (JObject unsigned_map)) (\<lambda>b.
       Ok (as_bytes domain_prefix @ [0x00] @ b))"

definition signature_json :: "string \<Rightarrow> wire_signature_component list \<Rightarrow> json" where
  "signature_json suite comps =
     JObject [(''suite'', JString suite), (''components'', JArray (map component_json comps))]"

definition signature_overhead_bytes :: "'x zs_ext_scheme \<Rightarrow> string \<Rightarrow> (nat, 'e) outcome" where
  "signature_overhead_bytes X key_id =
     and_then (canonical_bytes X (signature_json AUDIT_SUITE_V1
         [\<lparr>wsc_component = AUDIT_REQUIRED_COMPONENTS_V1 ! 0, wsc_key_id = key_id,
           wsc_value = replicate 128 (CHR ''0'')\<rparr>])) (\<lambda>placeholder.
       Ok (1 + 12 + length placeholder))"

definition validate_size ::
  "'x zs_ext_scheme \<Rightarrow> (string \<times> json) list \<Rightarrow> string \<Rightarrow> (unit, audit_seal_error) outcome" where
  "validate_size X unsigned_map key_id =
     and_then (canonical_bytes X (JObject unsigned_map)) (\<lambda>b.
     and_then (signature_overhead_bytes X key_id) (\<lambda>overhead.
       if length b + overhead > AUDIT_MAX_BYTES then Err (InvalidFields ''size'') else Ok ()))"

subsection \<open>Sealing\<close>

definition audit_sealer_open ::
  "'x zs_ext_scheme \<Rightarrow> 't pkcs11 \<Rightarrow> wakes \<Rightarrow> hsm_settings \<Rightarrow> 't \<Rightarrow>
     ('t sealer, audit_seal_error) outcome" where
  "audit_sealer_open X P wakes settings t =
     (let key = KeyRef_new (set_key_label settings)
      in and_then (map_err audit_opaque (fst (session_pool_open P (hsm_config_of settings) t))) (\<lambda>pool.
         case public_key P wakes key pool of
           (r, pool') \<Rightarrow> and_then (map_err audit_opaque r) (\<lambda>pk.
             Ok \<lparr>sl_pool = pool', sl_key = key, sl_key_id = key_id_from_public_key X pk\<rparr>)))"

definition audit_component :: "string \<Rightarrow> bytes \<Rightarrow> wire_signature_component" where
  "audit_component key_id signature =
     \<lparr>wsc_component = AUDIT_REQUIRED_COMPONENTS_V1 ! 0, wsc_key_id = key_id,
      wsc_value = hex_encode signature\<rparr>"

definition audit_seal ::
  "'x zs_ext_scheme \<Rightarrow> 't pkcs11 \<Rightarrow> wakes \<Rightarrow> audit_event_fields \<Rightarrow>
     ('t sealer, bytes, audit_seal_error) action" where
  "audit_seal X P wakes event sl =
     act_bind (act_lift (validate_decision_coupling (ev_event_type event) (ev_decision event))) (\<lambda>_.
       let unsigned_map = audit_unsigned_document event
       in act_bind (act_lift (validate_size X unsigned_map (sl_key_id sl))) (\<lambda>_.
          act_bind (act_lift (audit_signed_message X AUDIT_DOMAIN_PREFIX_V1 unsigned_map)) (\<lambda>message.
          act_bind (act_map_err audit_opaque
              (with_pool (sign_digest P wakes (sl_key sl) EcdsaP256Sha256 (sha256 X message)))) (\<lambda>signature.
            act_lift (canonical_bytes X (JObject
              (map_insert ''signature''
                (signature_json AUDIT_SUITE_V1 [audit_component (sl_key_id sl) signature])
                unsigned_map))))))) sl"

subsection \<open>Verification\<close>

datatype audit_verify_error =
    AuUnknownSuite | AuMalformedKey | AuTooLarge | AuMalformedDocument | AuNonCanonical
  | AuInvalidSignatureArity | AuUnknownKeyId | AuInvalidSignature | AuUnexpectedAuthorityDomain

definition audit_accept_verifying_key ::
  "string \<Rightarrow> string \<Rightarrow> bytes \<Rightarrow> (accepted_verifying_key, audit_verify_error) outcome" where
  "audit_accept_verifying_key suite key_id sec1_uncompressed =
     (if suite \<noteq> AUDIT_SUITE_V1 then Err AuUnknownSuite
      else if length sec1_uncompressed \<noteq> 65 \<or> sec1_uncompressed ! 0 \<noteq> 0x04 then Err AuMalformedKey
      else Ok \<lparr>avk_key_id = key_id, avk_raw = sec1_uncompressed\<rparr>)"

record audit_acceptance_policy =
  aap_accepted_suites :: "string list"
  aap_expected_authority_domain :: string

record verified_audit_event =
  ve_event_id :: string
  ve_sequence :: u64
  ve_prev_hash :: bytes
  ve_occurred_at :: string
  ve_authority_domain :: string
  ve_event_type :: audit_event_type

record wire_actor =
  wa_subject_id :: string
  wa_kind :: string
  wa_aal :: "string option"
  wa_auth_method :: "string option"

record wire_target =
  wt_target_type :: string
  wt_id :: string

record wire_context =
  wx_source_network :: "string option"
  wx_ticket_ref :: "string option"
  wx_justification :: "string option"

record wire_decision =
  wd_request_id :: string
  wd_decision_hash :: string
  wd_policy_version :: string
  wd_reasons :: "string list"
  wd_granted_ttl_seconds :: "u64 option"
  wd_decision_signature :: "string option"
  wd_decision_signature_key_id :: "string option"

record wire_signature =
  ws_suite :: string
  ws_components :: "wire_signature_component list"

record audit_wire_document =
  aw_schema_version :: u32
  aw_event_id :: string
  aw_sequence :: u64
  aw_occurred_at :: string
  aw_authority_domain :: string
  aw_event_type :: string
  aw_actor :: wire_actor
  aw_target :: "wire_target option"
  aw_outcome :: string
  aw_context :: "wire_context option"
  aw_decision :: "wire_decision option"
  aw_prev_hash :: string
  aw_signature :: wire_signature

definition de_wire_actor :: "json \<Rightarrow> wire_actor option" where
  "de_wire_actor j =
     Option.bind (struct_fields True [''subject_id'', ''kind'', ''aal'', ''auth_method''] j) (\<lambda>m.
     Option.bind (req_field m ''subject_id'' de_string) (\<lambda>subject_id.
     Option.bind (req_field m ''kind'' de_string) (\<lambda>kind.
     Option.bind (opt_field m ''aal'' de_string) (\<lambda>aal.
     Option.bind (opt_field m ''auth_method'' de_string) (\<lambda>auth_method.
       Some \<lparr>wa_subject_id = subject_id, wa_kind = kind, wa_aal = aal,
             wa_auth_method = auth_method\<rparr>)))))"

definition de_wire_target :: "json \<Rightarrow> wire_target option" where
  "de_wire_target j =
     Option.bind (struct_fields True [''type'', ''id''] j) (\<lambda>m.
     Option.bind (req_field m ''type'' de_string) (\<lambda>target_type.
     Option.bind (req_field m ''id'' de_string) (\<lambda>i.
       Some \<lparr>wt_target_type = target_type, wt_id = i\<rparr>)))"

definition de_wire_context :: "json \<Rightarrow> wire_context option" where
  "de_wire_context j =
     Option.bind (struct_fields True [''source_network'', ''ticket_ref'', ''justification''] j) (\<lambda>m.
     Option.bind (opt_field m ''source_network'' de_string) (\<lambda>source_network.
     Option.bind (opt_field m ''ticket_ref'' de_string) (\<lambda>ticket_ref.
     Option.bind (opt_field m ''justification'' de_string) (\<lambda>justification.
       Some \<lparr>wx_source_network = source_network, wx_ticket_ref = ticket_ref,
             wx_justification = justification\<rparr>))))"

definition de_wire_decision :: "json \<Rightarrow> wire_decision option" where
  "de_wire_decision j =
     Option.bind (struct_fields True [''request_id'', ''decision_hash'', ''policy_version'', ''reasons'',
       ''granted_ttl_seconds'', ''decision_signature'', ''decision_signature_key_id''] j) (\<lambda>m.
     Option.bind (req_field m ''request_id'' de_string) (\<lambda>request_id.
     Option.bind (req_field m ''decision_hash'' de_string) (\<lambda>decision_hash.
     Option.bind (req_field m ''policy_version'' de_string) (\<lambda>policy_version.
     Option.bind (req_field m ''reasons'' (de_vec de_string)) (\<lambda>reasons.
     Option.bind (opt_field m ''granted_ttl_seconds'' de_u64) (\<lambda>ttl.
     Option.bind (opt_field m ''decision_signature'' de_string) (\<lambda>sig.
     Option.bind (opt_field m ''decision_signature_key_id'' de_string) (\<lambda>key_id.
       Some \<lparr>wd_request_id = request_id, wd_decision_hash = decision_hash,
             wd_policy_version = policy_version, wd_reasons = reasons,
             wd_granted_ttl_seconds = ttl, wd_decision_signature = sig,
             wd_decision_signature_key_id = key_id\<rparr>))))))))"

definition de_wire_signature :: "json \<Rightarrow> wire_signature option" where
  "de_wire_signature j =
     Option.bind (struct_fields True [''suite'', ''components''] j) (\<lambda>m.
     Option.bind (req_field m ''suite'' de_string) (\<lambda>suite.
     Option.bind (req_field m ''components'' (de_vec de_wire_component)) (\<lambda>comps.
       Some \<lparr>ws_suite = suite, ws_components = comps\<rparr>)))"

definition audit_wire_fields :: "string list" where
  "audit_wire_fields =
     [''schema_version'', ''event_id'', ''sequence'', ''occurred_at'', ''authority_domain'',
      ''event_type'', ''actor'', ''target'', ''outcome'', ''context'', ''decision'', ''prev_hash'',
      ''signature'']"

definition de_audit_wire_document :: "json \<Rightarrow> audit_wire_document option" where
  "de_audit_wire_document j =
     Option.bind (struct_fields True audit_wire_fields j) (\<lambda>m.
     Option.bind (req_field m ''schema_version'' de_u32) (\<lambda>version.
     Option.bind (req_field m ''event_id'' de_string) (\<lambda>event_id.
     Option.bind (req_field m ''sequence'' de_u64) (\<lambda>sequence.
     Option.bind (req_field m ''occurred_at'' de_string) (\<lambda>occurred_at.
     Option.bind (req_field m ''authority_domain'' de_string) (\<lambda>authority_domain.
     Option.bind (req_field m ''event_type'' de_string) (\<lambda>event_type.
     Option.bind (req_field m ''actor'' de_wire_actor) (\<lambda>actor.
     Option.bind (opt_field m ''target'' de_wire_target) (\<lambda>target.
     Option.bind (req_field m ''outcome'' de_string) (\<lambda>outc.
     Option.bind (opt_field m ''context'' de_wire_context) (\<lambda>ctx.
     Option.bind (opt_field m ''decision'' de_wire_decision) (\<lambda>decision.
     Option.bind (req_field m ''prev_hash'' de_string) (\<lambda>prev_hash.
     Option.bind (req_field m ''signature'' de_wire_signature) (\<lambda>signature.
       Some \<lparr>aw_schema_version = version, aw_event_id = event_id, aw_sequence = sequence,
             aw_occurred_at = occurred_at, aw_authority_domain = authority_domain,
             aw_event_type = event_type, aw_actor = actor, aw_target = target, aw_outcome = outc,
             aw_context = ctx, aw_decision = decision, aw_prev_hash = prev_hash,
             aw_signature = signature\<rparr>))))))))))))))"

text \<open>The parts of \<open>unsigned_document_from_wire\<close>, then the whole of it.\<close>

definition wire_actor_value :: "wire_actor \<Rightarrow> json" where
  "wire_actor_value a =
     JObject
       (insert_some ''auth_method'' (map_option JString (wa_auth_method a))
       (insert_some ''aal'' (map_option JString (wa_aal a))
       (map_insert ''kind'' (JString (wa_kind a))
       (map_insert ''subject_id'' (JString (wa_subject_id a)) []))))"

definition wire_target_value :: "wire_target \<Rightarrow> json" where
  "wire_target_value t = JObject [(''type'', JString (wt_target_type t)), (''id'', JString (wt_id t))]"

definition wire_context_value :: "wire_context \<Rightarrow> json" where
  "wire_context_value c =
     JObject
       (insert_some ''justification'' (map_option JString (wx_justification c))
       (insert_some ''ticket_ref'' (map_option JString (wx_ticket_ref c))
       (insert_some ''source_network'' (map_option JString (wx_source_network c)) [])))"

definition wire_decision_value :: "wire_decision \<Rightarrow> json" where
  "wire_decision_value d =
     JObject
       (insert_some ''decision_signature_key_id''
          (map_option JString (wd_decision_signature_key_id d))
       (insert_some ''decision_signature'' (map_option JString (wd_decision_signature d))
       (insert_some ''granted_ttl_seconds''
          (map_option (\<lambda>v. JNumber (PosInt v)) (wd_granted_ttl_seconds d))
       (map_insert ''reasons'' (JArray (map JString (wd_reasons d)))
       (map_insert ''policy_version'' (JString (wd_policy_version d))
       (map_insert ''decision_hash'' (JString (wd_decision_hash d))
       (map_insert ''request_id'' (JString (wd_request_id d)) [])))))))"

definition audit_unsigned_document_from_wire :: "audit_wire_document \<Rightarrow> (string \<times> json) list" where
  "audit_unsigned_document_from_wire doc =
     insert_some ''decision'' (map_option wire_decision_value (aw_decision doc))
     (insert_some ''context'' (map_option wire_context_value (aw_context doc))
     (map_insert ''outcome'' (JString (aw_outcome doc))
     (insert_some ''target'' (map_option wire_target_value (aw_target doc))
     (map_insert ''actor'' (wire_actor_value (aw_actor doc))
     (map_insert ''event_type'' (JString (aw_event_type doc))
     (map_insert ''authority_domain'' (JString (aw_authority_domain doc))
     (map_insert ''occurred_at'' (JString (aw_occurred_at doc))
     (map_insert ''prev_hash'' (JString (aw_prev_hash doc))
     (map_insert ''sequence'' (JNumber (PosInt (aw_sequence doc)))
     (map_insert ''event_id'' (JString (aw_event_id doc))
     (map_insert ''schema_version'' (JNumber (PosInt (ucast (aw_schema_version doc)))) [])))))))))))"

definition audit_full_document :: "audit_wire_document \<Rightarrow> json" where
  "audit_full_document doc =
     JObject (map_insert ''signature''
       (signature_json (ws_suite (aw_signature doc)) (ws_components (aw_signature doc)))
       (audit_unsigned_document_from_wire doc))"

definition audit_required_components :: "string \<Rightarrow> (string list, audit_verify_error) outcome" where
  "audit_required_components suite =
     (if suite = AUDIT_SUITE_V1 then Ok AUDIT_REQUIRED_COMPONENTS_V1 else Err AuUnknownSuite)"

definition domain_prefix_for :: "string \<Rightarrow> (string, audit_verify_error) outcome" where
  "domain_prefix_for suite =
     (if suite = AUDIT_SUITE_V1 then Ok AUDIT_DOMAIN_PREFIX_V1 else Err AuUnknownSuite)"

text \<open>The checks on an embedded decision, then \<open>verify\<close> in the order of the source.\<close>

definition check_wire_decision :: "wire_decision option \<Rightarrow> (unit, audit_verify_error) outcome" where
  "check_wire_decision decision =
     (case decision of
        None \<Rightarrow> Ok ()
      | Some d \<Rightarrow>
          if length (wd_reasons d) > MAX_REASONS then Err AuMalformedDocument
          else and_then (ok_or AuMalformedDocument (hex_decode (wd_decision_hash d))) (\<lambda>h.
            if length h \<noteq> 32 then Err AuMalformedDocument else Ok ()))"

definition audit_seal_verify ::
  "'x zs_ext_scheme \<Rightarrow> accepted_verifying_key list \<Rightarrow> bytes \<Rightarrow> audit_acceptance_policy \<Rightarrow>
     (verified_audit_event, audit_verify_error) outcome" where
  "audit_seal_verify X keys bs policy =
     (if length bs > AUDIT_MAX_BYTES then Err AuTooLarge
      else and_then (ok_or AuMalformedDocument
             (Option.bind (ext_from_slice X bs) de_audit_wire_document)) (\<lambda>doc.
      if aw_schema_version doc \<noteq> 1 then Err AuMalformedDocument
      else if ws_suite (aw_signature doc) \<notin> set (aap_accepted_suites policy) then Err AuUnknownSuite
      else and_then (ok_or AuMalformedDocument (event_type_from_contract_str (aw_event_type doc))) (\<lambda>event_type.
      and_then (ok_or AuMalformedDocument (actor_kind_from_contract_str (wa_kind (aw_actor doc)))) (\<lambda>_.
      and_then (ok_or AuMalformedDocument (outcome_from_contract_str (aw_outcome doc))) (\<lambda>_.
      if requires_decision event_type \<noteq> (aw_decision doc \<noteq> None) then Err AuMalformedDocument
      else and_then (check_wire_decision (aw_decision doc)) (\<lambda>_.
      and_then (audit_required_components (ws_suite (aw_signature doc))) (\<lambda>required.
      if \<not> components_match required (ws_components (aw_signature doc)) then Err AuInvalidSignatureArity
      else and_then (canonical_bytes X (audit_full_document doc)) (\<lambda>canonical.
      if canonical \<noteq> bs then Err AuNonCanonical
      else and_then (domain_prefix_for (ws_suite (aw_signature doc))) (\<lambda>domain_prefix.
      and_then (audit_signed_message X domain_prefix (audit_unsigned_document_from_wire doc)) (\<lambda>message.
      and_then (check_components X AuUnknownKeyId AuInvalidSignature keys message True
                  (ws_components (aw_signature doc))) (\<lambda>all_valid.
      if \<not> all_valid then Err AuInvalidSignature
      else if aw_authority_domain doc \<noteq> aap_expected_authority_domain policy
        then Err AuUnexpectedAuthorityDomain
      else and_then (ok_or AuMalformedDocument (hex_decode (aw_prev_hash doc))) (\<lambda>prev_hash.
      if length prev_hash \<noteq> 32 then Err AuMalformedDocument
      else Ok \<lparr>ve_event_id = aw_event_id doc, ve_sequence = aw_sequence doc,
               ve_prev_hash = prev_hash, ve_occurred_at = aw_occurred_at doc,
               ve_authority_domain = aw_authority_domain doc,
               ve_event_type = event_type\<rparr>))))))))))))"

section \<open>Properties of the suite\<close>

subsection \<open>Reading back a document\<close>

lemma de_wire_actor_sorted: "de_wire_actor (sort_json (wire_actor_value a)) = Some a"
  unfolding de_wire_actor_def wire_actor_value_def
  apply (subst struct_fields_sorted)
    apply (intro distinct_inserts)
   apply (intro keys_subset; simp)
  apply (simp add: document_simps opt_field_sorted_map [where f = JString])
  done

lemma de_wire_target_sorted: "de_wire_target (sort_json (wire_target_value t)) = Some t"
  unfolding de_wire_target_def wire_target_value_def
  by (subst struct_fields_sorted) simp_all

lemma de_wire_context_sorted: "de_wire_context (sort_json (wire_context_value c)) = Some c"
  unfolding de_wire_context_def wire_context_value_def
  apply (subst struct_fields_sorted)
    apply (intro distinct_inserts)
   apply (intro keys_subset; simp)
  apply (simp add: document_simps opt_field_sorted_map [where f = JString])
  done

lemma de_vec_strings_sorted [simp]: "de_vec de_string (sort_json (JArray (map JString ss))) = Some ss"
  by (simp add: comp_def)

lemma de_wire_decision_sorted: "de_wire_decision (sort_json (wire_decision_value d)) = Some d"
  unfolding de_wire_decision_def wire_decision_value_def
  apply (subst struct_fields_sorted)
    apply (intro distinct_inserts)
   apply (intro keys_subset; simp)
  apply (simp add: document_simps opt_field_sorted_map [where f = JString]
      opt_field_sorted_map [where f = "\<lambda>v. JNumber (PosInt v)"] del: sort_json.simps(2) de_vec.simps)
  done

lemma de_wire_signature_sorted:
  "de_wire_signature (sort_json (signature_json suite comps)) = Some \<lparr>ws_suite = suite, ws_components = comps\<rparr>"
  unfolding de_wire_signature_def signature_json_def
  by (subst struct_fields_sorted) (simp_all del: sort_json.simps(2) de_vec.simps)

lemma wire_values_not_null [simp]:
  "wire_target_value t \<noteq> JNull" "wire_context_value c \<noteq> JNull" "wire_decision_value d \<noteq> JNull"
  by (simp_all add: wire_target_value_def wire_context_value_def wire_decision_value_def)

lemma de_audit_wire_document_sorted:
  "de_audit_wire_document (sort_json (audit_full_document doc)) = Some doc"
  unfolding de_audit_wire_document_def audit_full_document_def audit_unsigned_document_from_wire_def
  apply (subst struct_fields_sorted)
    apply (intro distinct_inserts)
   apply (intro keys_subset; simp add: audit_wire_fields_def)
  apply (simp add: document_simps de_u32_ucast de_wire_actor_sorted de_wire_signature_sorted
      opt_field_sorted_map [where f = wire_target_value] de_wire_target_sorted
      opt_field_sorted_map [where f = wire_context_value] de_wire_context_sorted
      opt_field_sorted_map [where f = wire_decision_value] de_wire_decision_sorted del: de_u32.simps)
  done

subsection \<open>Well-formedness\<close>

lemma wire_values_wf:
  "json_wf (wire_actor_value a) \<and> json_depth (wire_actor_value a) \<le> 1"
  "json_wf (wire_target_value t) \<and> json_depth (wire_target_value t) \<le> 1"
  "json_wf (wire_context_value c) \<and> json_depth (wire_context_value c) \<le> 1"
proof -
  have "values_ok 0 (insert_some ''auth_method'' (map_option JString (wa_auth_method a))
       (insert_some ''aal'' (map_option JString (wa_aal a))
       (map_insert ''kind'' (JString (wa_kind a))
       (map_insert ''subject_id'' (JString (wa_subject_id a)) []))))"
    by (intro values_ok_insert_some values_ok_map_insert) auto
  from values_ok_object [OF this] show "json_wf (wire_actor_value a) \<and> json_depth (wire_actor_value a) \<le> 1"
    by (simp add: wire_actor_value_def)
  show "json_wf (wire_target_value t) \<and> json_depth (wire_target_value t) \<le> 1"
    by (simp add: wire_target_value_def)
  have "values_ok 0 (insert_some ''justification'' (map_option JString (wx_justification c))
       (insert_some ''ticket_ref'' (map_option JString (wx_ticket_ref c))
       (insert_some ''source_network'' (map_option JString (wx_source_network c)) [])))"
    by (intro values_ok_insert_some) auto
  from values_ok_object [OF this] show "json_wf (wire_context_value c) \<and> json_depth (wire_context_value c) \<le> 1"
    by (simp add: wire_context_value_def)
qed

lemma wire_decision_value_wf:
  "json_wf (wire_decision_value d) \<and> json_depth (wire_decision_value d) \<le> 2"
proof -
  have "values_ok 1 (insert_some ''decision_signature_key_id''
          (map_option JString (wd_decision_signature_key_id d))
       (insert_some ''decision_signature'' (map_option JString (wd_decision_signature d))
       (insert_some ''granted_ttl_seconds''
          (map_option (\<lambda>v. JNumber (PosInt v)) (wd_granted_ttl_seconds d))
       (map_insert ''reasons'' (JArray (map JString (wd_reasons d)))
       (map_insert ''policy_version'' (JString (wd_policy_version d))
       (map_insert ''decision_hash'' (JString (wd_decision_hash d))
       (map_insert ''request_id'' (JString (wd_request_id d)) [])))))))"
    by (intro values_ok_insert_some values_ok_map_insert json_array_strings) auto
  from values_ok_object [OF this] show ?thesis by (simp add: wire_decision_value_def)
qed

lemma signature_json_wf:
  "json_wf (signature_json suite comps)" "json_depth (signature_json suite comps) \<le> 3"
proof -
  have "Max (insert 0 ((\<lambda>x. json_depth (component_json x)) ` set comps)) \<le> 1"
    by (rule Max_insert_0_const) auto
  then show "json_depth (signature_json suite comps) \<le> 3"
    by (simp add: signature_json_def image_image)
qed (simp add: signature_json_def list_all_iff)

lemma audit_unsigned_values_ok: "values_ok 2 (audit_unsigned_document_from_wire doc)"
  unfolding audit_unsigned_document_from_wire_def
  using wire_values_wf wire_decision_value_wf le_trans [OF _ one_le_numeral]
  by (intro values_ok_insert_some values_ok_map_insert) auto

lemma audit_full_document_wf:
  "json_wf (audit_full_document doc)" "json_depth (audit_full_document doc) \<le> 127"
proof -
  have "values_ok 3 (audit_unsigned_document_from_wire doc)"
    using audit_unsigned_values_ok [of doc] by (auto simp: values_ok_def)
  then have "values_ok 3 (map_insert ''signature''
       (signature_json (ws_suite (aw_signature doc)) (ws_components (aw_signature doc)))
       (audit_unsigned_document_from_wire doc))"
    by (intro values_ok_map_insert signature_json_wf)
  from values_ok_object [OF this] have "json_wf (audit_full_document doc)"
    "json_depth (audit_full_document doc) \<le> 4" by (simp_all add: audit_full_document_def)
  then show "json_wf (audit_full_document doc)" "json_depth (audit_full_document doc) \<le> 127"
    by simp_all
qed

lemma audit_canonical:
  "canonical_bytes X (audit_full_document doc) = Ok (ext_to_vec X (sort_json (audit_full_document doc)))"
  using json_wf_no_float [OF audit_full_document_wf(1)] by (simp add: canonical_bytes_eq)

lemma audit_unsigned_canonical:
  "canonical_bytes X (JObject (audit_unsigned_document_from_wire doc)) =
     Ok (ext_to_vec X (sort_json (JObject (audit_unsigned_document_from_wire doc))))"
  using json_wf_no_float [OF values_ok_object(1) [OF audit_unsigned_values_ok]]
  by (simp only: canonical_bytes_eq if_False)

text \<open>The bytes signed for a document.\<close>

definition audit_message :: "'x zs_ext_scheme \<Rightarrow> audit_wire_document \<Rightarrow> bytes" where
  "audit_message X doc = as_bytes AUDIT_DOMAIN_PREFIX_V1 @ [0] @
     ext_to_vec X (sort_json (JObject (audit_unsigned_document_from_wire doc)))"

lemma audit_message_eq:
  "audit_signed_message X AUDIT_DOMAIN_PREFIX_V1 (audit_unsigned_document_from_wire doc) =
     Ok (audit_message X doc)"
  by (simp only: audit_signed_message_def audit_unsigned_canonical audit_message_def and_then.simps)

subsection \<open>The wire form of an event\<close>

definition wire_decision_of :: "decision_info \<Rightarrow> wire_decision" where
  "wire_decision_of d =
     \<lparr>wd_request_id = di_request_id d, wd_decision_hash = hex_encode (di_decision_hash d),
      wd_policy_version = di_policy_version d, wd_reasons = di_reasons d,
      wd_granted_ttl_seconds = map_option ucast (di_granted_ttl_seconds d),
      wd_decision_signature = map_option hex_encode (di_decision_signature d),
      wd_decision_signature_key_id = di_decision_signature_key_id d\<rparr>"

definition audit_wire_of :: "audit_event_fields \<Rightarrow> wire_signature_component list \<Rightarrow> audit_wire_document" where
  "audit_wire_of e comps =
     \<lparr>aw_schema_version = 1, aw_event_id = ev_event_id e, aw_sequence = ev_sequence e,
      aw_occurred_at = ev_occurred_at e, aw_authority_domain = ev_authority_domain e,
      aw_event_type = event_type_as_contract_str (ev_event_type e),
      aw_actor =
        \<lparr>wa_subject_id = actor_subject_id (ev_actor e),
         wa_kind = actor_kind_as_contract_str (actor_kind_of (ev_actor e)),
         wa_aal = map_option assurance_level_as_str (actor_aal (ev_actor e)),
         wa_auth_method = actor_auth_method (ev_actor e)\<rparr>,
      aw_target = map_option (\<lambda>t. \<lparr>wt_target_type = target_type t, wt_id = target_id t\<rparr>) (ev_target e),
      aw_outcome = outcome_as_contract_str (ev_outcome e),
      aw_context = map_option (\<lambda>c. \<lparr>wx_source_network = ctx_source_network c,
        wx_ticket_ref = ctx_ticket_ref c, wx_justification = ctx_justification c\<rparr>) (ev_context e),
      aw_decision = map_option wire_decision_of (ev_decision e),
      aw_prev_hash = hex_encode (ev_prev_hash e),
      aw_signature = \<lparr>ws_suite = AUDIT_SUITE_V1, ws_components = comps\<rparr>\<rparr>"

lemma audit_unsigned_document_wire:
  "audit_unsigned_document e = audit_unsigned_document_from_wire (audit_wire_of e comps)"
  by (simp add: audit_unsigned_document_def audit_unsigned_document_from_wire_def audit_wire_of_def
      actor_value_def wire_actor_value_def option.map_comp comp_def target_value_def [abs_def]
      wire_target_value_def context_value_def [abs_def] wire_context_value_def
      decision_value_def [abs_def] wire_decision_value_def wire_decision_of_def)

lemma audit_full_document_wire:
  "JObject (map_insert ''signature'' (signature_json AUDIT_SUITE_V1 comps) (audit_unsigned_document e)) =
     audit_full_document (audit_wire_of e comps)"
  unfolding audit_full_document_def audit_unsigned_document_wire [of e comps]
  by (simp add: audit_wire_of_def)

lemma audit_message_wire: "audit_message X (audit_wire_of e comps) = audit_message X (audit_wire_of e comps')"
  by (simp add: audit_message_def flip: audit_unsigned_document_wire)

lemma event_type_contract [simp]: "event_type_from_contract_str (event_type_as_contract_str e) = Some e"
  by (cases e) (simp_all add: event_type_from_contract_str_def)

lemma actor_kind_contract [simp]: "actor_kind_from_contract_str (actor_kind_as_contract_str k) = Some k"
  by (cases k) (simp_all add: actor_kind_from_contract_str_def)

lemma outcome_contract [simp]: "outcome_from_contract_str (outcome_as_contract_str r) = Some r"
  by (cases r) (simp_all add: outcome_from_contract_str_def)

subsection \<open>The size guard\<close>

context zs_libraries
begin

lemma plain_literals [simp]:
  "plain_string ''component''" "plain_string ''key_id''" "plain_string ''value''" "plain_string ''signature''"
  by (simp_all add: plain_string_def plain_char_def)

lemma length_signature_json:
  assumes "plain_string (wsc_value c)" and "plain_string (wsc_value d)"
    and "length (wsc_value c) = length (wsc_value d)"
    and "wsc_component c = wsc_component d" and "wsc_key_id c = wsc_key_id d"
  shows "length (ext_to_vec X (sort_json (signature_json s [c]))) =
    length (ext_to_vec X (sort_json (signature_json s [d])))"
proof -
  have "length (ext_to_vec X (sort_json (component_json c))) = length (ext_to_vec X (sort_json (component_json d)))"
    unfolding component_json_def length_sorted_object
    using assms by (simp add: serde_json.length_to_vec_plain [OF json_laws])
  then have "length (ext_to_vec X (JArray [sort_json (component_json c)])) =
      length (ext_to_vec X (JArray [sort_json (component_json d)]))"
    by (simp add: serde_json.to_vec_array [OF json_laws])
  then show ?thesis unfolding signature_json_def length_sorted_object by simp
qed

lemma signature_overhead_eq:
  assumes "length raw = 64"
  shows "signature_overhead_bytes X key_id =
    Ok (13 + length (ext_to_vec X (sort_json (signature_json AUDIT_SUITE_V1 [audit_component key_id raw]))))"
proof -
  let ?p = "\<lparr>wsc_component = AUDIT_REQUIRED_COMPONENTS_V1 ! 0, wsc_key_id = key_id,
           wsc_value = replicate 128 (CHR ''0'')\<rparr>"
  have "plain_string (replicate 128 (CHR ''0''))"
    by (simp add: plain_string_def plain_char_def list_all_iff)
  then have "length (ext_to_vec X (sort_json (signature_json AUDIT_SUITE_V1 [?p]))) =
      length (ext_to_vec X (sort_json (signature_json AUDIT_SUITE_V1 [audit_component key_id raw])))"
    using assms by (intro length_signature_json) (simp_all add: audit_component_def)
  then show ?thesis
    using json_wf_no_float [OF signature_json_wf(1)]
    by (simp add: signature_overhead_bytes_def canonical_bytes_eq)
qed

lemma audit_unsigned_keys:
  "''signature'' \<notin> fst ` set (audit_unsigned_document_from_wire doc)"
  "audit_unsigned_document_from_wire doc \<noteq> []"
proof -
  have "map_of (audit_unsigned_document_from_wire doc) ''signature'' = None"
    by (simp add: audit_unsigned_document_from_wire_def document_simps)
  then show "''signature'' \<notin> fst ` set (audit_unsigned_document_from_wire doc)"
    by (simp add: map_of_eq_None_iff)
  have "map_of (audit_unsigned_document_from_wire doc) ''outcome'' \<noteq> None"
    by (simp add: audit_unsigned_document_from_wire_def document_simps)
  then show "audit_unsigned_document_from_wire doc \<noteq> []" by auto
qed

text \<open>The size of the sealed document is what the guard computes: unsigned size plus overhead.\<close>

lemma length_audit_full_document:
  "length (ext_to_vec X (sort_json (audit_full_document doc))) =
     length (ext_to_vec X (sort_json (JObject (audit_unsigned_document_from_wire doc)))) + 13 +
     length (ext_to_vec X (sort_json (signature_json (ws_suite (aw_signature doc)) (ws_components (aw_signature doc)))))"
  unfolding audit_full_document_def length_sorted_insert [OF audit_unsigned_keys]
  by (simp add: serde_json.length_to_vec_plain [OF json_laws] del: sort_json.simps(1))

end

subsection \<open>What sealing does\<close>

lemma audit_seal_Ok:
  assumes "audit_seal X P wakes e sl = (Ok bs, sl')"
  obtains raw where
    "validate_decision_coupling (ev_event_type e) (ev_decision e) = Ok ()"
    "validate_size X (audit_unsigned_document e) (sl_key_id sl) = Ok ()"
    "\<exists>p'. sign_digest P wakes (sl_key sl) EcdsaP256Sha256
       (sha256 X (audit_message X (audit_wire_of e [audit_component (sl_key_id sl) raw])))
       (sl_pool sl) = (Ok raw, p')"
    "bs = ext_to_vec X (sort_json (audit_full_document
       (audit_wire_of e [audit_component (sl_key_id sl) raw])))"
proof -
  have msg: "audit_signed_message X AUDIT_DOMAIN_PREFIX_V1 (audit_unsigned_document e) =
      (Ok (audit_message X (audit_wire_of e comps)) :: (bytes, audit_seal_error) outcome)" for comps
    unfolding audit_unsigned_document_wire [of e comps] by (rule audit_message_eq)
  from assms obtain raw p' where
    v: "validate_decision_coupling (ev_event_type e) (ev_decision e) = Ok ()"
      "validate_size X (audit_unsigned_document e) (sl_key_id sl) = Ok ()"
    and sign: "sign_digest P wakes (sl_key sl) EcdsaP256Sha256
       (sha256 X (audit_message X (audit_wire_of e []))) (sl_pool sl) = (Ok raw, p')"
    and can: "canonical_bytes X (JObject (map_insert ''signature''
        (signature_json AUDIT_SUITE_V1 [audit_component (sl_key_id sl) raw])
        (audit_unsigned_document e))) = (Ok bs :: (bytes, audit_seal_error) outcome)"
    unfolding audit_seal_def Let_def msg [of "[]"] by (auto simp: outcome_simps)
  have "bs = ext_to_vec X (sort_json (audit_full_document
       (audit_wire_of e [audit_component (sl_key_id sl) raw])))"
    using can unfolding audit_full_document_wire audit_canonical by simp
  with v sign show ?thesis
    using that [of raw] audit_message_wire [of X e "[]" "[audit_component (sl_key_id sl) raw]"] by metis
qed

context signing_key
begin

lemma audit_seal_size:
  assumes seal: "audit_seal X P wakes e sl = (Ok bs, sl')"
    and key: "sl_key sl = \<lparr>key_ref_label = label\<rparr>"
  shows "length bs \<le> AUDIT_MAX_BYTES"
proof -
  from seal obtain raw where
    size: "validate_size X (audit_unsigned_document e) (sl_key_id sl) = Ok ()"
    and sg: "\<exists>p'. sign_digest P wakes (sl_key sl) EcdsaP256Sha256
       (sha256 X (audit_message X (audit_wire_of e [audit_component (sl_key_id sl) raw])))
       (sl_pool sl) = (Ok raw, p')"
    and bs: "bs = ext_to_vec X (sort_json (audit_full_document
       (audit_wire_of e [audit_component (sl_key_id sl) raw])))"
    by (rule audit_seal_Ok)
  let ?doc = "audit_wire_of e [audit_component (sl_key_id sl) raw]"
  have raw: "length raw = 64" using sg key sign_digest_verifies(1) by auto
  have "length (ext_to_vec X (sort_json (JObject (audit_unsigned_document_from_wire ?doc)))) + 13 +
      length (ext_to_vec X (sort_json (signature_json AUDIT_SUITE_V1 [audit_component (sl_key_id sl) raw])))
      \<le> AUDIT_MAX_BYTES"
    using size unfolding validate_size_def audit_unsigned_document_wire [of e "[audit_component (sl_key_id sl) raw]"]
      audit_unsigned_canonical signature_overhead_eq [OF raw]
    by (simp add: not_less split: if_splits)
  then show ?thesis unfolding bs length_audit_full_document by (simp add: audit_wire_of_def)
qed

end

subsection \<open>What verification accepts\<close>

lemma audit_seal_verify_not_Panic: "audit_seal_verify X keys bs policy \<noteq> Panic"
  by (auto simp: audit_seal_verify_def outcome_simps audit_canonical audit_message_eq
      audit_required_components_def domain_prefix_for_def check_wire_decision_def
      check_components_not_Panic split: if_splits option.splits)

definition audit_verified_of :: "audit_wire_document \<Rightarrow> audit_event_type \<Rightarrow> bytes \<Rightarrow> verified_audit_event" where
  "audit_verified_of doc event_type prev_hash =
     \<lparr>ve_event_id = aw_event_id doc, ve_sequence = aw_sequence doc, ve_prev_hash = prev_hash,
      ve_occurred_at = aw_occurred_at doc, ve_authority_domain = aw_authority_domain doc,
      ve_event_type = event_type\<rparr>"

text \<open>The conditions under which a parsed document is accepted, in one predicate.\<close>

definition audit_doc_accepted ::
  "'x zs_ext_scheme \<Rightarrow> accepted_verifying_key list \<Rightarrow> audit_acceptance_policy \<Rightarrow> audit_wire_document \<Rightarrow>
     audit_event_type \<Rightarrow> bytes \<Rightarrow> bool" where
  "audit_doc_accepted X keys policy doc event_type prev_hash \<longleftrightarrow>
     aw_schema_version doc = 1 \<and> ws_suite (aw_signature doc) = AUDIT_SUITE_V1 \<and>
     AUDIT_SUITE_V1 \<in> set (aap_accepted_suites policy) \<and>
     event_type_from_contract_str (aw_event_type doc) = Some event_type \<and>
     actor_kind_from_contract_str (wa_kind (aw_actor doc)) \<noteq> None \<and>
     outcome_from_contract_str (aw_outcome doc) \<noteq> None \<and>
     requires_decision event_type = (aw_decision doc \<noteq> None) \<and>
     check_wire_decision (aw_decision doc) = Ok () \<and>
     (\<exists>c key sig. ws_components (aw_signature doc) = [c] \<and> wsc_component c = ''ecdsa-p256'' \<and>
        find (\<lambda>k. avk_key_id k = wsc_key_id c) keys = Some key \<and>
        hex_decode (wsc_value c) = Some sig \<and>
        ext_p256_verify X (avk_raw key) (audit_message X doc) sig) \<and>
     aw_authority_domain doc = aap_expected_authority_domain policy \<and>
     hex_decode (aw_prev_hash doc) = Some prev_hash \<and> length prev_hash = 32"

lemma audit_components_accepted:
  "components_match [''ecdsa-p256''] cs \<and> check_components X u i keys m True cs = Ok True \<longleftrightarrow>
     (\<exists>c key sig. cs = [c] \<and> wsc_component c = ''ecdsa-p256'' \<and>
        find (\<lambda>k. avk_key_id k = wsc_key_id c) keys = Some key \<and>
        hex_decode (wsc_value c) = Some sig \<and> ext_p256_verify X (avk_raw key) m sig)"
  unfolding components_match_single using check_components_single by fastforce

lemma audit_seal_verify_Ok:
  assumes "audit_seal_verify X keys bs policy = Ok v"
  obtains doc event_type prev_hash where
    "length bs \<le> AUDIT_MAX_BYTES" "bs = ext_to_vec X (sort_json (audit_full_document doc))"
    "audit_doc_accepted X keys policy doc event_type prev_hash"
    "v = audit_verified_of doc event_type prev_hash"
proof -
  note run = assms [unfolded audit_seal_verify_def outcome_simps audit_canonical outcome.inject
      not_less not_not simp_thms]
  from run obtain doc event_type k r u required domain_prefix message b prev_hash where
    d: "length bs \<le> AUDIT_MAX_BYTES" "aw_schema_version doc = 1"
      "ws_suite (aw_signature doc) \<in> set (aap_accepted_suites policy)"
      "event_type_from_contract_str (aw_event_type doc) = Some event_type"
      "actor_kind_from_contract_str (wa_kind (aw_actor doc)) = Some k"
      "outcome_from_contract_str (aw_outcome doc) = Some r"
      "requires_decision event_type = (aw_decision doc \<noteq> None)"
      "check_wire_decision (aw_decision doc) = Ok u"
    and suite: "audit_required_components (ws_suite (aw_signature doc)) = Ok required"
      "domain_prefix_for (ws_suite (aw_signature doc)) = Ok domain_prefix"
    and bs: "ext_to_vec X (sort_json (audit_full_document doc)) = bs"
    and sig: "components_match required (ws_components (aw_signature doc))"
      "audit_signed_message X domain_prefix (audit_unsigned_document_from_wire doc) =
         (Ok message :: (bytes, audit_verify_error) outcome)"
      "check_components X AuUnknownKeyId AuInvalidSignature keys message True
         (ws_components (aw_signature doc)) = Ok b" "b"
    and e: "aw_authority_domain doc = aap_expected_authority_domain policy"
      "hex_decode (aw_prev_hash doc) = Some prev_hash" "length prev_hash = 32"
    and v: "audit_verified_of doc event_type prev_hash = v"
    unfolding audit_verified_of_def by blast
  have "required = [''ecdsa-p256'']" "domain_prefix = AUDIT_DOMAIN_PREFIX_V1"
      "ws_suite (aw_signature doc) = AUDIT_SUITE_V1"
    using suite by (auto simp: audit_required_components_def domain_prefix_for_def
        AUDIT_REQUIRED_COMPONENTS_V1_def outcome_simps split: if_splits)
  with d e sig have "audit_doc_accepted X keys policy doc event_type prev_hash"
    unfolding audit_doc_accepted_def
    using audit_components_accepted [of "ws_components (aw_signature doc)" X AuUnknownKeyId AuInvalidSignature keys "audit_message X doc"]
    by (simp add: audit_message_eq)
  with d(1) bs v that show ?thesis by metis
qed

context zs_libraries
begin

lemma audit_parse:
  "Option.bind (ext_from_slice X (ext_to_vec X (sort_json (audit_full_document doc))))
     de_audit_wire_document = Some doc"
  using serde_json.from_slice_to_vec [OF json_laws, of "sort_json (audit_full_document doc)"]
    audit_full_document_wf [of doc] by (simp add: de_audit_wire_document_sorted)

lemma audit_verify_canonical:
  assumes len: "length (ext_to_vec X (sort_json (audit_full_document doc))) \<le> AUDIT_MAX_BYTES"
    and acc: "audit_doc_accepted X keys policy doc event_type prev_hash"
  shows "audit_seal_verify X keys (ext_to_vec X (sort_json (audit_full_document doc))) policy =
    Ok (audit_verified_of doc event_type prev_hash)"
proof -
  have "components_match [''ecdsa-p256''] (ws_components (aw_signature doc)) \<and>
       check_components X AuUnknownKeyId AuInvalidSignature keys (audit_message X doc) True
         (ws_components (aw_signature doc)) = Ok True"
    unfolding audit_components_accepted using acc unfolding audit_doc_accepted_def by blast
  then show ?thesis
    using len acc unfolding audit_doc_accepted_def audit_seal_verify_def
    by (auto simp: audit_parse audit_canonical audit_message_eq audit_required_components_def
        AUDIT_REQUIRED_COMPONENTS_V1_def domain_prefix_for_def audit_verified_of_def)
qed

end

text \<open>
  The fixed-size arrays of the source are lists here: their lengths are a typing invariant of the
  fields.
\<close>

definition audit_event_typed :: "audit_event_fields \<Rightarrow> bool" where
  "audit_event_typed e \<longleftrightarrow>
     length (ev_prev_hash e) = 32 \<and>
     (case ev_decision e of None \<Rightarrow> True | Some d \<Rightarrow> length (di_decision_hash d) = 32)"

lemma audit_wire_of_decision:
  assumes "validate_decision_coupling (ev_event_type e) (ev_decision e) = Ok ()" and "audit_event_typed e"
  shows "requires_decision (ev_event_type e) = (aw_decision (audit_wire_of e comps) \<noteq> None)"
    and "check_wire_decision (aw_decision (audit_wire_of e comps)) = Ok ()"
  using assms
  by (auto simp: validate_decision_coupling_def audit_wire_of_def check_wire_decision_def
      wire_decision_of_def audit_event_typed_def split: if_splits option.splits)

context signing_key
begin

lemma audit_seal_verifies:
  assumes seal: "audit_seal X P wakes e sl = (Ok bs, sl')"
    and key: "sl_key sl = \<lparr>key_ref_label = label\<rparr>"
    and known: "find (\<lambda>k. avk_key_id k = sl_key_id sl) keys = Some \<lparr>avk_key_id = sl_key_id sl, avk_raw = pk\<rparr>"
    and typed: "audit_event_typed e"
    and policy: "AUDIT_SUITE_V1 \<in> set (aap_accepted_suites policy)"
      "ev_authority_domain e = aap_expected_authority_domain policy"
  shows "audit_seal_verify X keys bs policy =
    Ok \<lparr>ve_event_id = ev_event_id e, ve_sequence = ev_sequence e, ve_prev_hash = ev_prev_hash e,
        ve_occurred_at = ev_occurred_at e, ve_authority_domain = ev_authority_domain e,
        ve_event_type = ev_event_type e\<rparr>"
proof -
  from seal obtain raw where
    coupling: "validate_decision_coupling (ev_event_type e) (ev_decision e) = Ok ()"
    and sg: "\<exists>p'. sign_digest P wakes (sl_key sl) EcdsaP256Sha256
       (sha256 X (audit_message X (audit_wire_of e [audit_component (sl_key_id sl) raw])))
       (sl_pool sl) = (Ok raw, p')"
    and bs: "bs = ext_to_vec X (sort_json (audit_full_document
       (audit_wire_of e [audit_component (sl_key_id sl) raw])))"
    by (rule audit_seal_Ok)
  let ?c = "audit_component (sl_key_id sl) raw"
  let ?doc = "audit_wire_of e [?c]"
  have "ext_p256_verify X pk (audit_message X ?doc) raw"
    using sg key sign_digest_verifies(2) by auto
  then have "audit_doc_accepted X keys policy ?doc (ev_event_type e) (ev_prev_hash e)"
    using audit_wire_of_decision [OF coupling typed, of "[?c]"] policy known typed
    by (auto simp: audit_doc_accepted_def audit_wire_of_def audit_component_def audit_event_typed_def
        AUDIT_REQUIRED_COMPONENTS_V1_def)
  then have "audit_seal_verify X keys bs policy = Ok (audit_verified_of ?doc (ev_event_type e) (ev_prev_hash e))"
    using audit_seal_size [OF seal key] unfolding bs by (rule audit_verify_canonical [rotated])
  then show ?thesis by (simp add: audit_verified_of_def audit_wire_of_def)
qed

end

end
