(* ===== verification/Identity_Store.thy ===== *)
theory Identity_Store
  imports Audit_Chain Audit_Seal
begin

section \<open>The stores of the identity provider (\<open>apps/identity-provider/src/store.rs\<close>)\<close>

text \<open>
  The tables \<open>identity.challenges\<close>, \<open>identity.authenticators\<close> and \<open>audit.events\<close> of
  \<open>deploy/migrations\<close>, in insertion order, with the clock of the server, and one definition per
  statement of \<open>store.rs\<close>: its \<open>WHERE\<close> clause, its constraints (primary keys, the unique index on
  \<open>(authority_domain, sequence)\<close>, the \<open>CHECK\<close> clauses) and its effect. A statement is atomic. The
  connection is part of the state: it may refuse a statement, or lose the reply of one that took
  effect. Columns that no statement of the service reads or writes (times of creation, target, decision and
  context of an event) are left out. The contracts that \<open>zs-webauthn/src/store.rs\<close> and \<open>zs-audit/src/sink.rs\<close> state for their
  traits are locales, interpreted on these definitions.
\<close>

subsection \<open>Tables\<close>

record challenges_row =
  ch_challenge :: bytes
  ch_subject_id :: string
  ch_ceremony_kind :: string
  ch_expires_at :: int
  ch_used_at :: "int option"

record authenticators_row =
  at_credential_id :: bytes
  at_subject_id :: string
  at_suite :: string
  at_algorithm :: string
  at_public_key :: bytes
  at_sign_count :: u64
  at_aaguid :: bytes
  at_attestation_format :: string
  at_counter_supported :: bool
  at_revoked_at :: "int option"

record events_row =
  er_event_id :: string
  er_sequence :: u64
  er_occurred_at :: string
  er_authority_domain :: string
  er_event_type :: string
  er_actor :: json
  er_outcome :: string
  er_prev_hash :: string
  er_signature :: json
  er_sealed_bytes :: bytes

text \<open>
  A \<open>bigint\<close> is the word of its two's complement, read with \<open>sint\<close>; instants are microseconds.
\<close>

datatype link = Up | Refused | ReplyLost

datatype sqlx_error = DatabaseUnavailable | ConstraintViolation

record database =
  db_challenges :: "challenges_row list"
  db_authenticators :: "authenticators_row list"
  db_events :: "events_row list"
  db_now :: int
  db_identity_link :: link
  db_audit_link :: link

definition on_link :: "link \<Rightarrow> ('w, 'a, sqlx_error) action \<Rightarrow> ('w, 'a, sqlx_error) action" where
  "on_link l m w =
     (case l of
        Up \<Rightarrow> m w
      | Refused \<Rightarrow> (Err DatabaseUnavailable, w)
      | ReplyLost \<Rightarrow> (Err DatabaseUnavailable, snd (m w)))"

subsection \<open>\<open>IdentityStore\<close>\<close>

record consumed_challenge =
  cc_subject_id :: string
  cc_ceremony_kind :: string

record authenticator_row =
  aw_subject_id :: string
  aw_credential_id :: bytes
  aw_algorithm :: proof_algorithm
  aw_public_key :: bytes
  aw_counter_supported :: bool
  aw_sign_count :: u32
  aw_revoked :: bool

fun algorithm_to_column :: "proof_algorithm \<Rightarrow> string" where
  "algorithm_to_column Es256 = ''es256''"
| "algorithm_to_column EdDsa = ''eddsa''"

definition algorithm_from_column :: "string \<Rightarrow> proof_algorithm option" where
  "algorithm_from_column v =
     (if v = ''es256'' then Some Es256 else if v = ''eddsa'' then Some EdDsa else None)"

text \<open>\<open>ttl_seconds as f64\<close> is exact below \<open>2\<^sup>5\<^sup>3\<close>; the configured windows are minutes.\<close>

definition issue_challenge ::
  "bytes \<Rightarrow> string \<Rightarrow> string \<Rightarrow> int \<Rightarrow> ('z database_scheme, unit, sqlx_error) action" where
  "issue_challenge challenge subject_id ceremony_kind ttl_seconds w =
     on_link (db_identity_link w) (\<lambda>w.
       if challenge \<in> set (map ch_challenge (db_challenges w)) \<or>
          ceremony_kind \<notin> {''registration'', ''authentication''}
       then (Err ConstraintViolation, w)
       else (Ok (), w\<lparr>db_challenges := db_challenges w @
              [\<lparr>ch_challenge = challenge, ch_subject_id = subject_id, ch_ceremony_kind = ceremony_kind,
                ch_expires_at = db_now w + ttl_seconds * 1000000, ch_used_at = None\<rparr>]\<rparr>)) w"

definition consumable_row :: "int \<Rightarrow> bytes \<Rightarrow> string \<Rightarrow> challenges_row \<Rightarrow> bool" where
  "consumable_row now challenge kind r \<longleftrightarrow>
     ch_challenge r = challenge \<and> ch_ceremony_kind r = kind \<and> ch_used_at r = None \<and> ch_expires_at r > now"

definition consume_challenge ::
  "bytes \<Rightarrow> string \<Rightarrow> ('z database_scheme, consumed_challenge option, sqlx_error) action" where
  "consume_challenge challenge expected_ceremony_kind w =
     on_link (db_identity_link w) (\<lambda>w.
       let hit = consumable_row (db_now w) challenge expected_ceremony_kind
       in (Ok (map_option (\<lambda>r. \<lparr>cc_subject_id = ch_subject_id r, cc_ceremony_kind = expected_ceremony_kind\<rparr>)
                 (find hit (db_challenges w))),
           w\<lparr>db_challenges := map (\<lambda>r. if hit r then r\<lparr>ch_used_at := Some (db_now w)\<rparr> else r) (db_challenges w)\<rparr>)) w"

definition insert_authenticator ::
  "string \<Rightarrow> bytes \<Rightarrow> proof_algorithm \<Rightarrow> bytes \<Rightarrow> u32 \<Rightarrow> bytes \<Rightarrow> string \<Rightarrow> bool \<Rightarrow>
     ('z database_scheme, unit, sqlx_error) action" where
  "insert_authenticator subject_id credential_id algorithm public_key_raw sign_count aaguid attestation_format
      counter_supported w =
     on_link (db_identity_link w) (\<lambda>w.
       if credential_id \<in> set (map at_credential_id (db_authenticators w)) \<or>
          algorithm_to_column algorithm \<notin> {''es256'', ''eddsa''} \<or>
          attestation_format \<notin> {''none'', ''packed''}
       then (Err ConstraintViolation, w)
       else (Ok (), w\<lparr>db_authenticators := db_authenticators w @
              [\<lparr>at_credential_id = credential_id, at_subject_id = subject_id, at_suite = PROOF_SUITE_V1,
                at_algorithm = algorithm_to_column algorithm, at_public_key = public_key_raw,
                at_sign_count = ucast sign_count, at_aaguid = aaguid,
                at_attestation_format = attestation_format, at_counter_supported = counter_supported,
                at_revoked_at = None\<rparr>]\<rparr>)) w"

definition find_authenticator ::
  "bytes \<Rightarrow> ('z database_scheme, authenticator_row option, sqlx_error) action" where
  "find_authenticator credential_id w =
     on_link (db_identity_link w) (\<lambda>w.
       (Ok (case find (\<lambda>r. at_credential_id r = credential_id) (db_authenticators w) of
              None \<Rightarrow> None
            | Some row \<Rightarrow>
                (case algorithm_from_column (at_algorithm row) of
                   None \<Rightarrow> None
                 | Some algorithm \<Rightarrow>
                     Some \<lparr>aw_subject_id = at_subject_id row, aw_credential_id = at_credential_id row,
                           aw_algorithm = algorithm, aw_public_key = at_public_key row,
                           aw_counter_supported = at_counter_supported row,
                           aw_sign_count = word_of_int (max (sint (at_sign_count row)) 0),
                           aw_revoked = (at_revoked_at row \<noteq> None)\<rparr>)), w)) w"

text \<open>The statement has no \<open>ORDER BY\<close>; the model returns the rows in insertion order.\<close>

definition credential_ids_for_subject ::
  "string \<Rightarrow> ('z database_scheme, bytes list, sqlx_error) action" where
  "credential_ids_for_subject subject_id w =
     on_link (db_identity_link w) (\<lambda>w.
       (Ok (map at_credential_id
              (filter (\<lambda>r. at_subject_id r = subject_id \<and> at_revoked_at r = None) (db_authenticators w))), w)) w"

definition behind_row :: "bytes \<Rightarrow> u32 \<Rightarrow> authenticators_row \<Rightarrow> bool" where
  "behind_row credential_id received r \<longleftrightarrow>
     at_credential_id r = credential_id \<and> sint (at_sign_count r) < sint (ucast received :: u64)"

definition advance_sign_count ::
  "bytes \<Rightarrow> u32 \<Rightarrow> ('z database_scheme, bool, sqlx_error) action" where
  "advance_sign_count credential_id received w =
     on_link (db_identity_link w) (\<lambda>w.
       (Ok (length (filter (behind_row credential_id received) (db_authenticators w)) = 1),
        w\<lparr>db_authenticators := map (\<lambda>r. if behind_row credential_id received r
            then r\<lparr>at_sign_count := ucast received\<rparr> else r) (db_authenticators w)\<rparr>)) w"

subsection \<open>\<open>AuditStore\<close>\<close>

record chain_head =
  hd_next_sequence :: u64
  hd_prev_hash :: bytes

definition audit_chain_head ::
  "'x zs_ext_scheme \<Rightarrow> string \<Rightarrow> ('z database_scheme, chain_head, sqlx_error) action" where
  "audit_chain_head X authority_domain w =
     on_link (db_audit_link w) (\<lambda>w.
       (Ok (case sort_key (\<lambda>r. - sint (er_sequence r))
                   (filter (\<lambda>r. er_authority_domain r = authority_domain) (db_events w)) of
              [] \<Rightarrow> \<lparr>hd_next_sequence = 0, hd_prev_hash = CHAIN_ROOT\<rparr>
            | row # _ \<Rightarrow> \<lparr>hd_next_sequence = er_sequence row + 1,
                          hd_prev_hash = hash_sealed_event X (er_sealed_bytes row)\<rparr>), w)) w"

definition is_lower_hexdigit :: "char \<Rightarrow> bool" where
  "is_lower_hexdigit c \<longleftrightarrow> is_ascii_digit c \<or> 0x61 \<le> char_code c \<and> char_code c \<le> 0x66"

definition audit_append ::
  "string \<Rightarrow> u64 \<Rightarrow> string \<Rightarrow> string \<Rightarrow> string \<Rightarrow> json \<Rightarrow> string \<Rightarrow> string \<Rightarrow> json \<Rightarrow> bytes \<Rightarrow>
     ('z database_scheme, unit, sqlx_error) action" where
  "audit_append event_id sequence occurred_at authority_domain event_type actor outcome prev_hash_hex
      signature sealed_bytes w =
     on_link (db_audit_link w) (\<lambda>w.
       if event_id \<in> set (map er_event_id (db_events w)) \<or>
          (authority_domain, sequence) \<in> set (map (\<lambda>r. (er_authority_domain r, er_sequence r)) (db_events w)) \<or>
          outcome \<notin> {''success'', ''denied'', ''error''} \<or>
          \<not> (length prev_hash_hex = 64 \<and> list_all is_lower_hexdigit prev_hash_hex)
       then (Err ConstraintViolation, w)
       else (Ok (), w\<lparr>db_events := db_events w @
              [\<lparr>er_event_id = event_id, er_sequence = sequence, er_occurred_at = occurred_at,
                er_authority_domain = authority_domain, er_event_type = event_type, er_actor = actor,
                er_outcome = outcome, er_prev_hash = prev_hash_hex, er_signature = signature,
                er_sealed_bytes = sealed_bytes\<rparr>]\<rparr>)) w"

section \<open>How the tables evolve\<close>

subsection \<open>Invariant and evolution\<close>

definition tables_wf :: "'z database_scheme \<Rightarrow> bool" where
  "tables_wf w \<longleftrightarrow>
     distinct (map ch_challenge (db_challenges w)) \<and>
     distinct (map at_credential_id (db_authenticators w)) \<and>
     distinct (map er_event_id (db_events w)) \<and>
     (\<forall>a \<in> set (db_authenticators w). 0 \<le> sint (at_sign_count a))"

definition spent :: "'z database_scheme \<Rightarrow> bytes \<Rightarrow> bool" where
  "spent w c \<longleftrightarrow> (\<exists>r \<in> set (db_challenges w). ch_challenge r = c \<and> ch_used_at r \<noteq> None)"

text \<open>What may happen to the row of an authenticator: its counter grows, it is revoked.\<close>

definition succeeds_row :: "authenticators_row \<Rightarrow> authenticators_row \<Rightarrow> bool" where
  "succeeds_row a b \<longleftrightarrow>
     at_credential_id b = at_credential_id a \<and> at_subject_id b = at_subject_id a \<and>
     at_algorithm b = at_algorithm a \<and> at_public_key b = at_public_key a \<and>
     at_counter_supported b = at_counter_supported a \<and>
     sint (at_sign_count a) \<le> sint (at_sign_count b) \<and>
     (at_revoked_at a \<noteq> None \<longrightarrow> at_revoked_at b \<noteq> None)"

definition db_evolves :: "'z database_scheme \<Rightarrow> 'z database_scheme \<Rightarrow> bool" where
  "db_evolves w w' \<longleftrightarrow>
     (\<exists>more. db_events w' = db_events w @ more) \<and>
     (\<forall>r \<in> set (db_challenges w). ch_used_at r \<noteq> None \<longrightarrow> r \<in> set (db_challenges w')) \<and>
     (\<forall>a \<in> set (db_authenticators w). \<exists>b \<in> set (db_authenticators w'). succeeds_row a b)"

lemma sint_ucast_u32 [simp]: "sint (ucast (n :: u32) :: u64) = uint n"
proof -
  have b: "0 \<le> uint n" "uint n < 2 ^ 32" using uint_lt2p [of n] by simp_all
  have "signed_take_bit 63 (uint n) = uint n"
  proof (rule signed_take_bit_int_eq_self)
    show "- (2 ^ 63) \<le> uint n" using b(1) by (rule order_trans [rotated]) simp
    show "uint n < 2 ^ 63" using b(2) by simp
  qed
  then show ?thesis by (simp add: signed_ucast_eq)
qed

lemma spent_evolves: "db_evolves w w' \<Longrightarrow> spent w c \<Longrightarrow> spent w' c"
  unfolding db_evolves_def spent_def by blast

lemma succeeds_row_refl [simp]: "succeeds_row a a"
  by (simp add: succeeds_row_def)

lemma succeeds_row_trans: "succeeds_row a b \<Longrightarrow> succeeds_row b c \<Longrightarrow> succeeds_row a c"
  by (auto simp: succeeds_row_def)

lemma db_evolves_refl [simp]: "db_evolves w w"
  by (auto simp: db_evolves_def intro: succeeds_row_refl)

lemma db_evolves_trans: "db_evolves u v \<Longrightarrow> db_evolves v w \<Longrightarrow> db_evolves u w"
  unfolding db_evolves_def by (auto 4 4 intro: succeeds_row_trans)

text \<open>A statement under a link: a fact about its effect that also holds when nothing happened.\<close>

lemma on_link_effect:
  assumes "K (snd (m w))" "K w"
  shows "K (snd (on_link l m w))"
  using assms by (cases l) (simp_all add: on_link_def)

lemma on_link_Ok: "on_link l m w = (Ok x, w') \<longleftrightarrow> l = Up \<and> m w = (Ok x, w')"
  by (cases l) (simp_all add: on_link_def)

lemma on_link_Up [simp]: "on_link Up m w = m w"
  by (simp add: on_link_def)

lemma on_link_fst: "fst (on_link l m w) = Ok x \<longleftrightarrow> l = Up \<and> fst (m w) = Ok x"
  by (cases l) (simp_all add: on_link_def)

lemma on_link_not_Panic: "fst (m w) \<noteq> Panic \<Longrightarrow> fst (on_link l m w) \<noteq> Panic"
  by (cases l) (simp_all add: on_link_def)

definition keeps_tables :: "'z database_scheme \<Rightarrow> 'z database_scheme \<Rightarrow> bool" where
  "keeps_tables w w' \<longleftrightarrow> (tables_wf w \<longrightarrow> tables_wf w') \<and> db_evolves w w'"

lemma keeps_tables_refl [simp]: "keeps_tables w w"
  by (simp add: keeps_tables_def)

lemma issue_challenge_keeps: "keeps_tables w (snd (issue_challenge c s k t w))"
  unfolding issue_challenge_def
  by (rule on_link_effect)
    (auto simp: keeps_tables_def tables_wf_def db_evolves_def spent_def intro: succeeds_row_refl)

text \<open>An \<open>UPDATE\<close> that leaves the primary key alone.\<close>

lemma update_challenges_keeps:
  assumes "\<And>r. ch_challenge (g r) = ch_challenge r" "\<And>r. ch_used_at r \<noteq> None \<Longrightarrow> g r = r"
  shows "keeps_tables w (w\<lparr>db_challenges := map g (db_challenges w)\<rparr>)"
proof -
  have "ch_challenge \<circ> g = ch_challenge" by (rule ext) (simp add: assms(1))
  moreover have "r \<in> g ` set (db_challenges w)" if "r \<in> set (db_challenges w)" "ch_used_at r \<noteq> None" for r
    using that assms(2) by (metis imageI)
  ultimately show ?thesis
    by (auto simp: keeps_tables_def tables_wf_def db_evolves_def intro: succeeds_row_refl)
qed

lemma update_authenticators_keeps:
  assumes "\<And>r. succeeds_row r (g r)"
  shows "keeps_tables w (w\<lparr>db_authenticators := map g (db_authenticators w)\<rparr>)"
proof -
  have "at_credential_id \<circ> g = at_credential_id" by (rule ext) (use assms in \<open>simp add: succeeds_row_def\<close>)
  moreover have "sint (at_sign_count r) \<le> sint (at_sign_count (g r))" for r
    using assms by (simp add: succeeds_row_def)
  ultimately show ?thesis using assms
    by (auto simp: keeps_tables_def tables_wf_def db_evolves_def intro: order_trans)
qed

lemma consume_challenge_keeps: "keeps_tables w (snd (consume_challenge c k w))"
  unfolding consume_challenge_def Let_def
  by (rule on_link_effect, simp_all) (rule update_challenges_keeps, simp_all add: consumable_row_def)

lemma insert_authenticator_keeps: "keeps_tables w (snd (insert_authenticator s c a p n g f b w))"
  unfolding insert_authenticator_def
  by (rule on_link_effect, simp_all)
    (auto simp: keeps_tables_def tables_wf_def db_evolves_def intro: succeeds_row_refl)

lemma advance_sign_count_keeps: "keeps_tables w (snd (advance_sign_count c n w))"
  unfolding advance_sign_count_def
  by (rule on_link_effect, simp_all)
    (rule update_authenticators_keeps, simp add: succeeds_row_def behind_row_def)

lemma find_authenticator_keeps [simp]: "snd (find_authenticator c w) = w"
  unfolding find_authenticator_def by (rule on_link_effect) simp_all

lemma credential_ids_keeps [simp]: "snd (credential_ids_for_subject s w) = w"
  unfolding credential_ids_for_subject_def by (rule on_link_effect) simp_all

lemma audit_chain_head_keeps [simp]: "snd (audit_chain_head X d w) = w"
  unfolding audit_chain_head_def by (rule on_link_effect) simp_all

lemma audit_append_keeps: "keeps_tables w (snd (audit_append e s t d y a u p g b w))"
  unfolding audit_append_def
  by (rule on_link_effect)
    (auto simp: keeps_tables_def tables_wf_def db_evolves_def spent_def intro: succeeds_row_refl)

subsection \<open>The contract of \<open>ChallengeStore\<close>\<close>

text \<open>
  The trait asks for one atomic operation that yields a challenge to one caller only; \<open>evolves\<close> is what
  everyone else may do to the state meanwhile.
\<close>

locale challenge_store =
  fixes consume :: "'c \<Rightarrow> ('w, 'r option, 'e) action"
    and used :: "'w \<Rightarrow> 'c \<Rightarrow> bool"
    and inv :: "'w \<Rightarrow> bool"
    and evolves :: "'w \<Rightarrow> 'w \<Rightarrow> bool"
  assumes consume_fresh: "inv w \<Longrightarrow> consume c w = (Ok (Some r), w') \<Longrightarrow> \<not> used w c \<and> used w' c"
    and consume_refusal: "inv w \<Longrightarrow> consume c w = (Ok None, w') \<Longrightarrow> w' = w"
    and used_for_good: "evolves w w' \<Longrightarrow> used w c \<Longrightarrow> used w' c"
begin

lemma no_replay:
  assumes "inv v" "consume c v = (Ok (Some r), v')" "evolves v' w" "inv w"
  shows "consume c w \<noteq> (Ok (Some r'), w')"
  using assms consume_fresh used_for_good by blast

end

lemma distinct_key_unique:
  assumes "distinct (map f xs)" "a \<in> set xs" "b \<in> set xs" "f a = f b"
  shows "a = b"
  using assms by (auto simp: distinct_map dest: inj_onD)

lemma find_SomeD: "find Q xs = Some x \<Longrightarrow> x \<in> set xs \<and> Q x"
  by (induction xs) (auto split: if_splits)

text \<open>The row that a successful call consumed, before and after.\<close>

lemma consume_challenge_row:
  assumes "consume_challenge c k w = (Ok (Some x), w')"
  obtains q where "q \<in> set (db_challenges w)" "consumable_row (db_now w) c k q"
    "q\<lparr>ch_used_at := Some (db_now w)\<rparr> \<in> set (db_challenges w')" "cc_subject_id x = ch_subject_id q"
proof -
  let ?hit = "consumable_row (db_now w) c k"
  let ?g = "\<lambda>r. if ?hit r then r\<lparr>ch_used_at := Some (db_now w)\<rparr> else r"
  from assms obtain q where q: "find ?hit (db_challenges w) = Some q" "cc_subject_id x = ch_subject_id q"
    and w': "db_challenges w' = map ?g (db_challenges w)"
    by (auto simp: consume_challenge_def on_link_Ok Let_def)
  have mem: "q \<in> set (db_challenges w)" "?hit q" using find_SomeD [OF q(1)] by blast+
  then have "?g q \<in> set (map ?g (db_challenges w))" unfolding set_map by (intro imageI)
  with mem q(2) that [of q] show ?thesis by (simp add: w' del: set_map)
qed

lemma consume_challenge_fresh:
  assumes "tables_wf w" "consume_challenge c k w = (Ok (Some r), w')"
  shows "\<not> spent w c \<and> spent w' c"
proof -
  from assms(2) obtain q where q: "q \<in> set (db_challenges w)" "consumable_row (db_now w) c k q"
    "q\<lparr>ch_used_at := Some (db_now w)\<rparr> \<in> set (db_challenges w')" by (rule consume_challenge_row)
  then have "\<not> spent w c"
    using assms(1) distinct_key_unique [of ch_challenge "db_challenges w"]
    unfolding spent_def tables_wf_def consumable_row_def by metis
  moreover have "spent w' c"
    unfolding spent_def using q(2) by (intro bexI [OF _ q(3)]) (simp add: consumable_row_def)
  ultimately show ?thesis ..
qed

lemma consume_challenge_refusal:
  assumes "consume_challenge c k w = (Ok None, w')"
  shows "w' = w"
proof -
  let ?hit = "consumable_row (db_now w) c k"
  from assms have none: "find ?hit (db_challenges w) = None"
    and w': "w' = w\<lparr>db_challenges := map (\<lambda>r. if ?hit r then r\<lparr>ch_used_at := Some (db_now w)\<rparr> else r) (db_challenges w)\<rparr>"
    by (auto simp: consume_challenge_def on_link_Ok Let_def)
  have "map (\<lambda>r. if ?hit r then r\<lparr>ch_used_at := Some (db_now w)\<rparr> else r) (db_challenges w) = db_challenges w"
    by (rule map_idI) (use none in \<open>simp add: find_None_iff\<close>)
  then show ?thesis unfolding w' by simp
qed

interpretation challenges: challenge_store "\<lambda>c. consume_challenge c kind" spent tables_wf db_evolves
  for kind :: string
  by unfold_locales (use consume_challenge_fresh in blast, rule consume_challenge_refusal, simp, rule spent_evolves)

subsection \<open>The contract of \<open>SignCounterStore\<close>\<close>

locale sign_counter_store =
  fixes advance :: "'k \<Rightarrow> u32 \<Rightarrow> ('w, bool, 'e) action"
    and count :: "'w \<Rightarrow> 'k \<Rightarrow> int option"
    and inv :: "'w \<Rightarrow> bool"
    and evolves :: "'w \<Rightarrow> 'w \<Rightarrow> bool"
  assumes advance_true: "inv w \<Longrightarrow> advance k n w = (Ok True, w') \<Longrightarrow>
      (\<exists>c. count w k = Some c \<and> c < uint n) \<and> count w' k = Some (uint n)"
    and advance_false: "inv w \<Longrightarrow> advance k n w = (Ok False, w') \<Longrightarrow>
      w' = w \<and> (\<forall>c. count w k = Some c \<longrightarrow> uint n \<le> c)"
    and count_grows: "inv w \<Longrightarrow> inv w' \<Longrightarrow> evolves w w' \<Longrightarrow> count w k = Some c \<Longrightarrow>
      \<exists>c'. count w' k = Some c' \<and> c \<le> c'"
begin

text \<open>Whatever happens between two accepted advances, the second value is greater.\<close>

lemma no_clone:
  assumes "inv u" "advance k n u = (Ok True, v)" "inv v" "evolves v w" "inv w" "advance k m w = (Ok True, w')"
  shows "n < m"
proof -
  from advance_true [OF assms(1,2)] have "count v k = Some (uint n)" ..
  from count_grows [OF assms(3,5,4) this] advance_true [OF assms(5,6)] show ?thesis
    by (auto simp: word_less_def)
qed

end

definition stored_count :: "'z database_scheme \<Rightarrow> bytes \<Rightarrow> int option" where
  "stored_count w k =
     map_option (\<lambda>r. sint (at_sign_count r)) (find (\<lambda>r. at_credential_id r = k) (db_authenticators w))"

lemma find_unique:
  assumes "distinct (map f xs)" "a \<in> set xs"
  shows "find (\<lambda>r. f r = f a) xs = Some a"
  using assms by (induction xs) auto

lemma stored_count_row:
  assumes "tables_wf w" "a \<in> set (db_authenticators w)"
  shows "stored_count w (at_credential_id a) = Some (sint (at_sign_count a))"
  using assms find_unique [of at_credential_id "db_authenticators w" a] by (simp add: stored_count_def tables_wf_def)

lemma stored_count_Some:
  assumes "stored_count w k = Some c"
  obtains a where "a \<in> set (db_authenticators w)" "at_credential_id a = k" "sint (at_sign_count a) = c"
  using assms that by (auto simp: stored_count_def find_Some_iff) (use nth_mem in blast)

lemma filter_unique:
  assumes "distinct (map f xs)" "a \<in> set xs"
  shows "filter (\<lambda>r. f r = f a) xs = [a]"
  using assms by (induction xs) (auto simp: filter_empty_conv image_iff)

lemma behind_filter:
  assumes "tables_wf w" "a \<in> set (db_authenticators w)" "behind_row k n a"
  shows "filter (behind_row k n) (db_authenticators w) = [a]"
proof -
  have "k = at_credential_id a" using assms(3) by (simp add: behind_row_def)
  with assms(1,2) filter_unique [of at_credential_id "db_authenticators w" a]
  have "filter (\<lambda>r. at_credential_id r = k) (db_authenticators w) = [a]"
    by (simp add: tables_wf_def)
  moreover have "filter (behind_row k n) rs =
      filter (\<lambda>r. sint (at_sign_count r) < uint n) (filter (\<lambda>r. at_credential_id r = k) rs)" for rs
    by (induction rs) (simp_all add: behind_row_def)
  ultimately show ?thesis using assms(3) by (simp add: behind_row_def del: filter_filter)
qed

lemma advance_sign_count_true:
  assumes "tables_wf w" "advance_sign_count k n w = (Ok True, w')"
  shows "(\<exists>c. stored_count w k = Some c \<and> c < uint n) \<and> stored_count w' k = Some (uint n)"
proof -
  let ?g = "\<lambda>r. if behind_row k n r then r\<lparr>at_sign_count := ucast n\<rparr> else r"
  from assms(2) have len: "length (filter (behind_row k n) (db_authenticators w)) = 1"
    and w': "w' = w\<lparr>db_authenticators := map ?g (db_authenticators w)\<rparr>"
    by (auto simp: advance_sign_count_def on_link_Ok)
  then obtain a where "filter (behind_row k n) (db_authenticators w) = [a]"
    by (auto simp: length_Suc_conv)
  then have a: "a \<in> set (db_authenticators w)" "behind_row k n a"
    using filter_eq_ConsD by fastforce+
  have "tables_wf w'"
    using assms advance_sign_count_keeps [of w k n] by (simp add: keeps_tables_def)
  moreover have "?g a \<in> set (db_authenticators w')" unfolding w' using a(1) by auto
  ultimately have "stored_count w' (at_credential_id (?g a)) = Some (sint (at_sign_count (?g a)))"
    by (rule stored_count_row)
  with a(2) stored_count_row [OF assms(1) a(1)] show ?thesis by (simp add: behind_row_def)
qed

lemma advance_sign_count_false:
  assumes "tables_wf w" "advance_sign_count k n w = (Ok False, w')"
  shows "w' = w \<and> (\<forall>c. stored_count w k = Some c \<longrightarrow> uint n \<le> c)"
proof -
  let ?g = "\<lambda>r. if behind_row k n r then r\<lparr>at_sign_count := ucast n\<rparr> else r"
  from assms(2) have len: "length (filter (behind_row k n) (db_authenticators w)) \<noteq> 1"
    and w': "w' = w\<lparr>db_authenticators := map ?g (db_authenticators w)\<rparr>"
    by (auto simp: advance_sign_count_def on_link_Ok)
  have none: "\<not> behind_row k n a" if "a \<in> set (db_authenticators w)" for a
    using len behind_filter [OF assms(1) that] by auto
  have "map ?g (db_authenticators w) = db_authenticators w" by (rule map_idI) (simp add: none)
  moreover have "uint n \<le> c" if "stored_count w k = Some c" for c
    using that none by (elim stored_count_Some) (fastforce simp: behind_row_def)
  ultimately show ?thesis unfolding w' by simp
qed

lemma stored_count_grows:
  assumes "tables_wf w" "tables_wf w'" "db_evolves w w'" "stored_count w k = Some c"
  shows "\<exists>c'. stored_count w' k = Some c' \<and> c \<le> c'"
proof -
  from assms(4) obtain a where a: "a \<in> set (db_authenticators w)" "at_credential_id a = k" "sint (at_sign_count a) = c"
    by (rule stored_count_Some)
  with assms(3) obtain b where "b \<in> set (db_authenticators w')" "succeeds_row a b"
    unfolding db_evolves_def by blast
  with a stored_count_row [OF assms(2), of b] show ?thesis by (simp add: succeeds_row_def)
qed

interpretation counters: sign_counter_store advance_sign_count stored_count tables_wf db_evolves
  by unfold_locales (use advance_sign_count_true advance_sign_count_false stored_count_grows in blast)+

subsection \<open>The contract of \<open>AuditChainStore\<close>\<close>

text \<open>
  The trait asks that an event be added only behind the event its author took for the head. The store
  reads the head and adds in two statements; the unique index makes the second one fail when the head has
  moved. The chain of a domain is read back from the columns.
\<close>

definition chain_entry_of :: "events_row \<Rightarrow> chain_entry" where
  "chain_entry_of r =
     \<lparr>ce_authority_domain = er_authority_domain r, ce_sequence = er_sequence r,
      ce_prev_hash = (case hex_decode (er_prev_hash r) of Some h \<Rightarrow> h | None \<Rightarrow> []),
      ce_sealed_bytes = er_sealed_bytes r\<rparr>"

definition domain_rows :: "string \<Rightarrow> 'z database_scheme \<Rightarrow> events_row list" where
  "domain_rows d w = filter (\<lambda>r. er_authority_domain r = d) (db_events w)"

definition stored_chain :: "string \<Rightarrow> 'z database_scheme \<Rightarrow> chain_entry list" where
  "stored_chain d w = map chain_entry_of (domain_rows d w)"

definition chain_inv :: "'x zs_ext_scheme \<Rightarrow> string \<Rightarrow> 'z database_scheme \<Rightarrow> bool" where
  "chain_inv X d w \<longleftrightarrow> linked X (stored_chain d w) \<and> length (stored_chain d w) \<le> 2 ^ 53"

definition chain_tip :: "'x zs_ext_scheme \<Rightarrow> chain_entry list \<Rightarrow> chain_head" where
  "chain_tip X es =
     \<lparr>hd_next_sequence = word_of_nat (length es),
      hd_prev_hash = (if es = [] then CHAIN_ROOT else hash_sealed_event X (ce_sealed_bytes (last es)))\<rparr>"

definition head_known :: "'x zs_ext_scheme \<Rightarrow> chain_entry list \<Rightarrow> chain_head \<Rightarrow> bool" where
  "head_known X es h \<longleftrightarrow> (\<exists>n \<le> length es. h = chain_tip X (take n es))"

lemma stored_chain_in_domain: "stored_chain d w = in_domain d (map chain_entry_of (db_events w))"
  by (simp add: stored_chain_def domain_rows_def in_domain_def filter_map comp_def chain_entry_of_def)

lemma in_domain_stored_chain: "in_domain d (stored_chain d' w) = (if d = d' then stored_chain d' w else [])"
  by (auto simp: stored_chain_def domain_rows_def in_domain_def chain_entry_of_def filter_map comp_def
      intro!: filter_False filter_True)

lemma head_known_tip: "head_known X es (chain_tip X es)"
  unfolding head_known_def by (rule exI [of _ "length es"]) simp

lemma head_known_append: "head_known X es h \<Longrightarrow> head_known X (es @ fs) h"
proof -
  assume "head_known X es h"
  then obtain n where "n \<le> length es" "h = chain_tip X (take n es)" by (auto simp: head_known_def)
  then have "n \<le> length (es @ fs)" "h = chain_tip X (take n (es @ fs))" by simp_all
  then show ?thesis unfolding head_known_def by blast
qed

lemma stored_chain_evolves:
  "db_evolves w w' \<Longrightarrow> \<exists>fs. stored_chain d w' = stored_chain d w @ fs"
  by (auto simp: db_evolves_def stored_chain_def domain_rows_def)

lemma head_known_evolves:
  "db_evolves w w' \<Longrightarrow> head_known X (stored_chain d w) h \<Longrightarrow> head_known X (stored_chain d w') h"
  using stored_chain_evolves [of w w' d] by (auto intro: head_known_append)

lemma hd_sort_key_last:
  fixes f :: "'b \<Rightarrow> 'c::linorder"
  assumes "xs \<noteq> []" "\<And>x. x \<in> set (butlast xs) \<Longrightarrow> f (last xs) < f x"
  shows "hd (sort_key f xs) = last xs"
proof (rule ccontr)
  let ?h = "hd (sort_key f xs)"
  assume "?h \<noteq> last xs"
  have ne: "sort_key f xs \<noteq> []" using assms(1) by (metis length_sort length_0_conv)
  then have mem: "?h \<in> set xs" using hd_in_set [OF ne] by simp
  with \<open>?h \<noteq> last xs\<close> assms(1) have "?h \<in> set (butlast xs)"
    by (metis append_butlast_last_id in_set_conv_decomp insert_iff rotate1.simps(2) set_ConsD set_rotate1)
  then have "f (last xs) < f ?h" by (rule assms(2))
  moreover have "f ?h \<le> f (last xs)"
  proof -
    have "last xs \<in> set (sort_key f xs)" using assms(1) by simp
    moreover have "sorted (map f (sort_key f xs))" by simp
    ultimately show ?thesis using ne by (cases "sort_key f xs") auto
  qed
  ultimately show False by simp
qed

lemma sint_word_of_nat_u64: "n < 2 ^ 63 \<Longrightarrow> sint (word_of_nat n :: u64) = int n"
proof -
  assume n: "n < 2 ^ 63"
  then have "signed_take_bit 63 (int n) = int n"
    by (intro signed_take_bit_int_eq_self) simp_all
  then show ?thesis by (simp add: signed_of_nat)
qed

lemma chain_inv_sequence:
  assumes "chain_inv X d w" "i < length (domain_rows d w)"
  shows "er_sequence (domain_rows d w ! i) = word_of_nat i" "sint (er_sequence (domain_rows d w ! i)) = int i"
proof -
  from assms have "ce_sequence (stored_chain d w ! i) = word_of_nat i" "i < 2 ^ 53"
    by (auto simp: chain_inv_def linked_def link_at_def stored_chain_def)
  then show "er_sequence (domain_rows d w ! i) = word_of_nat i" "sint (er_sequence (domain_rows d w ! i)) = int i"
    using assms(2) sint_word_of_nat_u64 [of i] by (simp_all add: stored_chain_def chain_entry_of_def)
qed

lemma audit_chain_head_tip:
  assumes "chain_inv X d w" "audit_chain_head X d w = (Ok h, w')"
  shows "h = chain_tip X (stored_chain d w)"
proof -
  let ?rows = "domain_rows d w" and ?f = "\<lambda>r :: events_row. - sint (er_sequence r)"
  from assms(2) have h: "h = (case sort_key ?f ?rows of [] \<Rightarrow> \<lparr>hd_next_sequence = 0, hd_prev_hash = CHAIN_ROOT\<rparr>
      | row # _ \<Rightarrow> \<lparr>hd_next_sequence = er_sequence row + 1, hd_prev_hash = hash_sealed_event X (er_sealed_bytes row)\<rparr>)"
    by (auto simp: audit_chain_head_def on_link_Ok domain_rows_def)
  show ?thesis
  proof (cases "?rows = []")
    case True
    then show ?thesis by (simp add: h chain_tip_def stored_chain_def)
  next
    case False
    have last: "er_sequence (last ?rows) = word_of_nat (length ?rows - 1)"
      "?f (last ?rows) = - int (length ?rows - 1)"
      using False chain_inv_sequence [OF assms(1), of "length ?rows - 1"] by (simp_all add: last_conv_nth)
    have "?f (last ?rows) < ?f r" if "r \<in> set (butlast ?rows)" for r
    proof -
      from that obtain i where "i < length ?rows - 1" "r = ?rows ! i"
        by (metis in_set_conv_nth length_butlast nth_butlast)
      with last(2) chain_inv_sequence(2) [OF assms(1), of i] show ?thesis by simp
    qed
    from hd_sort_key_last [where f = ?f, OF False this] obtain rest where "sort_key ?f ?rows = last ?rows # rest"
      using False by (metis length_sort length_0_conv list.collapse)
    moreover have "(word_of_nat (length ?rows - 1) :: u64) + 1 = word_of_nat (length ?rows)"
      using False by (metis Suc_pred' length_greater_0_conv semiring_1_class.of_nat_simps(2) add.commute)
    ultimately show ?thesis
      using False by (simp add: h chain_tip_def stored_chain_def last(1) last_map chain_entry_of_def)
  qed
qed

lemma MAX_SAFE_INTEGER_unat: "unat MAX_SAFE_INTEGER = 2 ^ 53 - 1"
  by (simp add: MAX_SAFE_INTEGER_def push_bit_eq_mult)

lemma is_lower_hexdigit_hexval: "is_lower_hexdigit c \<Longrightarrow> is_ascii_hexdigit c"
  by (auto simp: is_lower_hexdigit_def is_ascii_hexdigit_def)

text \<open>An accepted event extends the chain by the link its author computed, and only at the tip.\<close>

lemma audit_append_extends:
  assumes inv: "chain_inv X d w" and known: "head_known X (stored_chain d w) h"
    and seq: "hd_next_sequence h \<le> MAX_SAFE_INTEGER"
    and run: "w' = snd (audit_append e (hd_next_sequence h) t d y a u (hex_encode (hd_prev_hash h)) g b w)"
    and moved: "db_events w' \<noteq> db_events w"
  shows "h = chain_tip X (stored_chain d w)"
    and "stored_chain d w' = stored_chain d w @
      [\<lparr>ce_authority_domain = d, ce_sequence = hd_next_sequence h, ce_prev_hash = hd_prev_hash h, ce_sealed_bytes = b\<rparr>]"
    and "chain_inv X d w'"
proof -
  let ?es = "stored_chain d w"
  let ?row = "\<lparr>er_event_id = e, er_sequence = hd_next_sequence h, er_occurred_at = t, er_authority_domain = d,
      er_event_type = y, er_actor = a, er_outcome = u, er_prev_hash = hex_encode (hd_prev_hash h),
      er_signature = g, er_sealed_bytes = b\<rparr>"
  from run moved have fresh: "(d, hd_next_sequence h) \<notin> set (map (\<lambda>r. (er_authority_domain r, er_sequence r)) (db_events w))"
    and w': "db_events w' = db_events w @ [?row]"
    by (auto simp: audit_append_def on_link_def split: link.splits if_splits)
  from known obtain n where n: "n \<le> length ?es" "h = chain_tip X (take n ?es)"
    by (auto simp: head_known_def)
  then have seq_n: "hd_next_sequence h = word_of_nat n" by (simp add: chain_tip_def)
  have "\<not> n < length ?es"
  proof
    assume lt: "n < length ?es"
    then have "er_sequence (domain_rows d w ! n) = hd_next_sequence h" "domain_rows d w ! n \<in> set (domain_rows d w)"
      using chain_inv_sequence(1) [OF inv, of n] seq_n by (simp_all add: stored_chain_def)
    then show False using fresh by (force simp: domain_rows_def)
  qed
  with n show tip: "h = chain_tip X ?es" by simp
  show chain: "stored_chain d w' = ?es @
      [\<lparr>ce_authority_domain = d, ce_sequence = hd_next_sequence h, ce_prev_hash = hd_prev_hash h, ce_sealed_bytes = b\<rparr>]"
    by (simp add: stored_chain_def domain_rows_def w' chain_entry_of_def)
  have "length ?es \<le> 2 ^ 53" using inv by (simp add: chain_inv_def)
  then have "unat (hd_next_sequence h) = length ?es"
    by (simp add: tip chain_tip_def unat_word_of_nat_eq)
  with seq have "length ?es \<le> 2 ^ 53 - 1"
    by (simp add: word_le_nat_alt MAX_SAFE_INTEGER_unat)
  with inv chain tip show "chain_inv X d w'"
    by (simp add: chain_inv_def linked_snoc chain_tip_def)
qed

lemma chain_tip_length:
  assumes "length es \<le> 2 ^ 53" "length fs \<le> 2 ^ 53" "chain_tip X es = chain_tip X fs"
  shows "length es = length fs"
proof -
  have "unat (word_of_nat (length es) :: u64) = unat (word_of_nat (length fs) :: u64)"
    using assms(3) by (simp add: chain_tip_def)
  then show ?thesis using assms(1,2) by (simp add: unat_word_of_nat_eq)
qed

locale audit_chain_store =
  fixes append :: "chain_head \<Rightarrow> 'r \<Rightarrow> ('w, unit, 'e) action"
    and tip :: "'w \<Rightarrow> chain_head"
    and known :: "'w \<Rightarrow> chain_head \<Rightarrow> bool"
    and inv :: "'w \<Rightarrow> bool"
    and evolves :: "'w \<Rightarrow> 'w \<Rightarrow> bool"
  assumes append_at_tip: "inv w \<Longrightarrow> known w h \<Longrightarrow> append h r w = (Ok (), w') \<Longrightarrow> h = tip w \<and> inv w' \<and> tip w' \<noteq> h"
    and known_for_good: "evolves w w' \<Longrightarrow> known w h \<Longrightarrow> known w' h"
    and stale_for_good: "inv w \<Longrightarrow> inv w' \<Longrightarrow> evolves w w' \<Longrightarrow> known w h \<Longrightarrow> h \<noteq> tip w \<Longrightarrow> h \<noteq> tip w'"
begin

text \<open>Of the authors who read the same head, at most one ever adds an event behind it.\<close>

lemma no_fork:
  assumes "inv v" "known v h" "append h r v = (Ok (), v')" "evolves v v'" "evolves v' w" "inv w"
  shows "h = tip v \<and> append h r' w \<noteq> (Ok (), w')"
proof -
  from append_at_tip [OF assms(1-3)] have moved: "h = tip v" "inv v'" "h \<noteq> tip v'" by auto
  have "known v' h" using assms(4,2) by (rule known_for_good)
  then have "h \<noteq> tip w" "known w h"
    using stale_for_good [OF moved(2) assms(6,5) _ moved(3)] known_for_good [OF assms(5)] by blast+
  with append_at_tip [OF assms(6), of h r' w'] moved(1) show ?thesis by blast
qed

end

text \<open>
  An event of the interface: its columns without the link. Positions above \<open>MAX_SAFE_INTEGER\<close>
  never reach the store, because \<open>Sequence::new\<close> refuses them before sealing.
\<close>

definition append_linked ::
  "string \<Rightarrow> chain_head \<Rightarrow> events_row \<Rightarrow> ('z database_scheme, unit, sqlx_error) action" where
  "append_linked d h r w =
     (if hd_next_sequence h > MAX_SAFE_INTEGER then (Err ConstraintViolation, w)
      else audit_append (er_event_id r) (hd_next_sequence h) (er_occurred_at r) d (er_event_type r) (er_actor r)
        (er_outcome r) (hex_encode (hd_prev_hash h)) (er_signature r) (er_sealed_bytes r) w)"

lemma append_linked_at_tip:
  assumes "chain_inv X d w" "head_known X (stored_chain d w) h" "append_linked d h r w = (Ok (), w')"
  shows "h = chain_tip X (stored_chain d w) \<and> chain_inv X d w' \<and> chain_tip X (stored_chain d w') \<noteq> h"
proof -
  from assms(3) have seq: "hd_next_sequence h \<le> MAX_SAFE_INTEGER"
    and run: "audit_append (er_event_id r) (hd_next_sequence h) (er_occurred_at r) d (er_event_type r) (er_actor r)
        (er_outcome r) (hex_encode (hd_prev_hash h)) (er_signature r) (er_sealed_bytes r) w = (Ok (), w')"
    by (auto simp: append_linked_def split: if_splits)
  have w': "w' = snd (audit_append (er_event_id r) (hd_next_sequence h) (er_occurred_at r) d (er_event_type r)
      (er_actor r) (er_outcome r) (hex_encode (hd_prev_hash h)) (er_signature r) (er_sealed_bytes r) w)"
    using run by simp
  have moved: "db_events w' \<noteq> db_events w"
    using run by (auto simp: audit_append_def on_link_Ok split: if_splits)
  note ext = audit_append_extends [OF assms(1,2) seq w' moved]
  have "length (stored_chain d w') = Suc (length (stored_chain d w))" by (simp add: ext(2))
  moreover have "length (stored_chain d w') \<le> 2 ^ 53" using ext(3) by (simp add: chain_inv_def)
  ultimately have "chain_tip X (stored_chain d w') \<noteq> chain_tip X (stored_chain d w)"
    using chain_tip_length [of "stored_chain d w'" "stored_chain d w"] by auto
  with ext(1,3) show ?thesis by simp
qed

lemma chain_tip_stale:
  assumes "chain_inv X d w" "chain_inv X d w'" "db_evolves w w'" "head_known X (stored_chain d w) h"
    and "h \<noteq> chain_tip X (stored_chain d w)"
  shows "h \<noteq> chain_tip X (stored_chain d w')"
proof
  assume at_tip: "h = chain_tip X (stored_chain d w')"
  obtain n where n: "n \<le> length (stored_chain d w)" "h = chain_tip X (take n (stored_chain d w))"
    using assms(4) by (auto simp: head_known_def)
  obtain fs where fs: "stored_chain d w' = stored_chain d w @ fs" using stored_chain_evolves [OF assms(3)] by blast
  have "length (stored_chain d w') \<le> 2 ^ 53" "length (take n (stored_chain d w)) \<le> 2 ^ 53"
    using assms(1,2) by (auto simp: chain_inv_def)
  with chain_tip_length [of "stored_chain d w'" "take n (stored_chain d w)" X] at_tip n(2)
  have "length (stored_chain d w') = length (take n (stored_chain d w))" by simp
  with n fs have "n = length (stored_chain d w)" by simp
  with n(2) assms(5) show False by simp
qed

interpretation chains: audit_chain_store "append_linked d" "\<lambda>w. chain_tip X (stored_chain d w)"
  "\<lambda>w. head_known X (stored_chain d w)" "chain_inv X d" db_evolves
  for X d
  by unfold_locales
    (rule append_linked_at_tip, assumption+, rule head_known_evolves, assumption+, rule chain_tip_stale, assumption+)

end
