(* ===== verification/Calendar.thy ===== *)
theory Calendar
  imports Common
begin

section \<open>Shared by the services: messages, calendar and timestamps (\<open>apps/audit-sealer\<close>, \<open>apps/policy-engine\<close>, \<open>apps/identity-provider\<close>)\<close>

text \<open>
  The three services carry the same conversion between epoch seconds and the strict RFC 3339 form
  that \<open>Timestamp::new\<close> accepts. The values stay far below the bounds of \<open>i64\<close>: with \<open>|s| < 2\<^sup>6\<^sup>3\<close>
  the number of days is below \<open>2\<^sup>4\<^sup>7\<close>, so the model computes in \<open>int\<close>; \<open>div\<close> and \<open>mod\<close> are the
  Euclidean division of the source, and its truncating \<open>/\<close> is only used on non-negative values.
  The lemmas show that the conversions are inverse and exactly which instants have a form the
  validator accepts.
\<close>

text \<open>\<open>prost_types::Timestamp\<close>, the type of the instants in the messages of the services.\<close>

record proto_timestamp =
  pt_seconds :: int
  pt_nanos :: int

text \<open>\<open>tonic::Status\<close>, as far as the services build it, and the \<open>Display\<close> of a field error.\<close>

datatype status = InvalidArgument string | Unavailable string | Internal string

fun field_error_to_string :: "field_error \<Rightarrow> string" where
  "field_error_to_string (FieldError f) = ''champ invalide : '' @ [CHR 0x27] @ f @ [CHR 0x27]"

definition civil_from_days :: "int \<Rightarrow> int \<times> int \<times> int" where
  "civil_from_days z0 =
     (let z = z0 + 719468;
          era = z div 146097;
          doe = z mod 146097;
          yoe = (doe - doe div 1460 + doe div 36524 - doe div 146096) div 365;
          y = yoe + era * 400;
          doy = doe - (365 * yoe + yoe div 4 - yoe div 100);
          mp = (5 * doy + 2) div 153;
          d = doy - (153 * mp + 2) div 5 + 1;
          m = (if mp < 10 then mp + 3 else mp - 9);
          y' = (if m \<le> 2 then y + 1 else y)
      in (y', m, d))"

definition days_from_civil :: "int \<Rightarrow> int \<Rightarrow> int \<Rightarrow> int" where
  "days_from_civil y0 m d =
     (let y = (if m \<le> 2 then y0 - 1 else y0);
          era = y div 400;
          yoe = y mod 400;
          mp = (if m > 2 then m - 3 else m + 9);
          doy = (153 * mp + 2) div 5 + d - 1;
          doe = yoe * 365 + yoe div 4 - yoe div 100 + doy
      in era * 146097 + doe - 719468)"

text \<open>The decimal form of the formatting machinery, padded with zeros after the sign.\<close>

fun dec_string :: "nat \<Rightarrow> string" where
  "dec_string n =
     (if n < 10 then [char_of (0x30 + n)] else dec_string (n div 10) @ [char_of (0x30 + n mod 10)])"

declare dec_string.simps [simp del]

definition zero_pad :: "nat \<Rightarrow> string \<Rightarrow> string" where
  "zero_pad w ds = replicate (w - length ds) (CHR ''0'') @ ds"

definition fmt_0w :: "nat \<Rightarrow> int \<Rightarrow> string" where
  "fmt_0w w i =
     (if i < 0 then ''-'' @ zero_pad (w - 1) (dec_string (nat (- i))) else zero_pad w (dec_string (nat i)))"

definition rfc3339_from_seconds :: "int \<Rightarrow> string" where
  "rfc3339_from_seconds total_seconds =
     (let days = total_seconds div 86400;
          seconds_of_day = total_seconds mod 86400;
          (year, month, day) = civil_from_days days;
          hour = seconds_of_day div 3600;
          minute = (seconds_of_day mod 3600) div 60;
          second = seconds_of_day mod 60
      in fmt_0w 4 year @ ''-'' @ fmt_0w 2 month @ ''-'' @ fmt_0w 2 day @ ''T'' @
         fmt_0w 2 hour @ '':'' @ fmt_0w 2 minute @ '':'' @ fmt_0w 2 second @ ''Z'')"

text \<open>
  \<open>str::parse\<close> into an \<open>i64\<close>: an optional sign and at least one digit; everything else is an error,
  which the source unwraps. At most four bytes are parsed, so the value cannot overflow.
\<close>

definition parse_dec :: "string \<Rightarrow> (int, 'e) outcome" where
  "parse_dec s =
     (let (neg, ds) = (case s of
            c # cs \<Rightarrow> if c = CHR ''-'' then (True, cs) else if c = CHR ''+'' then (False, cs) else (False, s)
          | [] \<Rightarrow> (False, []))
      in if ds = [] \<or> \<not> list_all is_ascii_digit ds then Panic
         else let n = fold (\<lambda>c n. n * 10 + int (char_code c - 0x30)) ds 0 in Ok (if neg then - n else n))"

definition str_range :: "string \<Rightarrow> nat \<Rightarrow> nat \<Rightarrow> (string, 'e) outcome" where
  "str_range s a b = (if a \<le> b \<and> b \<le> length s then Ok (take (b - a) (drop a s)) else Panic)"

definition request_time_from_rfc3339 :: "string \<Rightarrow> (int, 'e) outcome" where
  "request_time_from_rfc3339 s =
     and_then (and_then (str_range s 0 4) parse_dec) (\<lambda>year.
     and_then (and_then (str_range s 5 7) parse_dec) (\<lambda>month.
     and_then (and_then (str_range s 8 10) parse_dec) (\<lambda>day.
     and_then (and_then (str_range s 11 13) parse_dec) (\<lambda>hour.
     and_then (and_then (str_range s 14 16) parse_dec) (\<lambda>minute.
     and_then (and_then (str_range s 17 19) parse_dec) (\<lambda>second.
       Ok (days_from_civil year month day * 86400 + hour * 3600 + minute * 60 + second)))))))"

section \<open>Properties\<close>

subsection \<open>The year of a day\<close>

text \<open>
  A day of the 400-year era, counted from the first of March: \<open>c\<close> full centuries, \<open>q\<close> full
  four-year cycles, \<open>r\<close> full years and \<open>t\<close> days. Only the last year of a cycle can have 366 days, and
  only the last century ends with such a year.
\<close>

definition era_day :: "int \<Rightarrow> int \<Rightarrow> int \<Rightarrow> int \<Rightarrow> bool" where
  "era_day c q r t \<longleftrightarrow>
     0 \<le> c \<and> c \<le> 3 \<and> 0 \<le> q \<and> q \<le> 24 \<and> 0 \<le> r \<and> r \<le> 3 \<and> 0 \<le> t \<and> t \<le> 365 \<and> (t = 365 \<longrightarrow> r = 3) \<and>
     (c < 3 \<longrightarrow> 1461 * q + 365 * r + t < 36524)"

lemma era_day_exists:
  assumes "0 \<le> doe" "doe \<le> 146096"
  obtains c q r t where "era_day c q r t" "doe = 36524 * c + 1461 * q + 365 * r + t"
proof -
  define c where "c = min 3 (doe div 36524)"
  define e where "e = doe - 36524 * c"
  have "36524 * (doe div 36524) \<le> doe" "doe < 36524 * (doe div 36524) + 36524" by simp_all
  then have c: "0 \<le> c" "c \<le> 3" "0 \<le> e" "e \<le> 36524" "c < 3 \<longrightarrow> e < 36524"
    using assms by (auto simp: c_def e_def min_def)
  define q where "q = e div 1461"
  define f where "f = e mod 1461"
  have q: "0 \<le> q" "q \<le> 24" "0 \<le> f" "f \<le> 1460" "e = 1461 * q + f"
    using c by (auto simp: q_def f_def)
  define r where "r = min 3 (f div 365)"
  define t where "t = f - 365 * r"
  have "365 * (f div 365) \<le> f" "f < 365 * (f div 365) + 365" by simp_all
  then have "0 \<le> r" "r \<le> 3" "0 \<le> t" "t \<le> 365" "t = 365 \<longrightarrow> r = 3"
    using q by (auto simp: r_def t_def min_def)
  then have "era_day c q r t" using c q by (auto simp: era_day_def t_def)
  moreover have "doe = 36524 * c + 1461 * q + 365 * r + t" using q by (simp add: e_def t_def)
  ultimately show ?thesis by (rule that)
qed

lemma era_day_year:
  assumes "era_day c q r t" and doe: "doe = 36524 * c + 1461 * q + 365 * r + t" and "doe \<le> 146096"
  shows "(doe - doe div 1460 + doe div 36524 - doe div 146096) div 365 = 100 * c + 4 * q + r"
    and "365 * (100 * c + 4 * q + r) + (100 * c + 4 * q + r) div 4 - (100 * c + 4 * q + r) div 100 + t = doe"
proof -
  note b = assms(1) [unfolded era_day_def]
  let ?x = "24 * c + q + 365 * r + t"
  have k1460: "doe div 1460 = 25 * c + q + (if 1460 \<le> ?x then 1 else 0)"
    using b doe by (intro int_div_pos_eq [where r = "?x - (if 1460 \<le> ?x then 1460 else 0)"]) auto
  have cancel: "doe div 36524 - doe div 146096 = c"
  proof (cases "doe = 146096")
    case True
    then have "c = 3" using b doe by linarith
    with True show ?thesis by simp
  next
    case False
    then have "doe div 146096 = 0" using b doe assms(3) by (intro div_pos_pos_trivial) auto
    moreover have "doe div 36524 = c"
      using b doe False assms(3) by (intro int_div_pos_eq [where r = "1461 * q + 365 * r + t"]) auto
    ultimately show ?thesis by simp
  qed
  have "(doe - doe div 1460 + doe div 36524 - doe div 146096) =
      365 * (100 * c + 4 * q + r) + (t - (if 1460 \<le> ?x then 1 else 0))"
    using cancel k1460 doe by (simp add: algebra_simps)
  then show "(doe - doe div 1460 + doe div 36524 - doe div 146096) div 365 = 100 * c + 4 * q + r"
    using b by (intro int_div_pos_eq [where r = "t - (if 1460 \<le> ?x then 1 else 0)"]) auto
  have "(100 * c + 4 * q + r) div 4 = 25 * c + q" using b by (intro int_div_pos_eq [where r = r]) auto
  moreover have "(100 * c + 4 * q + r) div 100 = c" using b by (intro int_div_pos_eq [where r = "4 * q + r"]) auto
  ultimately show "365 * (100 * c + 4 * q + r) + (100 * c + 4 * q + r) div 4 - (100 * c + 4 * q + r) div 100 + t = doe"
    using doe by simp
qed

subsection \<open>Inverse conversions\<close>

text \<open>The date in terms of the era and of the position in it.\<close>

lemma civil_from_days_era:
  assumes "era_day c q r t" and "z + 719468 = 146097 * era + (36524 * c + 1461 * q + 365 * r + t)"
  shows "civil_from_days z =
    (let y = 400 * era + 100 * c + 4 * q + r; mp = (5 * t + 2) div 153;
         m = (if mp < 10 then mp + 3 else mp - 9)
     in (if m \<le> 2 then y + 1 else y, m, t - (153 * mp + 2) div 5 + 1))"
proof -
  let ?doe = "36524 * c + 1461 * q + 365 * r + t"
  have b: "0 \<le> ?doe" "?doe \<le> 146096" using assms(1) by (auto simp: era_day_def)
  have "(z + 719468) div 146097 = era" "(z + 719468) mod 146097 = ?doe"
    using b assms(2) by (auto intro: int_div_pos_eq int_mod_pos_eq)
  moreover have "?doe - (365 * (100 * c + 4 * q + r) + (100 * c + 4 * q + r) div 4 - (100 * c + 4 * q + r) div 100) = t"
    using era_day_year(2) [OF assms(1) refl b(2)] by simp
  ultimately show ?thesis
    unfolding civil_from_days_def Let_def
    by (simp only: era_day_year(1) [OF assms(1) refl b(2)]) (simp add: algebra_simps)
qed

lemma day_position:
  obtains era c q r t where "era_day c q r t"
    "z + 719468 = 146097 * era + (36524 * c + 1461 * q + 365 * r + t)"
proof -
  have "0 \<le> (z + 719468) mod 146097" "(z + 719468) mod 146097 \<le> 146096" by simp_all
  then obtain c q r t where "era_day c q r t" "(z + 719468) mod 146097 = 36524 * c + 1461 * q + 365 * r + t"
    by (rule era_day_exists)
  moreover have "z + 719468 = 146097 * ((z + 719468) div 146097) + (z + 719468) mod 146097"
    by simp
  ultimately show ?thesis using that by metis
qed

lemma month_bounds:
  fixes t :: int
  assumes "0 \<le> t" "t \<le> 365"
  shows "0 \<le> (5 * t + 2) div 153" "(5 * t + 2) div 153 \<le> 11"
    and "0 \<le> t - (153 * ((5 * t + 2) div 153) + 2) div 5"
    and "t - (153 * ((5 * t + 2) div 153) + 2) div 5 \<le> 30"
proof -
  define mp where "mp = (5 * t + 2) div 153"
  define k where "k = (153 * mp + 2) div 5"
  have mp: "153 * mp \<le> 5 * t + 2" "5 * t + 2 < 153 * mp + 153" by (simp_all add: mp_def)
  have k: "5 * k \<le> 153 * mp + 2" "153 * mp + 2 < 5 * k + 5" by (simp_all add: k_def)
  show "0 \<le> (5 * t + 2) div 153" "(5 * t + 2) div 153 \<le> 11"
    using mp assms by (simp_all flip: mp_def)
  have "0 \<le> t - k" "t - k \<le> 30" using mp k by linarith+
  then show "0 \<le> t - (153 * ((5 * t + 2) div 153) + 2) div 5"
    and "t - (153 * ((5 * t + 2) div 153) + 2) div 5 \<le> 30"
    by (simp_all add: k_def mp_def)
qed

lemma civil_bounds:
  assumes "civil_from_days z = (y, m, d)"
  shows "1 \<le> m" "m \<le> 12" "1 \<le> d" "d \<le> 31"
proof -
  obtain era c q r t where p: "era_day c q r t"
    "z + 719468 = 146097 * era + (36524 * c + 1461 * q + 365 * r + t)" by (rule day_position)
  then have "0 \<le> t" "t \<le> 365" by (auto simp: era_day_def)
  from month_bounds [OF this] assms civil_from_days_era [OF p]
  show "1 \<le> m" "m \<le> 12" "1 \<le> d" "d \<le> 31" by (auto simp: Let_def split: if_splits)
qed

lemma days_from_civil_from_days:
  assumes "civil_from_days z = (y, m, d)"
  shows "days_from_civil y m d = z"
proof -
  obtain era c q r t where p: "era_day c q r t"
    "z + 719468 = 146097 * era + (36524 * c + 1461 * q + 365 * r + t)" by (rule day_position)
  then have t: "0 \<le> t" "t \<le> 365" by (auto simp: era_day_def)
  define Y where "Y = 100 * c + 4 * q + r"
  define mp where "mp = (5 * t + 2) div 153"
  have Y: "0 \<le> Y" "Y < 400" using p(1) by (auto simp: Y_def era_day_def)
  have mp: "0 \<le> mp" "mp \<le> 11" using month_bounds [OF t] by (simp_all add: mp_def)
  have y: "(if m \<le> 2 then y - 1 else y) = 400 * era + Y" and m: "(if m > 2 then m - 3 else m + 9) = mp"
    and d: "d = t - (153 * mp + 2) div 5 + 1"
    using assms civil_from_days_era [OF p] mp by (auto simp: Let_def Y_def mp_def split: if_splits)
  have "(400 * era + Y) div 400 = era" "(400 * era + Y) mod 400 = Y" using Y by simp_all
  then have "days_from_civil y m d = era * 146097 + (Y * 365 + Y div 4 - Y div 100 + ((153 * mp + 2) div 5 + d - 1)) - 719468"
    unfolding days_from_civil_def Let_def y m by simp
  also have "\<dots> = era * 146097 + (365 * Y + Y div 4 - Y div 100 + t) - 719468" using d by simp
  also have "365 * Y + Y div 4 - Y div 100 + t = 36524 * c + 1461 * q + 365 * r + t"
    unfolding Y_def using p(1) by (intro era_day_year(2)) (auto simp: era_day_def)
  finally show ?thesis using p(2) by simp
qed

subsection \<open>The years a timestamp can express\<close>

lemma era_day_last_year:
  assumes "era_day c q r t"
  shows "100 * c + 4 * q + r = 399 \<longleftrightarrow> 145731 \<le> 36524 * c + 1461 * q + 365 * r + t"
    and "100 * c + 4 * q + r = 399 \<Longrightarrow> 36524 * c + 1461 * q + 365 * r + t = 145731 + t"
proof -
  note b = assms [unfolded era_day_def]
  show "100 * c + 4 * q + r = 399 \<longleftrightarrow> 145731 \<le> 36524 * c + 1461 * q + 365 * r + t"
  proof
    assume "100 * c + 4 * q + r = 399"
    then have "c = 3" "q = 24" "r = 3" using b by linarith+
    then show "145731 \<le> 36524 * c + 1461 * q + 365 * r + t" using b by simp
  next
    assume le: "145731 \<le> 36524 * c + 1461 * q + 365 * r + t"
    then have c: "c = 3" using b by linarith
    with le b have q: "q = 24" by linarith
    from c q le b have "r = 3" by linarith
    with c q show "100 * c + 4 * q + r = 399" by simp
  qed
  assume "100 * c + 4 * q + r = 399"
  then have "c = 3" "q = 24" "r = 3" using b by linarith+
  then show "36524 * c + 1461 * q + 365 * r + t = 145731 + t" by simp
qed

lemma month_after_december:
  fixes t :: int
  shows "10 \<le> (5 * t + 2) div 153 \<longleftrightarrow> 306 \<le> t"
  by linarith

lemma civil_year_range:
  assumes "civil_from_days z = (y, m, d)"
  shows "0 \<le> y \<longleftrightarrow> - 719528 \<le> z" and "y \<le> 9999 \<longleftrightarrow> z < 2932897"
proof -
  obtain era c q r t where p: "era_day c q r t"
    "z + 719468 = 146097 * era + (36524 * c + 1461 * q + 365 * r + t)" by (rule day_position)
  then have t: "0 \<le> t" "t \<le> 365" by (auto simp: era_day_def)
  define Y where "Y = 100 * c + 4 * q + r"
  define doe where "doe = 36524 * c + 1461 * q + 365 * r + t"
  have Y: "0 \<le> Y" "Y \<le> 399" "0 \<le> doe" "doe \<le> 146096"
    using p(1) by (auto simp: Y_def doe_def era_day_def)
  have last: "Y = 399 \<longleftrightarrow> 145731 \<le> doe" "Y = 399 \<longrightarrow> doe = 145731 + t"
    unfolding Y_def doe_def using era_day_last_year [OF p(1)] by blast+
  have z: "z + 719468 = 146097 * era + doe" using p(2) by (simp add: doe_def)
  have "y = 400 * era + Y + (if 10 \<le> (5 * t + 2) div 153 then 1 else 0)"
    using assms civil_from_days_era [OF p] month_bounds [OF t] by (auto simp: Let_def Y_def split: if_splits)
  then have y: "y = 400 * era + Y + (if 306 \<le> t then 1 else 0)" by (simp only: month_after_december)
  consider (late) "Y = 399" "doe = 145731 + t" "306 \<le> t" | (early) "Y = 399" "doe = 145731 + t" "t < 306"
    | (other) "Y \<le> 398" "doe \<le> 145730" using last Y by linarith
  then have "(0 \<le> y \<longleftrightarrow> - 719528 \<le> z) \<and> (y \<le> 9999 \<longleftrightarrow> z < 2932897)"
  proof cases
    case late
    then have "y = 400 * era + 400" using y by simp
    with late z t show ?thesis by (intro conjI iffI) linarith+
  next
    case early
    then have "y = 400 * era + 399" using y by simp
    with early z t show ?thesis by (intro conjI iffI) linarith+
  next
    case other
    have bounds: "400 * era + Y \<le> y" "y \<le> 400 * era + Y + 1" using y by simp_all
    consider "era \<le> - 1" | "0 \<le> era" "era \<le> 24" | "25 \<le> era" by linarith
    then show ?thesis using bounds other z Y by cases (intro conjI iffI; linarith)+
  qed
  then show "0 \<le> y \<longleftrightarrow> - 719528 \<le> z" and "y \<le> 9999 \<longleftrightarrow> z < 2932897" by blast+
qed

subsection \<open>The decimal fields\<close>

abbreviation digit_char :: "nat \<Rightarrow> char" where
  "digit_char n \<equiv> char_of (0x30 + n)"

lemma is_ascii_digit_digit_char: "n < 10 \<Longrightarrow> is_ascii_digit (digit_char n)"
  by (simp add: is_ascii_digit_def)

lemma dec_string_small: "n < 10 \<Longrightarrow> dec_string n = [digit_char n]"
  by (simp add: dec_string.simps [of n])

lemma dec_string_step: "10 \<le> n \<Longrightarrow> dec_string n = dec_string (n div 10) @ [digit_char (n mod 10)]"
  by (subst dec_string.simps) simp

lemma length_dec_string_pos: "0 < length (dec_string n)"
  by (subst dec_string.simps) simp

lemma zero_char: "CHR ''0'' = digit_char 0"
  using char_of_char [of "CHR ''0''", where 'a = nat] by simp

lemma zero_pad_two: "n < 100 \<Longrightarrow> zero_pad 2 (dec_string n) = [digit_char (n div 10), digit_char (n mod 10)]"
  by (cases "n < 10") (simp_all add: zero_pad_def dec_string_small dec_string_step zero_char)

lemma zero_pad_four:
  assumes "n < 10000"
  shows "zero_pad 4 (dec_string n) =
    [digit_char (n div 1000), digit_char (n div 100 mod 10), digit_char (n div 10 mod 10), digit_char (n mod 10)]"
proof -
  have d: "n div 10 div 10 = n div 100" "n div 100 div 10 = n div 1000"
    by (simp_all flip: div_mult2_eq)
  consider (1) "n < 10" | (2) "10 \<le> n" "n < 100" | (3) "100 \<le> n" "n < 1000" | (4) "1000 \<le> n" by linarith
  then show ?thesis
  proof cases
    case 1
    then show ?thesis by (simp add: zero_pad_def dec_string_small zero_char numeral_3_eq_3)
  next
    case 2
    then have "dec_string n = [digit_char (n div 10), digit_char (n mod 10)]"
      by (simp add: dec_string_small dec_string_step)
    with 2 show ?thesis by (simp add: zero_pad_def zero_char numeral_2_eq_2)
  next
    case 3
    then have "dec_string n = [digit_char (n div 100), digit_char (n div 10 mod 10), digit_char (n mod 10)]"
      by (simp add: dec_string_small dec_string_step [of n] dec_string_step [of "n div 10"] d)
    with 3 show ?thesis by (simp add: zero_pad_def zero_char)
  next
    case 4
    then have "dec_string n =
      [digit_char (n div 1000), digit_char (n div 100 mod 10), digit_char (n div 10 mod 10), digit_char (n mod 10)]"
      using assms by (simp add: dec_string_small dec_string_step [of n] dec_string_step [of "n div 10"]
          dec_string_step [of "n div 100"] d)
    then show ?thesis by (simp add: zero_pad_def)
  qed
qed

lemma length_dec_string_large: "10000 \<le> n \<Longrightarrow> 5 \<le> length (dec_string n)"
proof -
  assume n: "10000 \<le> n"
  have step: "Suc (length (dec_string (k div 10))) = length (dec_string k)" if "10 \<le> k" for k
    using dec_string_step [OF that] by simp
  have "10 \<le> n" "10 \<le> n div 10" "10 \<le> n div 10 div 10" "10 \<le> n div 10 div 10 div 10" using n by simp_all
  note this [THEN step] length_dec_string_pos [of "n div 10 div 10 div 10 div 10"]
  then show ?thesis by linarith
qed

lemma fmt_two: "0 \<le> i \<Longrightarrow> i < 100 \<Longrightarrow>
    fmt_0w 2 i = [digit_char (nat i div 10), digit_char (nat i mod 10)]"
  by (simp add: fmt_0w_def zero_pad_two)

lemma fmt_four: "0 \<le> i \<Longrightarrow> i < 10000 \<Longrightarrow>
    fmt_0w 4 i = [digit_char (nat i div 1000), digit_char (nat i div 100 mod 10),
      digit_char (nat i div 10 mod 10), digit_char (nat i mod 10)]"
  by (simp add: fmt_0w_def zero_pad_four)

lemma digit_char_not_sign: "n < 10 \<Longrightarrow> digit_char n \<noteq> CHR ''-'' \<and> digit_char n \<noteq> CHR ''+''"
  using of_char_of [of "0x30 + n :: nat"] by (auto dest: arg_cong [where f = "of_char :: char \<Rightarrow> nat"])

lemma parse_dec_digits:
  assumes "\<forall>n \<in> set ns. n < 10" and "ns \<noteq> []"
  shows "parse_dec (map digit_char ns) = Ok (fold (\<lambda>n v. v * 10 + int n) ns 0)"
proof -
  have digits: "list_all is_ascii_digit (map digit_char ns)"
    using assms(1) is_ascii_digit_digit_char by (auto simp: list_all_iff)
  have folded: "fold (\<lambda>c v. v * 10 + int (char_code c - 0x30)) (map digit_char ns) v = fold (\<lambda>n v. v * 10 + int n) ns v" for v
    using assms(1) by (induction ns arbitrary: v) auto
  obtain n ns' where ns: "ns = n # ns'" using assms(2) by (cases ns) auto
  then have "digit_char n \<noteq> CHR ''-''" "digit_char n \<noteq> CHR ''+''"
    using assms(1) digit_char_not_sign by auto
  then show ?thesis using digits folded [of 0] by (simp add: parse_dec_def Let_def ns)
qed

text \<open>A field of two or four digits is made of digits, and parses to its value.\<close>

lemma fmt_two_parse:
  assumes "0 \<le> i" "i < 100"
  obtains a b where "fmt_0w 2 i = [a, b]" "is_ascii_digit a" "is_ascii_digit b" "parse_dec [a, b] = (Ok i :: (int, 'e) outcome)"
proof (rule that [OF fmt_two [OF assms]])
  have d: "nat i div 10 < 10" "nat i mod 10 < 10" using assms by auto
  then show "is_ascii_digit (digit_char (nat i div 10))" "is_ascii_digit (digit_char (nat i mod 10))"
    by (simp_all only: is_ascii_digit_digit_char)
  have "int (nat i div 10) * 10 + int (nat i mod 10) = i"
    using assms by (metis div_mult_mod_eq nat_0_le of_nat_add of_nat_mult of_nat_numeral)
  moreover have "parse_dec [digit_char (nat i div 10), digit_char (nat i mod 10)] =
      (Ok (int (nat i div 10) * 10 + int (nat i mod 10)) :: (int, 'e) outcome)"
    using parse_dec_digits [of "[nat i div 10, nat i mod 10]"] d by simp
  ultimately show "parse_dec [digit_char (nat i div 10), digit_char (nat i mod 10)] = (Ok i :: (int, 'e) outcome)"
    by (simp only:)
qed

lemma four_digits: "((n div 1000 * 10 + n div 100 mod 10) * 10 + n div 10 mod 10) * 10 + n mod 10 = (n::nat)"
proof -
  have "n div 1000 = n div 100 div 10" "n div 100 = n div 10 div 10" by (simp_all flip: div_mult2_eq)
  then have "n div 1000 * 10 + n div 100 mod 10 = n div 100" "n div 100 * 10 + n div 10 mod 10 = n div 10"
    by (simp_all only: div_mult_mod_eq)
  then show ?thesis by (simp only: div_mult_mod_eq)
qed

lemma fmt_four_parse:
  assumes "0 \<le> i" "i < 10000"
  obtains a b c d where "fmt_0w 4 i = [a, b, c, d]"
    "is_ascii_digit a" "is_ascii_digit b" "is_ascii_digit c" "is_ascii_digit d"
    "parse_dec [a, b, c, d] = (Ok i :: (int, 'e) outcome)"
proof (rule that [OF fmt_four [OF assms]])
  define n where "n = nat i"
  have n: "n < 10000" "int n = i" using assms by (simp_all add: n_def)
  have d: "n div 1000 < 10" "n div 100 mod 10 < 10" "n div 10 mod 10 < 10" "n mod 10 < 10" using n by auto
  then show "is_ascii_digit (digit_char (nat i div 1000))" "is_ascii_digit (digit_char (nat i div 100 mod 10))"
    "is_ascii_digit (digit_char (nat i div 10 mod 10))" "is_ascii_digit (digit_char (nat i mod 10))"
    unfolding n_def by (simp_all only: is_ascii_digit_digit_char)
  have "int (((n div 1000 * 10 + n div 100 mod 10) * 10 + n div 10 mod 10) * 10 + n mod 10) = i"
    using n by (simp only: four_digits)
  then show "parse_dec [digit_char (nat i div 1000), digit_char (nat i div 100 mod 10),
      digit_char (nat i div 10 mod 10), digit_char (nat i mod 10)] = Ok i"
    using parse_dec_digits [of "[n div 1000, n div 100 mod 10, n div 10 mod 10, n mod 10]"] d
    by (simp only: n_def [symmetric] list.map list.set fold_simps of_nat_add of_nat_mult of_nat_numeral
        ball_simps insert_iff list.distinct simp_thms mult_zero_left add_0) simp
qed

subsection \<open>Timestamps\<close>

definition max_seconds :: int where
  "max_seconds = 253402300799"

definition min_seconds :: int where
  "min_seconds = - 62167219200"

text \<open>Both bounds are those of the four-digit years.\<close>

lemma timestamp_years:
  assumes "civil_from_days (s div 86400) = (y, m, d)"
  shows "0 \<le> y \<and> y \<le> 9999 \<longleftrightarrow> min_seconds \<le> s \<and> s \<le> max_seconds"
proof -
  have "- 719528 \<le> s div 86400 \<longleftrightarrow> min_seconds \<le> s" by (simp add: min_seconds_def) linarith
  moreover have "s div 86400 < 2932897 \<longleftrightarrow> s \<le> max_seconds" by (simp add: max_seconds_def) linarith
  ultimately show ?thesis using civil_year_range [OF assms] by simp
qed

lemma day_fields:
  fixes s :: int
  defines "t \<equiv> s mod 86400"
  shows "0 \<le> t div 3600" "t div 3600 < 24" "0 \<le> t mod 3600 div 60" "t mod 3600 div 60 < 60"
    "0 \<le> t mod 60" "t mod 60 < 60" "t div 3600 * 3600 + t mod 3600 div 60 * 60 + t mod 60 = t"
proof -
  have t: "0 \<le> t" "t < 86400" by (simp_all add: t_def)
  then show "0 \<le> t div 3600" "t div 3600 < 24" "0 \<le> t mod 3600 div 60" "t mod 3600 div 60 < 60"
    "0 \<le> t mod 60" "t mod 60 < 60" by auto
  have "t mod 3600 mod 60 = t mod 60" by (simp add: mod_mod_cancel)
  then show "t div 3600 * 3600 + t mod 3600 div 60 * 60 + t mod 60 = t"
    using div_mult_mod_eq [of t 3600] div_mult_mod_eq [of "t mod 3600" 60] by (metis add.assoc)
qed

lemma rfc3339_shape:
  assumes "civil_from_days (s div 86400) = (y, m, d)"
  shows "rfc3339_from_seconds s = fmt_0w 4 y @ ''-'' @ fmt_0w 2 m @ ''-'' @ fmt_0w 2 d @ ''T'' @
    fmt_0w 2 (s mod 86400 div 3600) @ '':'' @ fmt_0w 2 (s mod 86400 mod 3600 div 60) @ '':'' @
    fmt_0w 2 (s mod 86400 mod 60) @ ''Z''"
  by (simp add: rfc3339_from_seconds_def Let_def assms)

lemma length_fmt_two: "0 \<le> i \<Longrightarrow> i < 100 \<Longrightarrow> length (fmt_0w 2 i) = 2"
  by (simp add: fmt_two)

text \<open>The form of an instant within the four-digit years, field by field.\<close>

lemma rfc3339_fields:
  assumes "min_seconds \<le> s" "s \<le> max_seconds"
  shows "timestamp_valid (rfc3339_from_seconds s) \<and>
    request_time_from_rfc3339 (rfc3339_from_seconds s) = (Ok s :: (int, 'e) outcome)"
proof -
  obtain y m d where c: "civil_from_days (s div 86400) = (y, m, d)" by (cases "civil_from_days (s div 86400)")
  have y: "0 \<le> y" "y < 10000" using timestamp_years [OF c] assms by auto
  have md: "0 \<le> m" "m < 100" "0 \<le> d" "d < 100" using civil_bounds [OF c] by auto
  note hms = day_fields [of s]
  note two = fmt_two_parse [where 'e = 'e]
  obtain y1 y2 y3 y4 where Y: "fmt_0w 4 y = [y1, y2, y3, y4]" "is_ascii_digit y1" "is_ascii_digit y2"
    "is_ascii_digit y3" "is_ascii_digit y4" "parse_dec [y1, y2, y3, y4] = (Ok y :: (int, 'e) outcome)"
    using fmt_four_parse [OF y, where 'e = 'e] by metis
  obtain m1 m2 where M: "fmt_0w 2 m = [m1, m2]" "is_ascii_digit m1" "is_ascii_digit m2"
    "parse_dec [m1, m2] = (Ok m :: (int, 'e) outcome)" using two [OF md(1, 2)] by metis
  obtain d1 d2 where D: "fmt_0w 2 d = [d1, d2]" "is_ascii_digit d1" "is_ascii_digit d2"
    "parse_dec [d1, d2] = (Ok d :: (int, 'e) outcome)" using two [OF md(3, 4)] by metis
  define h n k where "h = s mod 86400 div 3600" and "n = s mod 86400 mod 3600 div 60" and "k = s mod 86400 mod 60"
  have hnk: "0 \<le> h" "h < 100" "0 \<le> n" "n < 100" "0 \<le> k" "k < 100"
    using day_fields [of s] by (simp_all flip: h_def n_def k_def)
  obtain h1 h2 where H: "fmt_0w 2 h = [h1, h2]" "is_ascii_digit h1" "is_ascii_digit h2"
    "parse_dec [h1, h2] = (Ok h :: (int, 'e) outcome)" using two [OF hnk(1, 2)] by metis
  obtain n1 n2 where N: "fmt_0w 2 n = [n1, n2]" "is_ascii_digit n1" "is_ascii_digit n2"
    "parse_dec [n1, n2] = (Ok n :: (int, 'e) outcome)" using two [OF hnk(3, 4)] by metis
  obtain k1 k2 where K: "fmt_0w 2 k = [k1, k2]" "is_ascii_digit k1" "is_ascii_digit k2"
    "parse_dec [k1, k2] = (Ok k :: (int, 'e) outcome)" using two [OF hnk(5, 6)] by metis
  have shape: "rfc3339_from_seconds s =
      [y1, y2, y3, y4, CHR ''-'', m1, m2, CHR ''-'', d1, d2, CHR ''T'', h1, h2, CHR '':'', n1, n2, CHR '':'', k1, k2, CHR ''Z'']"
    by (simp only: rfc3339_shape [OF c] h_def [symmetric] n_def [symmetric] k_def [symmetric]
        Y(1) M(1) D(1) H(1) N(1) K(1) append.simps)
  have "h * 3600 + n * 60 + k = s mod 86400" unfolding h_def n_def k_def by (rule day_fields)
  then have "days_from_civil y m d * 86400 + h * 3600 + n * 60 + k = s"
    using days_from_civil_from_days [OF c] div_mult_mod_eq [of s 86400] by linarith
  then have "request_time_from_rfc3339 (rfc3339_from_seconds s) = (Ok s :: (int, 'e) outcome)"
    by (simp add: request_time_from_rfc3339_def shape str_range_def Y M D H N K)
  moreover have "timestamp_valid (rfc3339_from_seconds s)"
    by (simp add: shape timestamp_valid_def Y M D H N K)
  ultimately show ?thesis by blast
qed

lemma timestamp_valid_rfc3339:
  "timestamp_valid (rfc3339_from_seconds s) \<longleftrightarrow> min_seconds \<le> s \<and> s \<le> max_seconds"
proof (cases "min_seconds \<le> s \<and> s \<le> max_seconds")
  case True
  then show ?thesis using rfc3339_fields by blast
next
  case False
  obtain y m d where c: "civil_from_days (s div 86400) = (y, m, d)" by (cases "civil_from_days (s div 86400)")
  from False consider "y < 0" | "10000 \<le> y" using timestamp_years [OF c] by linarith
  then have "\<not> timestamp_valid (rfc3339_from_seconds s)"
  proof cases
    case 1
    then have "rfc3339_from_seconds s ! 0 = CHR ''-''" by (simp add: rfc3339_shape [OF c] fmt_0w_def)
    then show ?thesis by (cases "rfc3339_from_seconds s") (auto simp: timestamp_valid_def is_ascii_digit_def)
  next
    case 2
    then have "5 \<le> length (dec_string (nat y))" by (simp add: length_dec_string_large)
    then have "5 \<le> length (fmt_0w 4 y)" using 2 by (simp add: fmt_0w_def zero_pad_def)
    moreover have "2 = length (fmt_0w 2 m)" "2 = length (fmt_0w 2 d)"
      using civil_bounds [OF c] by (simp_all add: length_fmt_two)
    moreover have "2 = length (fmt_0w 2 (s mod 86400 div 3600))"
      "2 = length (fmt_0w 2 (s mod 86400 mod 3600 div 60))" "2 = length (fmt_0w 2 (s mod 86400 mod 60))"
      by (rule length_fmt_two [symmetric]; rule day_fields order_less_le_trans [OF day_fields(2)]
          order_less_le_trans [OF day_fields(4)] order_less_le_trans [OF day_fields(6)]; simp)+
    ultimately have "length (rfc3339_from_seconds s) \<noteq> 20" unfolding rfc3339_shape [OF c] by simp
    then show ?thesis by (simp add: timestamp_valid_def)
  qed
  with False show ?thesis by blast
qed

end
