(* ===== verification/Audit_Sealer.thy ===== *)
theory Audit_Sealer
  imports Audit_Seal Audit_Chain Calendar
begin

section \<open>The sealing bridge (\<open>apps/audit-sealer/src/lib.rs\<close>)\<close>

text \<open>
  The service that seals the events of the Go collector. A request carries untrusted strings and
  byte vectors; \<open>fields_from_request\<close> turns it into the typed fields of \<open>audit-seal/v1\<close> or refuses
  it. The messages of \<open>contracts/proto/audit/v1/sealing.proto\<close> are records; the epoch seconds of a
  \<open>google.protobuf.Timestamp\<close> are an \<open>int\<close>. The lemmas show that a request that passes has every
  field validated by its constructor, and that what the service seals is accepted by \<open>verify\<close>
  with the values of the request.
\<close>

subsection \<open>Messages\<close>

record proto_actor =
  pa_subject_id :: string
  pa_kind :: string
  pa_aal :: "string option"
  pa_auth_method :: "string option"

record proto_target =
  ptg_type :: string
  ptg_id :: string

record proto_context =
  pc_source_network :: "string option"
  pc_ticket_ref :: "string option"
  pc_justification :: "string option"

record proto_decision =
  pd_request_id :: string
  pd_decision_hash :: bytes
  pd_policy_version :: string
  pd_reasons :: "string list"
  pd_granted_ttl_seconds :: "u32 option"
  pd_decision_signature :: "bytes option"
  pd_decision_signature_key_id :: "string option"

record seal_request =
  sr_event_id :: string
  sr_sequence :: u64
  sr_prev_hash :: bytes
  sr_occurred_at :: "proto_timestamp option"
  sr_authority_domain :: string
  sr_event_type :: string
  sr_actor :: "proto_actor option"
  sr_target :: "proto_target option"
  sr_outcome :: string
  sr_context :: "proto_context option"
  sr_decision :: "proto_decision option"

record seal_response =
  sres_sealed_bytes :: bytes

record hash_previous_request =
  hpr_sealed_bytes :: bytes

record hash_previous_response =
  hps_digest :: bytes

text \<open>The \<open>Display\<close> of the sealing error; the accented letters are their UTF-8 encoding.\<close>

fun audit_seal_error_to_string :: "audit_seal_error \<Rightarrow> string" where
  "audit_seal_error_to_string (InvalidFields f) =
     ''contenu d'' @ [CHR 0x27, CHR 0xC3, CHR 0xA9] @ ''v'' @ [CHR 0xC3, CHR 0xA9] @
     ''nement invalide : champ '' @ [CHR 0x27] @ f @ [CHR 0x27]"
| "audit_seal_error_to_string SealingUnavailable = ''scellement indisponible''"

subsection \<open>Contract strings\<close>

definition event_type_from_str :: "string \<Rightarrow> audit_event_type option" where
  "event_type_from_str s =
     (if s = ''authenticator.registered'' then Some AuthenticatorRegistered
      else if s = ''authenticator.revoked'' then Some AuthenticatorRevoked
      else if s = ''authentication.attempted'' then Some AuthenticationAttempted
      else if s = ''authentication.succeeded'' then Some AuthenticationSucceeded
      else if s = ''authentication.failed'' then Some AuthenticationFailed
      else if s = ''recovery.initiated'' then Some RecoveryInitiated
      else if s = ''quorum.operation'' then Some QuorumOperation
      else if s = ''audit.chain_verified'' then Some AuditChainVerified
      else if s = ''policy.decided'' then Some PolicyDecided
      else if s = ''credential.issued'' then Some CredentialIssued
      else None)"

definition actor_kind_from_str :: "string \<Rightarrow> actor_kind option" where
  "actor_kind_from_str s =
     (if s = ''human'' then Some Human
      else if s = ''workload'' then Some Workload
      else if s = ''system'' then Some System
      else None)"

definition outcome_from_str :: "string \<Rightarrow> audit_outcome option" where
  "outcome_from_str s =
     (if s = ''success'' then Some OutcomeSuccess
      else if s = ''denied'' then Some OutcomeDenied
      else if s = ''error'' then Some OutcomeError
      else None)"

definition assurance_level_from_str :: "string \<Rightarrow> assurance_level option" where
  "assurance_level_from_str s =
     (if s = ''AAL1'' then Some Aal1
      else if s = ''AAL2'' then Some Aal2
      else if s = ''AAL3'' then Some Aal3
      else None)"

subsection \<open>From a request to the fields of an event\<close>

definition field_result :: "('a, field_error) outcome \<Rightarrow> ('a, string) outcome" where
  "field_result r = map_err field_error_to_string r"

text \<open>\<open>Vec::try_into\<close> an array of 32 bytes.\<close>

definition array32 :: "string \<Rightarrow> bytes \<Rightarrow> (bytes, string) outcome" where
  "array32 e bs = (if length bs = 32 then Ok bs else Err e)"

definition actor_from_proto :: "proto_actor \<Rightarrow> (audit_actor, string) outcome" where
  "actor_from_proto actor =
     and_then (ok_or ''actor_kind_inconnu'' (actor_kind_from_str (pa_kind actor))) (\<lambda>kind.
     and_then (traverse_option (\<lambda>s. ok_or ''aal_inconnu'' (assurance_level_from_str s)) (pa_aal actor)) (\<lambda>aal.
     and_then (field_result (traverse_option AuthMethod_new (pa_auth_method actor))) (\<lambda>auth_method.
     and_then (field_result (SubjectId_new (pa_subject_id actor))) (\<lambda>subject_id.
       Ok \<lparr>actor_subject_id = subject_id, actor_kind_of = kind, actor_aal = aal,
           actor_auth_method = auth_method\<rparr>))))"

definition target_from_proto :: "proto_target \<Rightarrow> (audit_target, string) outcome" where
  "target_from_proto target =
     and_then (field_result (ShortText_new (ptg_type target))) (\<lambda>t.
     and_then (field_result (ShortText_new (ptg_id target))) (\<lambda>i.
       Ok \<lparr>target_type = t, target_id = i\<rparr>))"

definition decision_from_proto :: "proto_decision \<Rightarrow> (decision_info, string) outcome" where
  "decision_from_proto decision =
     and_then (array32 ''decision_hash_doit_faire_32_octets'' (pd_decision_hash decision)) (\<lambda>decision_hash.
     and_then (field_result (collect_results (map Reason_new (pd_reasons decision)))) (\<lambda>reasons.
     and_then (field_result (RequestId_new (pd_request_id decision))) (\<lambda>request_id.
     and_then (field_result (PolicyVersion_new (pd_policy_version decision))) (\<lambda>policy_version.
     and_then (field_result (traverse_option ShortText_new (pd_decision_signature_key_id decision))) (\<lambda>key_id.
       Ok \<lparr>di_request_id = request_id, di_decision_hash = decision_hash,
           di_policy_version = policy_version, di_reasons = reasons,
           di_granted_ttl_seconds = pd_granted_ttl_seconds decision,
           di_decision_signature = pd_decision_signature decision,
           di_decision_signature_key_id = key_id\<rparr>)))))"

definition context_from_proto :: "proto_context \<Rightarrow> (audit_context, string) outcome" where
  "context_from_proto ctx =
     and_then (field_result (traverse_option ShortText_new (pc_source_network ctx))) (\<lambda>source_network.
     and_then (field_result (traverse_option ShortText_new (pc_ticket_ref ctx))) (\<lambda>ticket_ref.
     and_then (field_result (traverse_option Justification_new (pc_justification ctx))) (\<lambda>justification.
       Ok \<lparr>ctx_source_network = source_network, ctx_ticket_ref = ticket_ref,
           ctx_justification = justification\<rparr>)))"

definition fields_from_request :: "seal_request \<Rightarrow> (audit_event_fields, string) outcome" where
  "fields_from_request req =
     and_then (ok_or ''event_type_inconnu_ou_non_supporte'' (event_type_from_str (sr_event_type req))) (\<lambda>event_type.
     and_then (ok_or ''outcome_inconnu'' (outcome_from_str (sr_outcome req))) (\<lambda>outc.
     and_then (array32 ''prev_hash_doit_faire_32_octets'' (sr_prev_hash req)) (\<lambda>prev_hash.
     and_then (ok_or ''occurred_at_absent'' (sr_occurred_at req)) (\<lambda>occurred_at.
     let occurred_at_str = rfc3339_from_seconds (pt_seconds occurred_at) in
     and_then (ok_or ''actor_absent'' (sr_actor req)) (\<lambda>proto_actor.
     and_then (actor_from_proto proto_actor) (\<lambda>actor.
     and_then (traverse_option target_from_proto (sr_target req)) (\<lambda>target.
     and_then (traverse_option context_from_proto (sr_context req)) (\<lambda>ctx.
     and_then (traverse_option decision_from_proto (sr_decision req)) (\<lambda>decision.
     and_then (field_result (EventId_new (sr_event_id req))) (\<lambda>event_id.
     and_then (field_result (Sequence_new (sr_sequence req))) (\<lambda>sequence.
     and_then (field_result (Timestamp_new occurred_at_str)) (\<lambda>timestamp.
     and_then (field_result (AuthorityDomain_new (sr_authority_domain req))) (\<lambda>authority_domain.
       Ok \<lparr>ev_event_id = event_id, ev_sequence = sequence, ev_prev_hash = prev_hash,
           ev_occurred_at = timestamp, ev_authority_domain = authority_domain,
           ev_event_type = event_type, ev_actor = actor, ev_target = target, ev_outcome = outc,
           ev_context = ctx, ev_decision = decision\<rparr>)))))))))))))"

subsection \<open>The service\<close>

definition sealer_service_seal ::
  "'x zs_ext_scheme \<Rightarrow> 't pkcs11 \<Rightarrow> wakes \<Rightarrow> seal_request \<Rightarrow>
     ('t sealer, seal_response, status) action" where
  "sealer_service_seal X P wakes req =
     act_bind (act_lift (map_err InvalidArgument (fields_from_request req))) (\<lambda>fs.
     act_bind (act_map_err (\<lambda>e. Unavailable (''scellement indisponible : '' @ audit_seal_error_to_string e))
         (audit_seal X P wakes fs)) (\<lambda>sealed.
       act_return \<lparr>sres_sealed_bytes = sealed\<rparr>))"

definition sealer_service_hash_previous ::
  "'x zs_ext_scheme \<Rightarrow> hash_previous_request \<Rightarrow> (hash_previous_response, status) outcome" where
  "sealer_service_hash_previous X req =
     Ok \<lparr>hps_digest = hash_sealed_event X (hpr_sealed_bytes req)\<rparr>"

section \<open>Properties\<close>

lemma contract_strings_agree:
  "event_type_from_str = event_type_from_contract_str"
  "actor_kind_from_str = actor_kind_from_contract_str"
  "outcome_from_str = outcome_from_contract_str"
  by (simp_all add: fun_eq_iff event_type_from_str_def event_type_from_contract_str_def actor_kind_from_str_def
      actor_kind_from_contract_str_def outcome_from_str_def outcome_from_contract_str_def)

lemma array32_Ok [outcome_simps]: "array32 e bs = Ok r \<longleftrightarrow> length bs = 32 \<and> r = bs"
  by (auto simp: array32_def)

lemma field_result_Ok [outcome_simps]: "field_result r = Ok x \<longleftrightarrow> r = Ok x"
  by (simp add: field_result_def outcome_simps)

lemma array32_not_Panic [outcome_simps]: "array32 e bs \<noteq> Panic"
  by (simp add: array32_def)

lemma field_result_Panic [outcome_simps]: "field_result r = Panic \<longleftrightarrow> r = Panic"
  by (simp add: field_result_def outcome_simps)

subsection \<open>The contract of a validated field type\<close>

text \<open>
  Every validated type of the suite keeps the string it was given or refuses it. From this follow
  the behaviours of the optional fields and of the vectors.
\<close>

locale validated_field =
  fixes new :: "string \<Rightarrow> (string, field_error) outcome"
  assumes new_same: "new s = Ok t \<Longrightarrow> t = s"
    and new_returns: "new s \<noteq> Panic"
begin

lemma new_valid: "new s = Ok t \<Longrightarrow> new t = Ok t"
  using new_same by blast

lemma option_Ok: "traverse_option new m = Ok r \<Longrightarrow> r = m \<and> pred_option (\<lambda>x. new x = Ok x) r"
  using new_same new_valid by (cases m) (auto simp: outcome_simps)

lemma option_returns: "traverse_option new m \<noteq> Panic"
  using new_returns by (cases m) (auto simp: outcome_simps)

lemma collect_Ok: "collect_results (map new xs) = Ok ys \<Longrightarrow> ys = xs \<and> (\<forall>y \<in> set ys. new y = Ok y)"
  unfolding collect_results_eq_Ok
proof (induction xs arbitrary: ys)
  case (Cons x xs)
  then show ?case using new_same by (cases ys) auto
qed simp

lemma collect_returns: "collect_results (map new xs) \<noteq> Panic"
  using new_returns by (induction xs) (auto simp: outcome_simps)

end

lemma bounded_ascii_field: "validated_field (bounded_ascii_new n f)"
  by unfold_locales (auto simp: bounded_ascii_new_def split: if_splits)

lemma uuid_field: "validated_field (uuid_new f v7)"
  by unfold_locales (auto simp: uuid_new_def Let_def split: if_splits)

interpretation subject_id: validated_field SubjectId_new
  unfolding SubjectId_new_def by (rule bounded_ascii_field)

interpretation auth_method: validated_field AuthMethod_new
  unfolding AuthMethod_new_def by (rule bounded_ascii_field)

interpretation short_text: validated_field ShortText_new
  unfolding ShortText_new_def by (rule bounded_ascii_field)

interpretation justification: validated_field Justification_new
  unfolding Justification_new_def by (rule bounded_ascii_field)

interpretation policy_version: validated_field PolicyVersion_new
  unfolding PolicyVersion_new_def by (rule bounded_ascii_field)

interpretation reason: validated_field Reason_new
  unfolding Reason_new_def by (rule bounded_ascii_field)

interpretation authority_domain: validated_field AuthorityDomain_new
  unfolding AuthorityDomain_new_def by (rule bounded_ascii_field)

interpretation event_id: validated_field EventId_new
  unfolding EventId_new_def by (rule uuid_field)

interpretation request_id: validated_field RequestId_new
  unfolding RequestId_new_def by (rule uuid_field)

interpretation timestamp: validated_field Timestamp_new
  by unfold_locales (auto simp: Timestamp_new_def split: if_splits)

lemmas field_returns = subject_id.new_returns auth_method.option_returns short_text.new_returns
  short_text.option_returns justification.option_returns policy_version.new_returns
  reason.collect_returns authority_domain.new_returns event_id.new_returns request_id.new_returns
  timestamp.new_returns

lemma Sequence_new_returns: "Sequence_new n \<noteq> Panic"
  by (simp add: Sequence_new_def)

lemma traverse_option_returns: "(\<And>x. f x \<noteq> Panic) \<Longrightarrow> traverse_option f m \<noteq> Panic"
  by (cases m) (auto simp: outcome_simps)

lemma from_proto_returns:
  "actor_from_proto a \<noteq> Panic" "target_from_proto t \<noteq> Panic" "context_from_proto c \<noteq> Panic"
  "decision_from_proto d \<noteq> Panic"
  unfolding actor_from_proto_def target_from_proto_def context_from_proto_def decision_from_proto_def
  by (auto simp: outcome_simps field_returns traverse_option_returns)

lemma fields_from_request_not_Panic: "fields_from_request req \<noteq> Panic"
  unfolding fields_from_request_def Let_def
  by (auto simp: outcome_simps field_returns Sequence_new_returns traverse_option_returns from_proto_returns)

subsection \<open>What a request that passes carries\<close>

text \<open>
  The invariant of the fields of an event: every value went through its constructor. The Rust types
  carry it; here it is a predicate.
\<close>

definition decision_info_valid :: "decision_info \<Rightarrow> bool" where
  "decision_info_valid d \<longleftrightarrow>
     RequestId_new (di_request_id d) = Ok (di_request_id d) \<and> length (di_decision_hash d) = 32 \<and>
     PolicyVersion_new (di_policy_version d) = Ok (di_policy_version d) \<and>
     (\<forall>r \<in> set (di_reasons d). Reason_new r = Ok r) \<and>
     pred_option (\<lambda>k. ShortText_new k = Ok k) (di_decision_signature_key_id d)"

definition audit_event_valid :: "audit_event_fields \<Rightarrow> bool" where
  "audit_event_valid e \<longleftrightarrow>
     EventId_new (ev_event_id e) = Ok (ev_event_id e) \<and> ev_sequence e \<le> MAX_SAFE_INTEGER \<and>
     length (ev_prev_hash e) = 32 \<and> timestamp_valid (ev_occurred_at e) \<and>
     AuthorityDomain_new (ev_authority_domain e) = Ok (ev_authority_domain e) \<and>
     SubjectId_new (actor_subject_id (ev_actor e)) = Ok (actor_subject_id (ev_actor e)) \<and>
     pred_option (\<lambda>m. AuthMethod_new m = Ok m) (actor_auth_method (ev_actor e)) \<and>
     pred_option (\<lambda>t. ShortText_new (target_type t) = Ok (target_type t) \<and>
       ShortText_new (target_id t) = Ok (target_id t)) (ev_target e) \<and>
     pred_option (\<lambda>c. pred_option (\<lambda>x. ShortText_new x = Ok x) (ctx_source_network c) \<and>
       pred_option (\<lambda>x. ShortText_new x = Ok x) (ctx_ticket_ref c) \<and>
       pred_option (\<lambda>x. Justification_new x = Ok x) (ctx_justification c)) (ev_context e) \<and>
     pred_option decision_info_valid (ev_decision e)"

lemmas bridge_Ok = and_then_eq_Ok ok_or_eq_Ok field_result_Ok array32_Ok outcome.inject

lemma actor_from_proto_Ok:
  assumes "actor_from_proto p = Ok a"
  shows "actor_subject_id a = pa_subject_id p" "SubjectId_new (actor_subject_id a) = Ok (actor_subject_id a)"
    "pred_option (\<lambda>m. AuthMethod_new m = Ok m) (actor_auth_method a)"
    "actor_kind_from_contract_str (pa_kind p) = Some (actor_kind_of a)"
  using assms unfolding actor_from_proto_def bridge_Ok
  by (auto simp: contract_strings_agree dest: subject_id.new_same subject_id.new_valid auth_method.option_Ok)

lemma target_from_proto_Ok:
  assumes "target_from_proto p = Ok t"
  shows "ShortText_new (target_type t) = Ok (target_type t)" "ShortText_new (target_id t) = Ok (target_id t)"
  using assms unfolding target_from_proto_def bridge_Ok by (auto dest: short_text.new_valid)

lemma context_from_proto_Ok:
  assumes "context_from_proto p = Ok c"
  shows "pred_option (\<lambda>x. ShortText_new x = Ok x) (ctx_source_network c)"
    "pred_option (\<lambda>x. ShortText_new x = Ok x) (ctx_ticket_ref c)"
    "pred_option (\<lambda>x. Justification_new x = Ok x) (ctx_justification c)"
  using assms unfolding context_from_proto_def bridge_Ok
  by (auto dest: short_text.option_Ok justification.option_Ok)

lemma decision_from_proto_Ok: "decision_from_proto p = Ok d \<Longrightarrow> decision_info_valid d"
  unfolding decision_from_proto_def bridge_Ok
  by (auto simp: decision_info_valid_def dest: request_id.new_valid policy_version.new_valid
      reason.collect_Ok short_text.option_Ok)

lemma option_Ok_pred:
  "traverse_option f m = Ok r \<Longrightarrow> (\<And>x y. f x = Ok y \<Longrightarrow> P y) \<Longrightarrow> pred_option P r"
  by (cases m) (auto simp: outcome_simps)

text \<open>The fields of an accepted request: valid, and those the request carries.\<close>

lemma fields_from_request_Ok:
  assumes "fields_from_request req = Ok e"
  shows "audit_event_valid e"
    and "ev_event_id e = sr_event_id req" "ev_sequence e = sr_sequence req" "ev_prev_hash e = sr_prev_hash req"
      "ev_authority_domain e = sr_authority_domain req"
      "event_type_from_contract_str (sr_event_type req) = Some (ev_event_type e)"
    and "\<exists>t. sr_occurred_at req = Some t \<and> ev_occurred_at e = rfc3339_from_seconds (pt_seconds t)"
    and "ev_decision e = None \<longleftrightarrow> sr_decision req = None"
proof -
  from assms obtain t p a tg ctx dec where
    h: "event_type_from_str (sr_event_type req) = Some (ev_event_type e)" "length (sr_prev_hash req) = 32"
      "sr_occurred_at req = Some t" "Timestamp_new (rfc3339_from_seconds (pt_seconds t)) = Ok (ev_occurred_at e)"
      "ev_prev_hash e = sr_prev_hash req" "EventId_new (sr_event_id req) = Ok (ev_event_id e)"
      "Sequence_new (sr_sequence req) = Ok (ev_sequence e)"
      "AuthorityDomain_new (sr_authority_domain req) = Ok (ev_authority_domain e)"
    and parts: "actor_from_proto p = Ok (ev_actor e)"
      "traverse_option target_from_proto (sr_target req) = Ok (ev_target e)"
      "traverse_option context_from_proto (sr_context req) = Ok (ev_context e)"
      "traverse_option decision_from_proto (sr_decision req) = Ok (ev_decision e)"
    unfolding fields_from_request_def Let_def bridge_Ok by (elim exE conjE) fastforce
  note same = timestamp.new_same [OF h(4)] event_id.new_same [OF h(6)] authority_domain.new_same [OF h(8)]
  have seq: "ev_sequence e = sr_sequence req" "ev_sequence e \<le> MAX_SAFE_INTEGER"
    using h(7) by (auto simp: Sequence_new_def not_less split: if_splits)
  show "audit_event_valid e"
    unfolding audit_event_valid_def
    using h seq same actor_from_proto_Ok(2, 3) [OF parts(1)] event_id.new_valid [OF h(6)] authority_domain.new_valid [OF h(8)]
      option_Ok_pred [OF parts(4), of decision_info_valid]
      option_Ok_pred [OF parts(2), of "\<lambda>t. ShortText_new (target_type t) = Ok (target_type t) \<and>
        ShortText_new (target_id t) = Ok (target_id t)"]
      option_Ok_pred [OF parts(3), of "\<lambda>c. pred_option (\<lambda>x. ShortText_new x = Ok x) (ctx_source_network c) \<and>
        pred_option (\<lambda>x. ShortText_new x = Ok x) (ctx_ticket_ref c) \<and>
        pred_option (\<lambda>x. Justification_new x = Ok x) (ctx_justification c)"]
    by (simp add: target_from_proto_Ok context_from_proto_Ok decision_from_proto_Ok Timestamp_new_eq_Ok)
  show "ev_event_id e = sr_event_id req" "ev_sequence e = sr_sequence req" "ev_prev_hash e = sr_prev_hash req"
    "ev_authority_domain e = sr_authority_domain req"
    "event_type_from_contract_str (sr_event_type req) = Some (ev_event_type e)"
    "\<exists>t. sr_occurred_at req = Some t \<and> ev_occurred_at e = rfc3339_from_seconds (pt_seconds t)"
    using h seq same by (simp_all add: contract_strings_agree)
  show "ev_decision e = None \<longleftrightarrow> sr_decision req = None"
    using parts(4) by (cases "sr_decision req") (auto simp: outcome_simps dest: sym)
qed

subsection \<open>Timestamps and service\<close>

text \<open>An instant that four-digit years cannot express is refused, whatever the other fields.\<close>

lemma fields_from_request_time_range:
  assumes "fields_from_request req = Ok e" and "sr_occurred_at req = Some t"
  shows "min_seconds \<le> pt_seconds t \<and> pt_seconds t \<le> max_seconds"
  using fields_from_request_Ok(1, 7) [OF assms(1)] assms(2)
  by (auto simp: audit_event_valid_def timestamp_valid_rfc3339)

lemma audit_event_valid_typed: "audit_event_valid e \<Longrightarrow> audit_event_typed e"
  by (auto simp: audit_event_valid_def audit_event_typed_def decision_info_valid_def split: option.splits)

lemma sealer_service_seal_Ok:
  assumes "sealer_service_seal X P wakes req sl = (Ok resp, sl')"
  obtains e where "fields_from_request req = Ok e"
    "audit_seal X P wakes e sl = (Ok (sres_sealed_bytes resp), sl')"
  using assms unfolding sealer_service_seal_def by (auto simp: outcome_simps act_return_def)

context signing_key
begin

lemma sealer_service_verifies:
  assumes seal: "sealer_service_seal X P wakes req sl = (Ok resp, sl')"
    and time: "sr_occurred_at req = Some t"
    and key: "sl_key sl = \<lparr>key_ref_label = label\<rparr>"
    and known: "find (\<lambda>k. avk_key_id k = sl_key_id sl) keys = Some \<lparr>avk_key_id = sl_key_id sl, avk_raw = pk\<rparr>"
    and policy: "AUDIT_SUITE_V1 \<in> set (aap_accepted_suites policy)"
      "sr_authority_domain req = aap_expected_authority_domain policy"
  shows "\<exists>event_type. event_type_from_contract_str (sr_event_type req) = Some event_type \<and>
    audit_seal_verify X keys (sres_sealed_bytes resp) policy =
      Ok \<lparr>ve_event_id = sr_event_id req, ve_sequence = sr_sequence req, ve_prev_hash = sr_prev_hash req,
          ve_occurred_at = rfc3339_from_seconds (pt_seconds t),
          ve_authority_domain = sr_authority_domain req, ve_event_type = event_type\<rparr>"
proof -
  from seal obtain e where e: "fields_from_request req = Ok e"
    "audit_seal X P wakes e sl = (Ok (sres_sealed_bytes resp), sl')" by (rule sealer_service_seal_Ok)
  note f = fields_from_request_Ok [OF e(1)]
  have "audit_seal_verify X keys (sres_sealed_bytes resp) policy =
    Ok \<lparr>ve_event_id = ev_event_id e, ve_sequence = ev_sequence e, ve_prev_hash = ev_prev_hash e,
        ve_occurred_at = ev_occurred_at e, ve_authority_domain = ev_authority_domain e,
        ve_event_type = ev_event_type e\<rparr>"
    using audit_seal_verifies [OF e(2) key known audit_event_valid_typed [OF f(1)] policy(1)] policy(2) f(5) by simp
  then show ?thesis using f time by auto
qed

end

end
