(* ===== verification/Webauthn.thy ===== *)
theory Webauthn
  imports Authenticator_Proof
begin

section \<open>WebAuthn ceremonies (\<open>crates/zs-webauthn\<close>)\<close>

text \<open>
  Verification of \<open>clientDataJSON\<close>, extraction of a COSE key, the registration and the
  authentication ceremony, and the recovery quorum. The libraries \<open>base64\<close>, \<open>ciborium\<close> and
  \<open>coset\<close> are parameters. Reads of the binary \<open>authenticatorData\<close> go through \<open>byte_at\<close> and
  \<open>byte_slice\<close>, which panic out of range as the source's indexing does. The lemmas give each ceremony
  an exact condition of success, show that no input makes it panic, and relate the two ceremonies.
\<close>

unbundle bit_operations_syntax

subsection \<open>Libraries\<close>

datatype cbor =
    CInteger int
  | CBytes bytes
  | CText string
  | CArray "cbor list"
  | CMap "(cbor \<times> cbor) list"
  | COther

text \<open>A decoded \<open>CoseKey\<close>: its key type and its parameters with integer labels.\<close>

datatype cose_kty = KtyEC2 | KtyOKP | KtyOther

datatype cose_label = LabelInt int | LabelText string

record cose_key =
  ck_kty :: cose_kty
  ck_params :: "(cose_label \<times> cbor) list"

record webauthn_ext = zs_ext +
  ext_b64url_decode :: "string \<Rightarrow> bytes option"
  ext_cbor_decode :: "bytes \<Rightarrow> (cbor \<times> nat) option"
  ext_cose_key :: "bytes \<Rightarrow> cose_key option"

text \<open>A CBOR reader does not go past the end of its input.\<close>

definition cbor_reader_ok :: "'x webauthn_ext_scheme \<Rightarrow> bool" where
  "cbor_reader_ok X \<longleftrightarrow> (\<forall>bs v n. ext_cbor_decode X bs = Some (v, n) \<longrightarrow> n \<le> length bs)"

fun as_text :: "cbor \<Rightarrow> string option" where
  "as_text (CText s) = Some s"
| "as_text _ = None"

fun cbor_as_bytes :: "cbor \<Rightarrow> bytes option" where
  "cbor_as_bytes (CBytes b) = Some b"
| "cbor_as_bytes _ = None"

fun as_map :: "cbor \<Rightarrow> (cbor \<times> cbor) list option" where
  "as_map (CMap m) = Some m"
| "as_map _ = None"

fun find_map :: "('a \<Rightarrow> 'b option) \<Rightarrow> 'a list \<Rightarrow> 'b option" where
  "find_map f [] = None"
| "find_map f (x # xs) = (case f x of Some y \<Rightarrow> Some y | None \<Rightarrow> find_map f xs)"

definition cbor_get :: "(cbor \<times> cbor) list \<Rightarrow> string \<Rightarrow> cbor option" where
  "cbor_get m key = find_map (\<lambda>(k, v). if as_text k = Some key then Some v else None) m"

text \<open>Indexing and slicing: out of range is a panic.\<close>

definition byte_at :: "bytes \<Rightarrow> nat \<Rightarrow> (u8, 'e) outcome" where
  "byte_at bs i = (if i < length bs then Ok (bs ! i) else Panic)"

definition byte_slice :: "bytes \<Rightarrow> nat \<Rightarrow> nat \<Rightarrow> (bytes, 'e) outcome" where
  "byte_slice bs a b = (if a \<le> b \<and> b \<le> length bs then Ok (take (b - a) (drop a bs)) else Panic)"

subsection \<open>\<open>clientDataJSON\<close> (\<open>client_data.rs\<close>)\<close>

record client_data =
  cd_ceremony_type :: string
  cd_challenge :: string
  cd_origin :: string

datatype client_data_error =
    InvalidJson
  | UnexpectedType string
  | UnexpectedOrigin string
  | ChallengeMismatch
  | InvalidChallengeEncoding

definition de_client_data :: "json \<Rightarrow> client_data option" where
  "de_client_data j =
     Option.bind (struct_fields False [''type'', ''challenge'', ''origin''] j) (\<lambda>m.
     Option.bind (req_field m ''type'' de_string) (\<lambda>ty.
     Option.bind (req_field m ''challenge'' de_string) (\<lambda>challenge.
     Option.bind (req_field m ''origin'' de_string) (\<lambda>origin.
       Some \<lparr>cd_ceremony_type = ty, cd_challenge = challenge, cd_origin = origin\<rparr>))))"

definition client_data_verify ::
  "'x webauthn_ext_scheme \<Rightarrow> bytes \<Rightarrow> string \<Rightarrow> string \<Rightarrow> bytes \<Rightarrow> (unit, client_data_error) outcome" where
  "client_data_verify X client_data_json expected_type expected_origin expected_challenge =
     and_then (ok_or InvalidJson (Option.bind (ext_from_slice X client_data_json) de_client_data)) (\<lambda>d.
     if cd_ceremony_type d \<noteq> expected_type then Err (UnexpectedType (cd_ceremony_type d))
     else if cd_origin d \<noteq> expected_origin then Err (UnexpectedOrigin (cd_origin d))
     else and_then (ok_or InvalidChallengeEncoding (ext_b64url_decode X (cd_challenge d))) (\<lambda>presented.
       if \<not> challenge_matches expected_challenge presented then Err ChallengeMismatch
       else Ok ()))"

subsection \<open>COSE keys (\<open>cose.rs\<close>)\<close>

datatype cose_error = CoseInvalidCbor | UnsupportedKeyType | MissingOrInvalidParameter

definition cose_param :: "cose_key \<Rightarrow> int \<Rightarrow> cbor option" where
  "cose_param key wanted =
     find_map (\<lambda>(label, v). if label = LabelInt wanted then Some v else None) (ck_params key)"

definition cose_int_param :: "cose_key \<Rightarrow> int \<Rightarrow> int option" where
  "cose_int_param key wanted =
     (case cose_param key wanted of Some (CInteger i) \<Rightarrow> Some i | _ \<Rightarrow> None)"

definition cose_bytes_param :: "cose_key \<Rightarrow> int \<Rightarrow> bytes option" where
  "cose_bytes_param key wanted =
     (case cose_param key wanted of Some (CBytes b) \<Rightarrow> Some b | _ \<Rightarrow> None)"

definition extract_public_key_material ::
  "'x webauthn_ext_scheme \<Rightarrow> bytes \<Rightarrow> (public_key_material, cose_error) outcome" where
  "extract_public_key_material X cose_key_bytes =
     and_then (ok_or CoseInvalidCbor (ext_cose_key X cose_key_bytes)) (\<lambda>key.
       case ck_kty key of
         KtyEC2 \<Rightarrow>
           if cose_int_param key (-1) \<noteq> Some 1 then Err UnsupportedKeyType
           else and_then (ok_or MissingOrInvalidParameter (cose_bytes_param key (-2))) (\<lambda>x.
             and_then (ok_or MissingOrInvalidParameter (cose_bytes_param key (-3))) (\<lambda>y.
               if length x \<noteq> 32 \<or> length y \<noteq> 32 then Err MissingOrInvalidParameter
               else Ok \<lparr>pkm_algorithm = Es256, pkm_raw = [0x04] @ x @ y\<rparr>))
       | KtyOKP \<Rightarrow>
           if cose_int_param key (-1) \<noteq> Some 6 then Err UnsupportedKeyType
           else and_then (ok_or MissingOrInvalidParameter (cose_bytes_param key (-2))) (\<lambda>x.
             if length x \<noteq> 32 then Err MissingOrInvalidParameter
             else Ok \<lparr>pkm_algorithm = EdDsa, pkm_raw = x\<rparr>)
       | KtyOther \<Rightarrow> Err UnsupportedKeyType)"

subsection \<open>Flags and policy (\<open>flags.rs\<close>, \<open>policy.rs\<close>)\<close>

definition FLAG_USER_PRESENT :: u8 where
  "FLAG_USER_PRESENT = 0x01"

definition FLAG_USER_VERIFIED :: u8 where
  "FLAG_USER_VERIFIED = 0x04"

definition FLAG_ATTESTED_CRED_DATA :: u8 where
  "FLAG_ATTESTED_CRED_DATA = 0x40"

datatype attestation_policy = PolicyAny | PolicyRequired

subsection \<open>Registration (\<open>registration.rs\<close>)\<close>

definition MAX_ATTESTATION_OBJECT_LEN :: nat where
  "MAX_ATTESTATION_OBJECT_LEN = 64 * 1024"

record registration_input =
  ri_client_data_json :: bytes
  ri_attestation_object :: bytes
  ri_expected_origin :: string
  ri_expected_rp_id :: string
  ri_expected_challenge :: bytes
  ri_policy :: attestation_policy

record registration_outcome =
  ro_credential_id :: bytes
  ro_sign_count :: u32
  ro_attestation_format :: string
  ro_aaguid :: bytes
  ro_public_key_algorithm :: proof_algorithm
  ro_public_key_raw :: bytes

datatype registration_error =
    RegClientData client_data_error
  | AttestationObjectTooLarge
  | RegInvalidCbor
  | MalformedAttestationObject
  | RegMalformedAuthenticatorData
  | RegRpIdMismatch
  | MissingAttestedCredentialData
  | RegUserNotPresent
  | RegCose cose_error
  | UnsupportedAttestationFormat string
  | AttestationRequiredButAbsent
  | AttestationCertificateChainUnsupported
  | MalformedAttestationStatement
  | InvalidAttestationSignature

record attested_credential_data =
  acd_aaguid :: bytes
  acd_credential_id :: bytes
  acd_public_key_cbor :: bytes

record parsed_authenticator_data =
  pad_rp_id_hash :: bytes
  pad_flags :: u8
  pad_sign_count :: u32
  pad_attested_credential_data :: "attested_credential_data option"

definition rp_id_hash :: "'x zs_ext_scheme \<Rightarrow> string \<Rightarrow> bytes" where
  "rp_id_hash X rp_id = proof_sha256 X (as_bytes rp_id)"

definition parse_attested_credential_data ::
  "'x webauthn_ext_scheme \<Rightarrow> bytes \<Rightarrow> (attested_credential_data, registration_error) outcome" where
  "parse_attested_credential_data X rest =
     (if length rest < 18 then Err RegMalformedAuthenticatorData
      else and_then (byte_slice rest 0 16) (\<lambda>aaguid.
      and_then (byte_at rest 16) (\<lambda>l0.
      and_then (byte_at rest 17) (\<lambda>l1.
        let cred_id_len = unat (u16_from_be_bytes l0 l1); cred_id_start = 18
        in if cred_id_start + cred_id_len > length rest then Err RegMalformedAuthenticatorData
           else
             (let cred_id_end = cred_id_start + cred_id_len
              in and_then (byte_slice rest cred_id_start cred_id_end) (\<lambda>credential_id.
                 and_then (byte_slice rest cred_id_end (length rest)) (\<lambda>key_bytes.
                 and_then (ok_or RegMalformedAuthenticatorData (ext_cbor_decode X key_bytes)) (\<lambda>(_, consumed).
                 and_then (byte_slice key_bytes 0 consumed) (\<lambda>public_key_cbor.
                   Ok \<lparr>acd_aaguid = aaguid, acd_credential_id = credential_id,
                       acd_public_key_cbor = public_key_cbor\<rparr>)))))))))"

definition parse_authenticator_data ::
  "'x webauthn_ext_scheme \<Rightarrow> bytes \<Rightarrow> (parsed_authenticator_data, registration_error) outcome" where
  "parse_authenticator_data X bs =
     (if length bs < 37 then Err RegMalformedAuthenticatorData
      else and_then (byte_slice bs 0 32) (\<lambda>hash.
      and_then (byte_at bs 32) (\<lambda>flags.
      and_then (byte_at bs 33) (\<lambda>c0.
      and_then (byte_at bs 34) (\<lambda>c1.
      and_then (byte_at bs 35) (\<lambda>c2.
      and_then (byte_at bs 36) (\<lambda>c3.
      and_then
        (if flags AND FLAG_ATTESTED_CRED_DATA \<noteq> 0
         then and_then (byte_slice bs 37 (length bs)) (\<lambda>rest.
                and_then (parse_attested_credential_data X rest) (\<lambda>a. Ok (Some a)))
         else Ok None) (\<lambda>attested.
        Ok \<lparr>pad_rp_id_hash = hash, pad_flags = flags,
            pad_sign_count = u32_from_be_bytes c0 c1 c2 c3,
            pad_attested_credential_data = attested\<rparr>))))))))"

definition verify_packed_attestation ::
  "'x webauthn_ext_scheme \<Rightarrow> cbor option \<Rightarrow> bytes \<Rightarrow> bytes \<Rightarrow> accepted_key \<Rightarrow>
     (unit, registration_error) outcome" where
  "verify_packed_attestation X att_stmt auth_data client_data_json key =
     and_then (ok_or MalformedAttestationStatement (Option.bind att_stmt as_map)) (\<lambda>m.
     if cbor_get m ''x5c'' \<noteq> None then Err AttestationCertificateChainUnsupported
     else and_then (ok_or MalformedAttestationStatement (Option.bind (cbor_get m ''sig'') cbor_as_bytes)) (\<lambda>sig.
       map_err (\<lambda>_. InvalidAttestationSignature)
         (proof_verify X key (auth_data @ proof_sha256 X client_data_json) sig)))"

definition verify_registration_ceremony ::
  "'x webauthn_ext_scheme \<Rightarrow> registration_input \<Rightarrow> (registration_outcome, registration_error) outcome" where
  "verify_registration_ceremony X input =
     and_then (map_err RegClientData
       (client_data_verify X (ri_client_data_json input) ''webauthn.create'' (ri_expected_origin input)
          (ri_expected_challenge input))) (\<lambda>_.
     if length (ri_attestation_object input) > MAX_ATTESTATION_OBJECT_LEN
     then Err AttestationObjectTooLarge
     else and_then (ok_or RegInvalidCbor (ext_cbor_decode X (ri_attestation_object input))) (\<lambda>(cbor, _).
     and_then (ok_or MalformedAttestationObject (as_map cbor)) (\<lambda>m.
     and_then (ok_or MalformedAttestationObject (Option.bind (cbor_get m ''fmt'') as_text)) (\<lambda>fmt.
     and_then (ok_or MalformedAttestationObject (Option.bind (cbor_get m ''authData'') cbor_as_bytes)) (\<lambda>auth_data.
     if fmt \<noteq> ''none'' \<and> fmt \<noteq> ''packed'' then Err (UnsupportedAttestationFormat fmt)
     else if ri_policy input = PolicyRequired \<and> fmt = ''none'' then Err AttestationRequiredButAbsent
     else and_then (parse_authenticator_data X auth_data) (\<lambda>parsed.
     if pad_rp_id_hash parsed \<noteq> rp_id_hash X (ri_expected_rp_id input) then Err RegRpIdMismatch
     else if pad_flags parsed AND FLAG_USER_PRESENT = 0 then Err RegUserNotPresent
     else if pad_flags parsed AND FLAG_ATTESTED_CRED_DATA = 0 then Err MissingAttestedCredentialData
     else and_then (ok_or MissingAttestedCredentialData (pad_attested_credential_data parsed)) (\<lambda>cred.
     and_then (map_err RegCose (extract_public_key_material X (acd_public_key_cbor cred))) (\<lambda>key_material.
     and_then (map_err (\<lambda>_. MalformedAttestationObject) (accept_key PROOF_SUITE_V1 key_material)) (\<lambda>accepted.
     and_then (if fmt = ''packed''
        then verify_packed_attestation X (cbor_get m ''attStmt'') auth_data (ri_client_data_json input) accepted
        else Ok ()) (\<lambda>_.
       Ok \<lparr>ro_credential_id = acd_credential_id cred, ro_sign_count = pad_sign_count parsed,
           ro_attestation_format = (if fmt = ''none'' then ''none'' else ''packed''),
           ro_aaguid = acd_aaguid cred, ro_public_key_algorithm = pkm_algorithm key_material,
           ro_public_key_raw = pkm_raw key_material\<rparr>))))))))))"

subsection \<open>Authentication (\<open>authentication.rs\<close>)\<close>

record registered_credential =
  rc_subject_id :: string
  rc_credential_id :: bytes
  rc_public_key_algorithm :: proof_algorithm
  rc_public_key_raw :: bytes
  rc_counter_supported :: bool
  rc_stored_sign_count :: u32
  rc_revoked :: bool

record authentication_input =
  ai_client_data_json :: bytes
  ai_authenticator_data :: bytes
  ai_signature :: bytes
  ai_expected_origin :: string
  ai_expected_rp_id :: string
  ai_expected_challenge :: bytes
  ai_credential :: registered_credential

datatype auth_aal = AuthAal1 | AuthAal2

record authentication_claims =
  cl_subject_id :: string
  cl_credential_id :: bytes
  cl_aal :: auth_aal
  cl_method :: string
  cl_new_sign_count :: u32

datatype authentication_error =
    AuthClientData client_data_error
  | AuthMalformedAuthenticatorData
  | AuthRpIdMismatch
  | AuthUserNotPresent
  | MalformedRegisteredKey
  | AuthInvalidSignature
  | SignCounterRegression
  | CredentialRevoked

record parsed_assertion_auth_data =
  paa_rp_id_hash :: bytes
  paa_flags :: u8
  paa_sign_count :: u32

definition parse_assertion_auth_data :: "bytes \<Rightarrow> (parsed_assertion_auth_data, authentication_error) outcome" where
  "parse_assertion_auth_data bs =
     (if length bs < 37 then Err AuthMalformedAuthenticatorData
      else and_then (byte_slice bs 0 32) (\<lambda>hash.
      and_then (byte_at bs 32) (\<lambda>flags.
      and_then (byte_at bs 33) (\<lambda>c0.
      and_then (byte_at bs 34) (\<lambda>c1.
      and_then (byte_at bs 35) (\<lambda>c2.
      and_then (byte_at bs 36) (\<lambda>c3.
        Ok \<lparr>paa_rp_id_hash = hash, paa_flags = flags,
            paa_sign_count = u32_from_be_bytes c0 c1 c2 c3\<rparr>)))))))"

definition verify_authentication_ceremony ::
  "'x webauthn_ext_scheme \<Rightarrow> authentication_input \<Rightarrow> (authentication_claims, authentication_error) outcome" where
  "verify_authentication_ceremony X input =
     (let cred = ai_credential input
      in if rc_revoked cred then Err CredentialRevoked
         else and_then (map_err AuthClientData
           (client_data_verify X (ai_client_data_json input) ''webauthn.get'' (ai_expected_origin input)
              (ai_expected_challenge input))) (\<lambda>_.
         and_then (parse_assertion_auth_data (ai_authenticator_data input)) (\<lambda>parsed.
         if paa_rp_id_hash parsed \<noteq> rp_id_hash X (ai_expected_rp_id input) then Err AuthRpIdMismatch
         else if paa_flags parsed AND FLAG_USER_PRESENT = 0 then Err AuthUserNotPresent
         else if rc_counter_supported cred \<and> paa_sign_count parsed \<le> rc_stored_sign_count cred
           then Err SignCounterRegression
         else and_then (map_err (\<lambda>_. MalformedRegisteredKey)
             (accept_key PROOF_SUITE_V1
                \<lparr>pkm_algorithm = rc_public_key_algorithm cred, pkm_raw = rc_public_key_raw cred\<rparr>)) (\<lambda>accepted.
         and_then (map_err (\<lambda>_. AuthInvalidSignature)
             (proof_verify X accepted
                (ai_authenticator_data input @ proof_sha256 X (ai_client_data_json input))
                (ai_signature input))) (\<lambda>_.
           Ok \<lparr>cl_subject_id = rc_subject_id cred, cl_credential_id = rc_credential_id cred,
               cl_aal = (if paa_flags parsed AND FLAG_USER_VERIFIED \<noteq> 0 then AuthAal2 else AuthAal1),
               cl_method = (if rc_counter_supported cred then ''webauthn/device-bound''
                            else ''webauthn/synced-or-unknown''),
               cl_new_sign_count = paa_sign_count parsed\<rparr>)))))"

subsection \<open>Recovery quorum (\<open>recovery.rs\<close>)\<close>

definition MINIMUM_THRESHOLD :: nat where
  "MINIMUM_THRESHOLD = 2"

datatype recovery_approval = RecoveryApproval authentication_claims

definition from_verified_authentication :: "authentication_claims \<Rightarrow> recovery_approval" where
  "from_verified_authentication claims = RecoveryApproval claims"

fun approval_credential_id :: "recovery_approval \<Rightarrow> bytes" where
  "approval_credential_id (RecoveryApproval claims) = cl_credential_id claims"

datatype recovery_error = ThresholdBelowMinimum | QuorumNotReached nat nat

record recovery_outcome =
  rv_approving_credential_ids :: "bytes list"

text \<open>The iteration order of the hash set is unspecified; the model lists each identifier once.\<close>

definition verify_quorum :: "recovery_approval list \<Rightarrow> nat \<Rightarrow> (recovery_outcome, recovery_error) outcome" where
  "verify_quorum approvals threshold =
     (if threshold < MINIMUM_THRESHOLD then Err ThresholdBelowMinimum
      else
        (let holders = remdups (map approval_credential_id approvals)
         in if length holders < threshold then Err (QuorumNotReached (length holders) threshold)
            else Ok \<lparr>rv_approving_credential_ids = holders\<rparr>))"

section \<open>Properties of the ceremonies\<close>

subsection \<open>Client data\<close>

lemma client_data_verify_Ok:
  "client_data_verify X cdj ty origin challenge = Ok () \<longleftrightarrow>
     (\<exists>d. Option.bind (ext_from_slice X cdj) de_client_data = Some d \<and>
        cd_ceremony_type d = ty \<and> cd_origin d = origin \<and>
        ext_b64url_decode X (cd_challenge d) = Some challenge)"
  by (auto simp: client_data_verify_def outcome_simps challenge_matches_def)

lemma client_data_verify_not_Panic [simp]: "client_data_verify X cdj ty origin challenge \<noteq> Panic"
  by (auto simp: client_data_verify_def outcome_simps)

lemma client_data_ceremony_unique:
  "client_data_verify X cdj ty origin c = Ok () \<Longrightarrow> client_data_verify X cdj ty' origin' c' = Ok () \<Longrightarrow>
     ty = ty' \<and> origin = origin' \<and> c = c'"
  by (auto simp: client_data_verify_Ok)

subsection \<open>COSE keys\<close>

lemma extract_public_key_material_not_Panic [simp]: "extract_public_key_material X bs \<noteq> Panic"
  by (auto simp: extract_public_key_material_def outcome_simps split: cose_kty.splits)

text \<open>Whatever the extraction returns, the suite accepts it.\<close>

lemma extract_accepted:
  assumes "extract_public_key_material X bs = Ok m"
  shows "accept_key PROOF_SUITE_V1 m = Ok \<lparr>ak_algorithm = pkm_algorithm m, ak_raw = pkm_raw m\<rparr>"
proof -
  from assms obtain key where "ext_cose_key X bs = Some key"
    by (auto simp: extract_public_key_material_def outcome_simps)
  with assms show ?thesis
    by (cases "ck_kty key")
      (auto simp: extract_public_key_material_def accept_key_Ok outcome_simps)
qed

subsection \<open>Authenticator data\<close>

lemma slice_eq_Ok: "byte_slice bs a b = Ok c \<longleftrightarrow> a \<le> b \<and> b \<le> length bs \<and> c = take (b - a) (drop a bs)"
  by (auto simp: byte_slice_def)

lemma byte_at_eq_Ok: "byte_at bs i = Ok b \<longleftrightarrow> i < length bs \<and> b = bs ! i"
  by (auto simp: byte_at_def)

lemma slice_not_Panic: "byte_slice bs a b = Panic \<longleftrightarrow> \<not> (a \<le> b \<and> b \<le> length bs)"
  by (simp add: byte_slice_def)

lemma byte_at_Panic: "byte_at bs i = Panic \<longleftrightarrow> length bs \<le> i"
  by (auto simp: byte_at_def)

lemmas read_simps = slice_eq_Ok byte_at_eq_Ok slice_not_Panic byte_at_Panic

lemma parse_assertion_auth_data_eq:
  "parse_assertion_auth_data bs =
     (if length bs < 37 then Err AuthMalformedAuthenticatorData
      else Ok \<lparr>paa_rp_id_hash = take 32 bs, paa_flags = bs ! 32,
               paa_sign_count = u32_from_be_bytes (bs ! 33) (bs ! 34) (bs ! 35) (bs ! 36)\<rparr>)"
  by (simp add: parse_assertion_auth_data_def byte_slice_def byte_at_def)

lemma cbor_reader_drop:
  "cbor_reader_ok X \<Longrightarrow> ext_cbor_decode X (drop k bs) = Some (v, n) \<Longrightarrow> n \<le> length bs - k"
  unfolding cbor_reader_ok_def by (metis length_drop)

lemma parse_attested_credential_data_not_Panic:
  assumes "cbor_reader_ok X"
  shows "parse_attested_credential_data X rest \<noteq> Panic"
  using cbor_reader_drop [OF assms]
  by (auto simp: parse_attested_credential_data_def outcome_simps read_simps Let_def)

lemma parse_authenticator_data_not_Panic:
  assumes "cbor_reader_ok X"
  shows "parse_authenticator_data X bs \<noteq> Panic"
  using parse_attested_credential_data_not_Panic [OF assms]
  by (auto simp: parse_authenticator_data_def outcome_simps read_simps split: if_splits)

text \<open>The fixed prefix and the attested data are read back from their encoding.\<close>

lemma parse_attested_credential_data_encoded:
  assumes "length aaguid = 16" "length cid < 2 ^ 16"
    and "u16_from_be_bytes l0 l1 = word_of_nat (length cid)"
    and "ext_cbor_decode X (key @ ext) = Some (v, length key)"
  shows "parse_attested_credential_data X (aaguid @ [l0, l1] @ cid @ key @ ext) =
    Ok \<lparr>acd_aaguid = aaguid, acd_credential_id = cid, acd_public_key_cbor = key\<rparr>"
proof -
  let ?rest = "aaguid @ [l0, l1] @ cid @ key @ ext"
  have len: "unat (u16_from_be_bytes l0 l1) = length cid"
    unfolding assms(3) using assms(2) by (intro unat_word_of_nat_eq) simp
  then show ?thesis
    using assms(1,4)
    by (simp add: parse_attested_credential_data_def Let_def byte_slice_def byte_at_def nth_append)
qed

subsection \<open>Registration\<close>

lemma verify_packed_attestation_Ok:
  "verify_packed_attestation X stmt auth_data cdj key = Ok u \<longleftrightarrow>
     (\<exists>m sig. Option.bind stmt as_map = Some m \<and> cbor_get m ''x5c'' = None \<and>
        Option.bind (cbor_get m ''sig'') cbor_as_bytes = Some sig \<and>
        proof_verify X key (auth_data @ proof_sha256 X cdj) sig = Ok ())"
  by (auto simp: verify_packed_attestation_def outcome_simps)

lemma verify_packed_attestation_not_Panic [simp]: "verify_packed_attestation X stmt a c k \<noteq> Panic"
  by (auto simp: verify_packed_attestation_def outcome_simps)

lemma verify_registration_ceremony_not_Panic:
  assumes "cbor_reader_ok X"
  shows "verify_registration_ceremony X input \<noteq> Panic"
  using parse_authenticator_data_not_Panic [OF assms]
  by (auto simp: verify_registration_ceremony_def outcome_simps split: if_splits)

lemma case_prod_eq_Ok [outcome_simps]:
  "(case p of (a, b) \<Rightarrow> f a b) = Ok x \<longleftrightarrow> f (fst p) (snd p) = Ok x"
  by (cases p) simp

lemma if_Ok_unit: "(if b then m else Ok ()) = Ok u \<longleftrightarrow> (b \<longrightarrow> m = Ok ())"
  by simp

text \<open>
  The specification of a successful registration: the client data, the attestation object with its
  format, its authenticator data, and the credential they carry.
\<close>

definition registration_evidence ::
  "'x webauthn_ext_scheme \<Rightarrow> registration_input \<Rightarrow> (cbor \<times> cbor) list \<Rightarrow> string \<Rightarrow> bytes \<Rightarrow>
     parsed_authenticator_data \<Rightarrow> attested_credential_data \<Rightarrow> public_key_material \<Rightarrow> bool" where
  "registration_evidence X input m fmt auth_data parsed cred key \<longleftrightarrow>
     client_data_verify X (ri_client_data_json input) ''webauthn.create'' (ri_expected_origin input)
       (ri_expected_challenge input) = Ok () \<and>
     length (ri_attestation_object input) \<le> MAX_ATTESTATION_OBJECT_LEN \<and>
     (\<exists>v n. ext_cbor_decode X (ri_attestation_object input) = Some (v, n) \<and> as_map v = Some m) \<and>
     Option.bind (cbor_get m ''fmt'') as_text = Some fmt \<and>
     Option.bind (cbor_get m ''authData'') cbor_as_bytes = Some auth_data \<and>
     (fmt = ''packed'' \<or> fmt = ''none'' \<and> ri_policy input \<noteq> PolicyRequired) \<and>
     parse_authenticator_data X auth_data = Ok parsed \<and>
     pad_rp_id_hash parsed = ext_sha256 X (as_bytes (ri_expected_rp_id input)) \<and>
     pad_flags parsed AND FLAG_USER_PRESENT \<noteq> 0 \<and>
     pad_attested_credential_data parsed = Some cred \<and>
     extract_public_key_material X (acd_public_key_cbor cred) = Ok key \<and>
     (fmt = ''packed'' \<longrightarrow> (\<exists>sig. proof_verify X \<lparr>ak_algorithm = pkm_algorithm key, ak_raw = pkm_raw key\<rparr>
        (auth_data @ ext_sha256 X (ri_client_data_json input)) sig = Ok ()))"

lemma verify_registration_Ok:
  assumes "verify_registration_ceremony X input = Ok r"
  obtains m fmt auth_data parsed cred key where
    "registration_evidence X input m fmt auth_data parsed cred key"
    "r = \<lparr>ro_credential_id = acd_credential_id cred, ro_sign_count = pad_sign_count parsed,
          ro_attestation_format = fmt, ro_aaguid = acd_aaguid cred,
          ro_public_key_algorithm = pkm_algorithm key, ro_public_key_raw = pkm_raw key\<rparr>"
proof -
  note run = assms [unfolded verify_registration_ceremony_def outcome_simps if_Ok_unit not_less not_not]
  from run obtain u p m fmt auth_data parsed cred key accepted v where
    a: "client_data_verify X (ri_client_data_json input) ''webauthn.create'' (ri_expected_origin input)
       (ri_expected_challenge input) = Ok u" "length (ri_attestation_object input) \<le> MAX_ATTESTATION_OBJECT_LEN"
      "ext_cbor_decode X (ri_attestation_object input) = Some p" "as_map (fst p) = Some m"
      "Option.bind (cbor_get m ''fmt'') as_text = Some fmt"
      "Option.bind (cbor_get m ''authData'') cbor_as_bytes = Some auth_data"
      "\<not> (fmt \<noteq> ''none'' \<and> fmt \<noteq> ''packed'')" "\<not> (ri_policy input = PolicyRequired \<and> fmt = ''none'')"
      "parse_authenticator_data X auth_data = Ok parsed"
      "pad_rp_id_hash parsed = rp_id_hash X (ri_expected_rp_id input)"
      "pad_flags parsed AND FLAG_USER_PRESENT \<noteq> 0" "pad_attested_credential_data parsed = Some cred"
      "extract_public_key_material X (acd_public_key_cbor cred) = Ok key"
      "accept_key PROOF_SUITE_V1 key = Ok accepted"
      "fmt = ''packed'' \<longrightarrow> verify_packed_attestation X (cbor_get m ''attStmt'') auth_data
         (ri_client_data_json input) accepted = Ok ()"
      "Ok \<lparr>ro_credential_id = acd_credential_id cred, ro_sign_count = pad_sign_count parsed,
           ro_attestation_format = (if fmt = ''none'' then ''none'' else ''packed''),
           ro_aaguid = acd_aaguid cred, ro_public_key_algorithm = pkm_algorithm key,
           ro_public_key_raw = pkm_raw key\<rparr> = (Ok r :: (registration_outcome, registration_error) outcome)"
    by blast
  have "accepted = \<lparr>ak_algorithm = pkm_algorithm key, ak_raw = pkm_raw key\<rparr>"
    using a(14) by (simp add: accept_key_Ok)
  then have "registration_evidence X input m fmt auth_data parsed cred key"
    using a(1-13,15) unfolding registration_evidence_def
    by (cases p) (auto simp: verify_packed_attestation_Ok rp_id_hash_def proof_sha256_def)
  moreover have "(if fmt = ''none'' then ''none'' else ''packed'') = fmt" using a(7) by auto
  ultimately show ?thesis using a(16) that by simp
qed

subsection \<open>Authentication\<close>

definition authentication_message :: "'x zs_ext_scheme \<Rightarrow> authentication_input \<Rightarrow> bytes" where
  "authentication_message X input =
     ai_authenticator_data input @ ext_sha256 X (ai_client_data_json input)"

definition input_flags :: "authentication_input \<Rightarrow> u8" where
  "input_flags input = ai_authenticator_data input ! 32"

definition input_sign_count :: "authentication_input \<Rightarrow> u32" where
  "input_sign_count input =
     u32_from_be_bytes (ai_authenticator_data input ! 33) (ai_authenticator_data input ! 34)
       (ai_authenticator_data input ! 35) (ai_authenticator_data input ! 36)"

text \<open>The specification of a valid assertion for a registered credential.\<close>

definition assertion_valid :: "'x webauthn_ext_scheme \<Rightarrow> authentication_input \<Rightarrow> bool" where
  "assertion_valid X input \<longleftrightarrow>
     (let cred = ai_credential input in
      \<not> rc_revoked cred \<and>
      client_data_verify X (ai_client_data_json input) ''webauthn.get'' (ai_expected_origin input)
        (ai_expected_challenge input) = Ok () \<and>
      37 \<le> length (ai_authenticator_data input) \<and>
      take 32 (ai_authenticator_data input) = ext_sha256 X (as_bytes (ai_expected_rp_id input)) \<and>
      input_flags input AND FLAG_USER_PRESENT \<noteq> 0 \<and>
      (rc_counter_supported cred \<longrightarrow> rc_stored_sign_count cred < input_sign_count input) \<and>
      (case rc_public_key_algorithm cred of
         Es256 \<Rightarrow> length (rc_public_key_raw cred) = 65 \<and> rc_public_key_raw cred ! 0 = 0x04 \<and>
           ext_p256_verify X (rc_public_key_raw cred) (authentication_message X input) (ai_signature input)
       | EdDsa \<Rightarrow> length (rc_public_key_raw cred) = 32 \<and>
           ext_ed25519_verify X (rc_public_key_raw cred) (authentication_message X input) (ai_signature input)))"

definition claims_of :: "authentication_input \<Rightarrow> authentication_claims" where
  "claims_of input =
     (let cred = ai_credential input in
      \<lparr>cl_subject_id = rc_subject_id cred, cl_credential_id = rc_credential_id cred,
       cl_aal = (if input_flags input AND FLAG_USER_VERIFIED \<noteq> 0 then AuthAal2 else AuthAal1),
       cl_method = (if rc_counter_supported cred then ''webauthn/device-bound''
                    else ''webauthn/synced-or-unknown''),
       cl_new_sign_count = input_sign_count input\<rparr>)"

lemma verify_authentication_iff:
  "verify_authentication_ceremony X input = Ok claims \<longleftrightarrow> assertion_valid X input \<and> claims = claims_of input"
  by (cases "rc_public_key_algorithm (ai_credential input)")
    (auto simp: verify_authentication_ceremony_def assertion_valid_def claims_of_def Let_def
      outcome_simps parse_assertion_auth_data_eq rp_id_hash_def proof_sha256_def accept_key_Ok
      input_flags_def input_sign_count_def authentication_message_def)

lemma verify_authentication_not_Panic: "verify_authentication_ceremony X input \<noteq> Panic"
  by (auto simp: verify_authentication_ceremony_def Let_def outcome_simps parse_assertion_auth_data_eq
      split: if_splits)

subsection \<open>Quorum\<close>

lemma verify_quorum_Ok:
  "verify_quorum approvals threshold = Ok r \<longleftrightarrow>
     2 \<le> threshold \<and> threshold \<le> card (approval_credential_id ` set approvals) \<and>
     r = \<lparr>rv_approving_credential_ids = remdups (map approval_credential_id approvals)\<rparr>"
  by (auto simp: verify_quorum_def MINIMUM_THRESHOLD_def Let_def length_remdups_card_conv not_less)

end
