(* ===== verification/Timestamp_Order.thy ===== *)
theory Timestamp_Order
  imports Calendar
begin

section \<open>The order of timestamps\<close>

text \<open>
  Verification compares timestamps as byte strings. This theory shows that within the four-digit years
  the byte order of the RFC 3339 forms is the order of the instants: the civil dates of successive days
  increase lexicographically, and fixed-width decimal fields compare as the numbers they write.
\<close>

subsection \<open>Dates increase with days\<close>

lemma era_day_bounds:
  assumes "era_day c q r t"
  shows "0 \<le> c" "c \<le> 3" "0 \<le> q" "q \<le> 24" "0 \<le> r" "r \<le> 3" "0 \<le> t" "t \<le> 365"
    and "r < 3 \<Longrightarrow> t \<le> 364" and "c < 3 \<Longrightarrow> 1461 * q + 365 * r + t \<le> 36523"
    and "36524 * c + 1461 * q + 365 * r + t \<le> 146096"
  using assms by (auto simp: era_day_def)

lemma era_position_order:
  assumes p: "era_day c q r t" and p': "era_day c' q' r' t'"
    and less: "146097 * era + (36524 * c + 1461 * q + 365 * r + t) < 146097 * era' + (36524 * c' + 1461 * q' + 365 * r' + t')"
  shows "400 * era + 100 * c + 4 * q + r < 400 * era' + 100 * c' + 4 * q' + r' \<or>
    400 * era + 100 * c + 4 * q + r = 400 * era' + 100 * c' + 4 * q' + r' \<and> t < t'"
proof -
  note b = era_day_bounds(1-8) [OF p] era_day_bounds(1-8) [OF p']
  consider (era) "era < era'" | (era_gt) "era' < era" | (c) "era = era'" "c < c'" | (c_gt) "era = era'" "c' < c"
    | (q) "era = era'" "c = c'" "q < q'" | (q_gt) "era = era'" "c = c'" "q' < q"
    | (r) "era = era'" "c = c'" "q = q'" "r < r'" | (r_gt) "era = era'" "c = c'" "q = q'" "r' < r"
    | (t) "era = era'" "c = c'" "q = q'" "r = r'"
    using linorder_less_linear [of era era'] linorder_less_linear [of c c'] linorder_less_linear [of q q']
      linorder_less_linear [of r r'] by blast
  then show ?thesis
  proof cases
    case era_gt
    with less era_day_bounds(11) [OF p'] b show ?thesis by linarith
  next
    case c_gt
    then have "1461 * q' + 365 * r' + t' \<le> 36523" using era_day_bounds(2) [OF p] by (intro era_day_bounds(10) [OF p']) simp
    with less c_gt b show ?thesis by linarith
  next
    case q_gt
    with less b show ?thesis by linarith
  next
    case r_gt
    then have "t' \<le> 364" using era_day_bounds(6) [OF p] by (intro era_day_bounds(9) [OF p']) simp
    with less r_gt b show ?thesis by linarith
  next
    case era
    with b show ?thesis by linarith
  next
    case c
    with b show ?thesis by linarith
  next
    case q
    with b show ?thesis by linarith
  next
    case r
    then show ?thesis by simp
  next
    case t
    with less show ?thesis by simp
  qed
qed

text \<open>A number that grows with the date: months of 31 days.\<close>

definition date_key :: "int \<times> int \<times> int \<Rightarrow> int" where
  "date_key date = (case date of (y, m, d) \<Rightarrow> 31 * (12 * y + (m - 1)) + (d - 1))"

lemma month_order:
  fixes t t' :: int
  assumes "0 \<le> t" "t < t'" "t' \<le> 365"
  shows "31 * ((5 * t + 2) div 153) + (t - (153 * ((5 * t + 2) div 153) + 2) div 5) <
    31 * ((5 * t' + 2) div 153) + (t' - (153 * ((5 * t' + 2) div 153) + 2) div 5)"
proof -
  define mp mp' where "mp = (5 * t + 2) div 153" and "mp' = (5 * t' + 2) div 153"
  define k k' where "k = (153 * mp + 2) div 5" and "k' = (153 * mp' + 2) div 5"
  have b: "t - k \<le> 30" "0 \<le> t' - k'"
    using month_bounds(4) [of t] month_bounds(3) [of t'] assms unfolding k_def k'_def mp_def mp'_def
    by (meson order_trans less_imp_le)+
  have "mp \<le> mp'" unfolding mp_def mp'_def using assms(2) by (intro zdiv_mono1) simp_all
  then consider "mp + 1 \<le> mp'" | "mp = mp'" by linarith
  then have "31 * mp + (t - k) < 31 * mp' + (t' - k')"
  proof cases
    case 1
    with b show ?thesis by linarith
  next
    case 2
    then have "k = k'" by (simp add: k_def k'_def)
    with 2 assms(2) show ?thesis by simp
  qed
  then show ?thesis by (simp only: k_def k'_def mp_def mp'_def)
qed

lemma date_key_position:
  assumes "era_day c q r t" "z + 719468 = 146097 * era + (36524 * c + 1461 * q + 365 * r + t)"
  shows "date_key (civil_from_days z) =
    31 * (12 * (400 * era + 100 * c + 4 * q + r) + 2) + (31 * ((5 * t + 2) div 153) + (t - (153 * ((5 * t + 2) div 153) + 2) div 5))"
proof -
  define mp k where "mp = (5 * t + 2) div 153" and "k = (153 * mp + 2) div 5"
  define Y where "Y = 400 * era + 100 * c + 4 * q + r"
  have "0 \<le> t" "t \<le> 365" using assms(1) by (auto simp: era_day_def)
  then have "0 \<le> mp" "mp \<le> 11" unfolding mp_def by (rule month_bounds)+
  then have "date_key (if (if mp < 10 then mp + 3 else mp - 9) \<le> 2 then Y + 1 else Y,
      if mp < 10 then mp + 3 else mp - 9, t - k + 1) = 31 * (12 * Y + 2) + (31 * mp + (t - k))"
    by (simp add: date_key_def)
  then show ?thesis
    unfolding civil_from_days_era [OF assms] Let_def by (simp only: k_def mp_def Y_def)
qed

lemma civil_from_days_mono:
  assumes "z < z'"
  shows "date_key (civil_from_days z) < date_key (civil_from_days z')"
proof -
  obtain era c q r t where p: "era_day c q r t"
    "z + 719468 = 146097 * era + (36524 * c + 1461 * q + 365 * r + t)" by (rule day_position)
  obtain era' c' q' r' t' where p': "era_day c' q' r' t'"
    "z' + 719468 = 146097 * era' + (36524 * c' + 1461 * q' + 365 * r' + t')" by (rule day_position)
  have t: "0 \<le> t" "t \<le> 365" "0 \<le> t'" "t' \<le> 365" using p(1) p'(1) by (auto simp: era_day_def)
  define Y Y' where "Y = 400 * era + 100 * c + 4 * q + r" and "Y' = 400 * era' + 100 * c' + 4 * q' + r'"
  define k k' where "k = 31 * ((5 * t + 2) div 153) + (t - (153 * ((5 * t + 2) div 153) + 2) div 5)"
    and "k' = 31 * ((5 * t' + 2) div 153) + (t' - (153 * ((5 * t' + 2) div 153) + 2) div 5)"
  have keys: "date_key (civil_from_days z) = 31 * (12 * Y + 2) + k" "date_key (civil_from_days z') = 31 * (12 * Y' + 2) + k'"
    unfolding Y_def Y'_def k_def k'_def by (rule date_key_position [OF p], rule date_key_position [OF p'])
  have "Y < Y' \<or> Y = Y' \<and> t < t'"
    unfolding Y_def Y'_def using assms p(2) p'(2) by (intro era_position_order [OF p(1) p'(1)]) linarith
  moreover have "k \<le> 371" "0 \<le> k'"
  proof -
    define mp n mp' n' where "mp = (5 * t + 2) div 153" and "n = t - (153 * mp + 2) div 5"
      and "mp' = (5 * t' + 2) div 153" and "n' = t' - (153 * mp' + 2) div 5"
    have "mp \<le> 11" "n \<le> 30" "0 \<le> mp'" "0 \<le> n'"
      using month_bounds [OF t(1,2)] month_bounds [OF t(3,4)] unfolding mp_def n_def mp'_def n'_def by blast+
    then have "31 * mp + n \<le> 371" "0 \<le> 31 * mp' + n'" by linarith+
    then show "k \<le> 371" "0 \<le> k'" unfolding k_def k'_def mp_def n_def mp'_def n'_def by blast+
  qed
  moreover have "t < t' \<Longrightarrow> k < k'" unfolding k_def k'_def using t by (intro month_order)
  ultimately have "31 * (12 * Y + 2) + k < 31 * (12 * Y' + 2) + k'" by (elim disjE conjE) simp_all
  then show ?thesis unfolding keys .
qed

subsection \<open>Fixed-width fields compare as numbers\<close>

lemma list_less_append:
  fixes u u' v v' :: "'a::order list"
  assumes "length u = length u'"
  shows "u @ v < u' @ v' \<longleftrightarrow> u < u' \<or> u = u' \<and> v < v'"
  using assms by (induction u u' rule: list_induct2) auto

lemma digit_byte_less:
  assumes "a < 10" "b < 10"
  shows "u8_of_char (digit_char a) < u8_of_char (digit_char b) \<longleftrightarrow> a < b"
    and "u8_of_char (digit_char a) = u8_of_char (digit_char b) \<longleftrightarrow> a = b"
proof -
  have "unat (u8_of_char (digit_char n)) = 0x30 + n" if "n < 10" for n
    using that unat_word_of_nat_eq [of "0x30 + n", where 'a = 8]
    by (simp add: u8_of_char_def del: of_nat_add)
  then have "unat (u8_of_char (digit_char a)) = 0x30 + a" "unat (u8_of_char (digit_char b)) = 0x30 + b"
    using assms by blast+
  then show "u8_of_char (digit_char a) < u8_of_char (digit_char b) \<longleftrightarrow> a < b"
    and "u8_of_char (digit_char a) = u8_of_char (digit_char b) \<longleftrightarrow> a = b"
    by (simp_all add: word_less_nat_alt word_unat_eq_iff)
qed

lemma decimal_step:
  fixes a b c d :: nat
  assumes "b < 10" "d < 10"
  shows "10 * a + b < 10 * c + d \<longleftrightarrow> a < c \<or> a = c \<and> b < d"
  using assms by linarith

lemma div_mod_less:
  fixes m n :: nat
  shows "m < n \<longleftrightarrow> m div 10 < n div 10 \<or> m div 10 = n div 10 \<and> m mod 10 < n mod 10"
  using decimal_step [of "m mod 10" "n mod 10" "m div 10" "n div 10"] by simp

lemma fmt_two_less:
  assumes "0 \<le> i" "i < 100" "0 \<le> j" "j < 100"
  shows "as_bytes (fmt_0w 2 i) < as_bytes (fmt_0w 2 j) \<longleftrightarrow> i < j"
proof -
  have "nat i div 10 < 10" "nat j div 10 < 10" using assms by simp_all
  then have "as_bytes (fmt_0w 2 i) < as_bytes (fmt_0w 2 j) \<longleftrightarrow> nat i < nat j"
    unfolding fmt_two [OF assms(1,2)] fmt_two [OF assms(3,4)] div_mod_less [of "nat i"]
    by (simp add: digit_byte_less)
  then show ?thesis using assms by (auto simp: nat_less_eq_zless)
qed

lemma fmt_four_less:
  assumes "0 \<le> i" "i < 10000" "0 \<le> j" "j < 10000"
  shows "as_bytes (fmt_0w 4 i) < as_bytes (fmt_0w 4 j) \<longleftrightarrow> i < j"
proof -
  define m n where "m = nat i" and "n = nat j"
  have b: "m div 1000 < 10" "n div 1000 < 10" using assms by (simp_all add: m_def n_def)
  have d: "k div 100 = k div 10 div 10" "k div 1000 = k div 10 div 10 div 10" for k :: nat
    by (simp_all add: div_mult2_eq [symmetric])
  have "as_bytes (fmt_0w 4 i) < as_bytes (fmt_0w 4 j) \<longleftrightarrow>
      m div 1000 < n div 1000 \<or> m div 1000 = n div 1000 \<and>
       (m div 100 mod 10 < n div 100 mod 10 \<or> m div 100 mod 10 = n div 100 mod 10 \<and>
         (m div 10 mod 10 < n div 10 mod 10 \<or> m div 10 mod 10 = n div 10 mod 10 \<and> m mod 10 < n mod 10))"
    unfolding fmt_four [OF assms(1,2)] fmt_four [OF assms(3,4)] m_def [symmetric] n_def [symmetric]
    using b by (simp add: digit_byte_less)
  also have "\<dots> \<longleftrightarrow> m < n"
    using div_mod_less [of m n] div_mod_less [of "m div 10" "n div 10"] div_mod_less [of "m div 10 div 10" "n div 10 div 10"]
      div_mult_mod_eq [of "m div 10" 10] div_mult_mod_eq [of "n div 10" 10]
      div_mult_mod_eq [of "m div 10 div 10" 10] div_mult_mod_eq [of "n div 10 div 10" 10]
    unfolding d by metis
  finally show ?thesis using assms by (auto simp: m_def n_def nat_less_eq_zless)
qed

subsection \<open>The order of the forms\<close>

lemma date_key_lex:
  assumes "date_key (y, m, d) < date_key (y', m', d')"
    and "1 \<le> m" "m \<le> 12" "1 \<le> d" "d \<le> 31" "1 \<le> m'" "m' \<le> 12" "1 \<le> d'" "d' \<le> 31"
  shows "y < y' \<or> y = y' \<and> (m < m' \<or> m = m' \<and> d < d')"
  using assms unfolding date_key_def by simp linarith

lemma day_fields_lex:
  fixes s s' :: int
  assumes "s mod 86400 < s' mod 86400"
  shows "s mod 86400 div 3600 < s' mod 86400 div 3600 \<or> s mod 86400 div 3600 = s' mod 86400 div 3600 \<and>
    (s mod 86400 mod 3600 div 60 < s' mod 86400 mod 3600 div 60 \<or>
     s mod 86400 mod 3600 div 60 = s' mod 86400 mod 3600 div 60 \<and> s mod 86400 mod 60 < s' mod 86400 mod 60)"
proof -
  define h n k where "h = s mod 86400 div 3600" and "n = s mod 86400 mod 3600 div 60" and "k = s mod 86400 mod 60"
  define h' n' k' where "h' = s' mod 86400 div 3600" and "n' = s' mod 86400 mod 3600 div 60" and "k' = s' mod 86400 mod 60"
  have "h * 3600 + n * 60 + k < h' * 3600 + n' * 60 + k'"
    using assms day_fields(7) [of s] day_fields(7) [of s'] unfolding h_def n_def k_def h'_def n'_def k'_def by linarith
  moreover have "0 \<le> n" "n < 60" "0 \<le> k" "k < 60" "0 \<le> n'" "n' < 60" "0 \<le> k'" "k' < 60"
    using day_fields [of s] day_fields [of s'] unfolding n_def k_def n'_def k'_def by blast+
  ultimately have "h < h' \<or> h = h' \<and> (n < n' \<or> n = n' \<and> k < k')" by linarith
  then show ?thesis unfolding h_def n_def k_def h'_def n'_def k'_def .
qed

lemma length_fmt_four: "0 \<le> i \<Longrightarrow> i < 10000 \<Longrightarrow> length (fmt_0w 4 i) = 4"
  by (simp add: fmt_four)

text \<open>A form compares field by field.\<close>

definition stamp_less :: "int \<times> int \<times> int \<times> int \<times> int \<times> int \<Rightarrow> int \<times> int \<times> int \<times> int \<times> int \<times> int \<Rightarrow> bool" where
  "stamp_less p p' = (case (p, p') of ((y, m, d, h, n, k), (y', m', d', h', n', k')) \<Rightarrow>
     y < y' \<or> y = y' \<and> (m < m' \<or> m = m' \<and> (d < d' \<or> d = d' \<and>
       (h < h' \<or> h = h' \<and> (n < n' \<or> n = n' \<and> k < k')))))"

definition stamp_form :: "int \<times> int \<times> int \<times> int \<times> int \<times> int \<Rightarrow> string" where
  "stamp_form p = (case p of (y, m, d, h, n, k) \<Rightarrow>
     fmt_0w 4 y @ ''-'' @ fmt_0w 2 m @ ''-'' @ fmt_0w 2 d @ ''T'' @ fmt_0w 2 h @ '':'' @ fmt_0w 2 n @ '':'' @
     fmt_0w 2 k @ ''Z'')"

definition stamp_ok :: "int \<times> int \<times> int \<times> int \<times> int \<times> int \<Rightarrow> bool" where
  "stamp_ok p = (case p of (y, m, d, h, n, k) \<Rightarrow>
     0 \<le> y \<and> y < 10000 \<and> (\<forall>i \<in> {m, d, h, n, k}. 0 \<le> i \<and> i < 100))"

lemma fmt_two_next:
  assumes "0 \<le> i" "i < 100" "0 \<le> j" "j < 100"
  shows "as_bytes (fmt_0w 2 i @ v) < as_bytes (fmt_0w 2 j @ v') \<longleftrightarrow> i < j \<or> i = j \<and> as_bytes v < as_bytes v'"
proof -
  have "length (as_bytes (fmt_0w 2 i)) = length (as_bytes (fmt_0w 2 j))" using assms by (simp add: length_fmt_two)
  moreover have "as_bytes (fmt_0w 2 i) = as_bytes (fmt_0w 2 j) \<longleftrightarrow> i = j"
    using fmt_two_less [OF assms] fmt_two_less [OF assms(3,4,1,2)] by (metis less_irrefl linorder_neqE)
  ultimately show ?thesis
    by (simp only: as_bytes_append list_less_append fmt_two_less [OF assms])
qed

lemma fmt_four_next:
  assumes "0 \<le> i" "i < 10000" "0 \<le> j" "j < 10000"
  shows "as_bytes (fmt_0w 4 i @ v) < as_bytes (fmt_0w 4 j @ v') \<longleftrightarrow> i < j \<or> i = j \<and> as_bytes v < as_bytes v'"
proof -
  have "length (as_bytes (fmt_0w 4 i)) = length (as_bytes (fmt_0w 4 j))" using assms by (simp add: length_fmt_four)
  moreover have "as_bytes (fmt_0w 4 i) = as_bytes (fmt_0w 4 j) \<longleftrightarrow> i = j"
    using fmt_four_less [OF assms] fmt_four_less [OF assms(3,4,1,2)] by (metis less_irrefl linorder_neqE)
  ultimately show ?thesis
    by (simp only: as_bytes_append list_less_append fmt_four_less [OF assms])
qed

lemma separator_next: "as_bytes ([c] @ v) < as_bytes ([c] @ v') \<longleftrightarrow> as_bytes v < as_bytes v'"
  by simp

lemma stamp_form_less:
  assumes "stamp_ok p" "stamp_ok p'"
  shows "as_bytes (stamp_form p) < as_bytes (stamp_form p') \<longleftrightarrow> stamp_less p p'"
proof -
  obtain y m d h n k where p: "p = (y, m, d, h, n, k)" by (cases p)
  obtain y' m' d' h' n' k' where p': "p' = (y', m', d', h', n', k')" by (cases p')
  have b: "0 \<le> y" "y < 10000" "0 \<le> m" "m < 100" "0 \<le> d" "d < 100" "0 \<le> h" "h < 100" "0 \<le> n" "n < 100" "0 \<le> k" "k < 100"
    "0 \<le> y'" "y' < 10000" "0 \<le> m'" "m' < 100" "0 \<le> d'" "d' < 100" "0 \<le> h'" "h' < 100" "0 \<le> n'" "n' < 100"
    "0 \<le> k'" "k' < 100"
    using assms unfolding p p' stamp_ok_def by simp_all
  show ?thesis
    unfolding p p' stamp_form_def stamp_less_def prod.case
      fmt_four_next [OF b(1,2,13,14)] separator_next fmt_two_next [OF b(3,4,15,16)] fmt_two_next [OF b(5,6,17,18)]
      fmt_two_next [OF b(7,8,19,20)] fmt_two_next [OF b(9,10,21,22)] fmt_two_next [OF b(11,12,23,24)] less_irrefl
    by blast
qed

lemma rfc3339_stamp:
  assumes "min_seconds \<le> s" "s \<le> max_seconds" "civil_from_days (s div 86400) = (y, m, d)"
  defines "p \<equiv> (y, m, d, s mod 86400 div 3600, s mod 86400 mod 3600 div 60, s mod 86400 mod 60)"
  shows "rfc3339_from_seconds s = stamp_form p" and "stamp_ok p"
proof -
  show "rfc3339_from_seconds s = stamp_form p"
    unfolding p_def stamp_form_def prod.case by (rule rfc3339_shape [OF assms(3)])
  define h n k where "h = s mod 86400 div 3600" and "n = s mod 86400 mod 3600 div 60" and "k = s mod 86400 mod 60"
  have "0 \<le> h" "h < 24" "0 \<le> n" "n < 60" "0 \<le> k" "k < 60"
    using day_fields [of s] unfolding h_def n_def k_def by blast+
  moreover have "0 \<le> y" "y \<le> 9999" using timestamp_years [OF assms(3)] assms(1,2) by blast+
  ultimately show "stamp_ok p"
    using civil_bounds [OF assms(3)] unfolding p_def stamp_ok_def prod.case h_def [symmetric] n_def [symmetric] k_def [symmetric]
    by simp
qed

lemma rfc3339_mono:
  assumes "min_seconds \<le> s" "s < s'" "s' \<le> max_seconds"
  shows "as_bytes (rfc3339_from_seconds s) < as_bytes (rfc3339_from_seconds s')"
proof -
  obtain y m d where c: "civil_from_days (s div 86400) = (y, m, d)" by (cases "civil_from_days (s div 86400)")
  obtain y' m' d' where c': "civil_from_days (s' div 86400) = (y', m', d')" by (cases "civil_from_days (s' div 86400)")
  have s: "min_seconds \<le> s" "s \<le> max_seconds" "min_seconds \<le> s'" "s' \<le> max_seconds" using assms by simp_all
  note st = rfc3339_stamp [OF s(1,2) c] and st' = rfc3339_stamp [OF s(3,4) c']
  have "s div 86400 \<le> s' div 86400" using assms(2) by (intro zdiv_mono1) simp_all
  then consider (day) "s div 86400 < s' div 86400" | (same) "s div 86400 = s' div 86400" "s mod 86400 < s' mod 86400"
    using div_mult_mod_eq [of s 86400] div_mult_mod_eq [of s' 86400] assms(2) by (cases "s div 86400 = s' div 86400") auto
  then show ?thesis
    unfolding st(1) st'(1) stamp_form_less [OF st(2) st'(2)]
  proof cases
    case day
    have "date_key (y, m, d) < date_key (y', m', d')" using civil_from_days_mono [OF day] c c' by simp
    from date_key_lex [OF this civil_bounds [OF c] civil_bounds [OF c']]
    show "stamp_less (y, m, d, s mod 86400 div 3600, s mod 86400 mod 3600 div 60, s mod 86400 mod 60)
        (y', m', d', s' mod 86400 div 3600, s' mod 86400 mod 3600 div 60, s' mod 86400 mod 60)"
      unfolding stamp_less_def prod.case by blast
  next
    case same
    with c c' have "y' = y" "m' = m" "d' = d" by simp_all
    then show "stamp_less (y, m, d, s mod 86400 div 3600, s mod 86400 mod 3600 div 60, s mod 86400 mod 60)
        (y', m', d', s' mod 86400 div 3600, s' mod 86400 mod 3600 div 60, s' mod 86400 mod 60)"
      using day_fields_lex [OF same(2)] unfolding stamp_less_def prod.case by blast
  qed
qed

lemma rfc3339_less_iff:
  assumes "min_seconds \<le> s" "s \<le> max_seconds" "min_seconds \<le> t" "t \<le> max_seconds"
  shows "as_bytes (rfc3339_from_seconds s) < as_bytes (rfc3339_from_seconds t) \<longleftrightarrow> s < t"
    and "as_bytes (rfc3339_from_seconds s) \<le> as_bytes (rfc3339_from_seconds t) \<longleftrightarrow> s \<le> t"
  using rfc3339_mono [of s t] rfc3339_mono [of t s] assms
  by (metis linorder_neqE less_asym less_irrefl, metis linorder_not_le leI le_less)

end
