(* ===== verification/Identity_Provider.thy ===== *)
theory Identity_Provider
  imports Handlers Identity_Store Audit_Sealer Webauthn Timestamp_Order
begin

section \<open>The identity provider (\<open>apps/identity-provider/src/lib.rs\<close>, \<open>httpapi.rs\<close>)\<close>

text \<open>
  The service has two entries. The gRPC entry verifies a sealed assertion. The HTTP entry issues
  challenges and verifies ceremonies; it is the only place where an assertion is issued, and each
  success adds a sealed event to the audit chain. An HTTP handler is an \<open>async\<close> function: it is modelled
  as a \<open>handler\<close> whose steps are its queries, its readings of the clock, of the random generator and of
  the UUID generator, and its two sealing tasks; what the other handlers and the environment do
  between two steps is unconstrained by the definitions. The base64url encoder is a parameter beside the
  decoder that \<open>zs-webauthn\<close> uses.
\<close>

record idp_ext = webauthn_ext +
  ext_b64url_encode :: "bytes \<Rightarrow> string"

text \<open>
  The mutable part of \<open>AppState\<close>, the tables behind its stores, and what the process reads from the
  system: the clock, the random generator, the next UUID and the wake-ups of a waiting sealer.
\<close>

record 't idp_world = database +
  w_assertion_sealer :: "'t sealer"
  w_audit_sealer :: "'t sealer"
  w_clock :: "u64 option"
  w_random :: "nat \<Rightarrow> bytes option"
  w_uuid :: string
  w_wakes :: wakes

record app_config =
  app_rp_id :: string
  app_origin :: string
  app_authority_domain :: string
  app_audience :: string
  app_challenge_ttl_seconds :: int
  app_assertion_ttl_seconds :: int

subsection \<open>The clock (\<open>lib.rs\<close>)\<close>

text \<open>
  \<open>format_rfc3339\<close> and \<open>civil_from_days\<close> are the functions of \<open>Calendar\<close>. The seconds are read as \<open>i64\<close> and
  the addition of the validity wraps.
\<close>

definition unix_now_seconds :: "u64 option \<Rightarrow> (int, 'e) outcome" where
  "unix_now_seconds clock = (case clock of None \<Rightarrow> Panic | Some secs \<Rightarrow> Ok (sint secs))"

definition idp_rfc3339_now :: "u64 option \<Rightarrow> (string, 'e) outcome" where
  "idp_rfc3339_now clock = and_then (unix_now_seconds clock) (\<lambda>now. Ok (rfc3339_from_seconds now))"

definition i64_add :: "int \<Rightarrow> int \<Rightarrow> int" where
  "i64_add a b = sint (word_of_int (a + b) :: u64)"

definition rfc3339_now_and_after :: "int \<Rightarrow> u64 option \<Rightarrow> (string \<times> string, 'e) outcome" where
  "rfc3339_now_and_after ttl_seconds clock =
     and_then (unix_now_seconds clock) (\<lambda>now.
       Ok (rfc3339_from_seconds now, rfc3339_from_seconds (i64_add now ttl_seconds)))"

subsection \<open>Verification of an assertion (\<open>lib.rs\<close>)\<close>

definition IDP_ACCEPTED_SUITES :: "string list" where
  "IDP_ACCEPTED_SUITES = [IDENTITY_SUITE_V1]"

record verify_assertion_request =
  var_assertion :: bytes
  var_expected_authority_domain :: string

record verify_assertion_response =
  vas_valid :: bool
  vas_reason :: string
  vas_subject_id :: string
  vas_aal :: string
  vas_auth_method :: string
  vas_audit_event_id :: string

fun verify_error_reason :: "identity_verify_error \<Rightarrow> string" where
  "verify_error_reason IdUnknownSuite = ''suite_inconnue''"
| "verify_error_reason IdMalformedKey = ''cle_malformee''"
| "verify_error_reason IdTooLarge = ''taille_excessive''"
| "verify_error_reason IdMalformedDocument = ''document_malforme''"
| "verify_error_reason IdNonCanonical = ''non_canonique''"
| "verify_error_reason IdInvalidSignatureArity = ''arite_signature_incorrecte''"
| "verify_error_reason IdUnknownKeyId = ''identifiant_de_cle_inconnu''"
| "verify_error_reason IdInvalidSignature = ''signature_invalide''"
| "verify_error_reason IdUnexpectedAuthorityDomain = ''domaine_dautorite_inattendu''"
| "verify_error_reason IdNotYetValidOrExpired = ''expiree_ou_pas_encore_valide''"

definition assertion_verifier_verify_assertion ::
  "'x zs_ext_scheme \<Rightarrow> accepted_verifying_key \<Rightarrow> u64 option \<Rightarrow> verify_assertion_request \<Rightarrow>
     (verify_assertion_response, status) outcome" where
  "assertion_verifier_verify_assertion X key clock req =
     and_then (idp_rfc3339_now clock) (\<lambda>now.
     and_then (expect (Timestamp_new now)) (\<lambda>timestamp.
       let policy = \<lparr>iap_accepted_suites = IDP_ACCEPTED_SUITES, iap_now = timestamp,
                     iap_expected_authority_domain = var_expected_authority_domain req\<rparr>
       in case identity_assertion_verify X [key] (var_assertion req) policy of
            Panic \<Rightarrow> Panic
          | Ok verified \<Rightarrow> Ok \<lparr>vas_valid = True, vas_reason = '''', vas_subject_id = va_subject_id verified,
              vas_aal = va_aal verified, vas_auth_method = va_auth_method verified,
              vas_audit_event_id = va_audit_event_id verified\<rparr>
          | Err e \<Rightarrow> Ok \<lparr>vas_valid = False, vas_reason = verify_error_reason e, vas_subject_id = '''',
              vas_aal = '''', vas_auth_method = '''', vas_audit_event_id = ''''\<rparr>))"

subsection \<open>HTTP errors (\<open>httpapi.rs\<close>)\<close>

record api_error =
  ae_status :: nat
  ae_reason :: string

definition bad_request :: "string \<Rightarrow> api_error" where
  "bad_request reason = \<lparr>ae_status = 400, ae_reason = reason\<rparr>"

definition unauthorized :: "string \<Rightarrow> api_error" where
  "unauthorized reason = \<lparr>ae_status = 401, ae_reason = reason\<rparr>"

definition internal_error :: api_error where
  "internal_error = \<lparr>ae_status = 500, ae_reason = ''erreur_interne''\<rparr>"

definition store_unavailable :: "sqlx_error \<Rightarrow> api_error" where
  "store_unavailable e = \<lparr>ae_status = 503, ae_reason = ''base_de_donnees_indisponible''\<rparr>"

definition sealing_unavailable :: "'e \<Rightarrow> api_error" where
  "sealing_unavailable e = \<lparr>ae_status = 503, ae_reason = ''scellement_indisponible''\<rparr>"

definition into_response :: "api_error \<Rightarrow> nat \<times> json" where
  "into_response e = (ae_status e, JObject [(''reason'', JString (ae_reason e))])"

text \<open>The \<open>Display\<close> of the errors of a registration; accented letters are their UTF-8 encoding.\<close>

abbreviation utf8_e_acute :: string where
  "utf8_e_acute \<equiv> [CHR 0xC3, CHR 0xA9]"

abbreviation quote_char :: string where
  "quote_char \<equiv> [CHR 0x27]"

fun client_data_error_to_string :: "client_data_error \<Rightarrow> string" where
  "client_data_error_to_string InvalidJson = ''clientDataJSON n'' @ quote_char @ ''est pas un JSON valide''"
| "client_data_error_to_string (UnexpectedType s) =
     ''type de c'' @ utf8_e_acute @ ''r'' @ utf8_e_acute @ ''monie inattendu : '' @ s"
| "client_data_error_to_string (UnexpectedOrigin s) = ''origine inattendue : '' @ s"
| "client_data_error_to_string ChallengeMismatch =
     ''challenge non concordant '' @ [CHR 0xE2, CHR 0x80, CHR 0x94] @ '' rejou'' @ utf8_e_acute @
       '' ou falsifi'' @ utf8_e_acute"
| "client_data_error_to_string InvalidChallengeEncoding =
     ''challenge encod'' @ utf8_e_acute @ '' en base64url invalide''"

fun cose_error_to_string :: "cose_error \<Rightarrow> string" where
  "cose_error_to_string CoseInvalidCbor =
     ''cl'' @ utf8_e_acute @ '' COSE malform'' @ utf8_e_acute @ ''e (CBOR invalide)''"
| "cose_error_to_string UnsupportedKeyType =
     ''type de cl'' @ utf8_e_acute @ '' COSE non support'' @ utf8_e_acute @ '' par authenticator-proof/v1''"
| "cose_error_to_string MissingOrInvalidParameter =
     ''param'' @ [CHR 0xC3, CHR 0xA8] @ ''tre de cl'' @ utf8_e_acute @
       '' COSE manquant ou de longueur incorrecte''"

fun registration_error_to_string :: "registration_error \<Rightarrow> string" where
  "registration_error_to_string (RegClientData e) = ''clientDataJSON invalide : '' @ client_data_error_to_string e"
| "registration_error_to_string AttestationObjectTooLarge =
     ''attestationObject d'' @ utf8_e_acute @ ''passe la taille maximale accept'' @ utf8_e_acute @ ''e''"
| "registration_error_to_string RegInvalidCbor = ''attestationObject n'' @ quote_char @ ''est pas un CBOR valide''"
| "registration_error_to_string MalformedAttestationObject =
     ''attestationObject : champ obligatoire manquant ou de type incorrect''"
| "registration_error_to_string RegMalformedAuthenticatorData =
     ''authenticatorData tronqu'' @ utf8_e_acute @ '' ou incoh'' @ utf8_e_acute @ ''rent''"
| "registration_error_to_string RegRpIdMismatch = ''rpIdHash ne correspond pas au rpId attendu''"
| "registration_error_to_string MissingAttestedCredentialData =
     ''le drapeau attestedCredentialData n'' @ quote_char @ ''est pas positionn'' @ utf8_e_acute"
| "registration_error_to_string RegUserNotPresent =
     ''le drapeau user present (UP) n'' @ quote_char @ ''est pas positionn'' @ utf8_e_acute"
| "registration_error_to_string (RegCose e) =
     ''cl'' @ utf8_e_acute @ '' publique COSE invalide : '' @ cose_error_to_string e"
| "registration_error_to_string (UnsupportedAttestationFormat f) =
     ''format d'' @ quote_char @ ''attestation '' @ quote_char @ f @ quote_char @ '' non support'' @ utf8_e_acute @
       '' (seuls '' @ quote_char @ ''none'' @ quote_char @ '' et '' @ quote_char @ ''packed'' @ quote_char @ '' le sont)''"
| "registration_error_to_string AttestationRequiredButAbsent =
     ''attestation exig'' @ utf8_e_acute @ ''e par la politique, mais absente (fmt: none)''"
| "registration_error_to_string AttestationCertificateChainUnsupported =
     ''attestation '' @ quote_char @ ''packed'' @ quote_char @ '' avec cha'' @ [CHR 0xC3, CHR 0xAE] @
       ''ne de certificats (x5c) non support'' @ utf8_e_acute @ ''e''"
| "registration_error_to_string MalformedAttestationStatement =
     ''statement d'' @ quote_char @ ''attestation '' @ quote_char @ ''packed'' @ quote_char @ '' malform'' @ utf8_e_acute"
| "registration_error_to_string InvalidAttestationSignature = ''signature d'' @ quote_char @ ''attestation invalide''"

subsection \<open>Encodings (\<open>httpapi.rs\<close>)\<close>

definition b64_decode :: "'x idp_ext_scheme \<Rightarrow> string \<Rightarrow> string \<Rightarrow> (bytes, api_error) outcome" where
  "b64_decode X field v =
     ok_or (bad_request (field @ ''_encodage_invalide'')) (ext_b64url_decode X v)"

definition b64_encode :: "'x idp_ext_scheme \<Rightarrow> bytes \<Rightarrow> string" where
  "b64_encode X bs = ext_b64url_encode X bs"

definition de_partial :: "json \<Rightarrow> string option" where
  "de_partial j =
     Option.bind (struct_fields False [''challenge''] j) (\<lambda>m. req_field m ''challenge'' de_string)"

definition presented_challenge_bytes :: "'x idp_ext_scheme \<Rightarrow> bytes \<Rightarrow> (bytes, api_error) outcome" where
  "presented_challenge_bytes X client_data_json =
     and_then (ok_or (bad_request ''client_data_json_invalide'')
                 (Option.bind (ext_from_slice X client_data_json) de_partial)) (\<lambda>challenge.
       ok_or (bad_request ''challenge_encodage_invalide'') (ext_b64url_decode X challenge))"

fun push_hex :: "string \<Rightarrow> bytes \<Rightarrow> string" where
  "push_hex s [] = s"
| "push_hex s (b # bs) = push_hex (s @ fmt_02x b) bs"

definition idp_hex_encode :: "bytes \<Rightarrow> string" where
  "idp_hex_encode bs = push_hex '''' bs"

definition identity_assertion_challenge :: "bytes \<Rightarrow> (bytes, api_error) outcome" where
  "identity_assertion_challenge bs =
     map_err (\<lambda>_. bad_request ''challenge_invalide'') (accept_challenge PROOF_SUITE_V1 bs)"

fun event_type_str :: "audit_event_type \<Rightarrow> string" where
  "event_type_str AuthenticatorRegistered = ''authenticator.registered''"
| "event_type_str AuthenticatorRevoked = ''authenticator.revoked''"
| "event_type_str AuthenticationAttempted = ''authentication.attempted''"
| "event_type_str AuthenticationSucceeded = ''authentication.succeeded''"
| "event_type_str AuthenticationFailed = ''authentication.failed''"
| "event_type_str RecoveryInitiated = ''recovery.initiated''"
| "event_type_str QuorumOperation = ''quorum.operation''"
| "event_type_str AuditChainVerified = ''audit.chain_verified''"
| "event_type_str PolicyDecided = ''policy.decided''"
| "event_type_str CredentialIssued = ''credential.issued''"

fun outcome_str :: "audit_outcome \<Rightarrow> string" where
  "outcome_str OutcomeSuccess = ''success''"
| "outcome_str OutcomeDenied = ''denied''"
| "outcome_str OutcomeError = ''error''"

definition actor_json :: "string \<Rightarrow> json" where
  "actor_json subject_id = JObject (map_insert ''kind'' (JString ''human'') (map_insert ''subject_id'' (JString subject_id) []))"

definition event_signature_json :: "bytes \<Rightarrow> json" where
  "event_signature_json sealed = JObject [(''suite'', JString AUDIT_SUITE_V1)]"

subsection \<open>Steps on the world\<close>

definition query :: "('w, 'a, sqlx_error) action \<Rightarrow> ('w, ('a, api_error) outcome) handler" where
  "query m = atomic (act_map_err store_unavailable m)"

definition read_clock ::
  "(u64 option \<Rightarrow> ('a, api_error) outcome) \<Rightarrow> ('t idp_world, ('a, api_error) outcome) handler" where
  "read_clock f = atomic (\<lambda>w. (f (w_clock w), w))"

definition uuid_now_v7 :: "('t idp_world, (string, api_error) outcome) handler" where
  "uuid_now_v7 = atomic (\<lambda>w. (Ok (w_uuid w), w))"

definition draw_challenge :: "('t idp_world, (bytes, api_error) outcome) handler" where
  "draw_challenge = atomic (\<lambda>w. (new_challenge (w_random w), w))"

text \<open>\<open>spawn_blocking\<close> followed by its two \<open>map_err\<close>: a panic of the task, then its error.\<close>

fun join_task :: "('a, 'e) outcome \<Rightarrow> ('a, api_error) outcome" where
  "join_task (Ok x) = Ok x"
| "join_task (Err e) = Err (sealing_unavailable e)"
| "join_task Panic = Err internal_error"

definition spawn_assertion_seal ::
  "'x zs_ext_scheme \<Rightarrow> 't pkcs11 \<Rightarrow> assertion_claims \<Rightarrow> ('t idp_world, (bytes, api_error) outcome) handler" where
  "spawn_assertion_seal X P claims = atomic (\<lambda>w.
     case assertion_seal X P (w_wakes w) claims (w_assertion_sealer w) of
       (r, sl) \<Rightarrow> (join_task r, w\<lparr>w_assertion_sealer := sl\<rparr>))"

definition spawn_audit_seal ::
  "'x zs_ext_scheme \<Rightarrow> 't pkcs11 \<Rightarrow> audit_event_fields \<Rightarrow> ('t idp_world, (bytes, api_error) outcome) handler" where
  "spawn_audit_seal X P event = atomic (\<lambda>w.
     case audit_seal X P (w_wakes w) event (w_audit_sealer w) of
       (r, sl) \<Rightarrow> (join_task r, w\<lparr>w_audit_sealer := sl\<rparr>))"

text \<open>A constructor of a validated field, whose refusal is an internal error.\<close>

definition field_step ::
  "('a, field_error) outcome \<Rightarrow> ('w, ('a, api_error) outcome) handler" where
  "field_step r = pure_step (map_err (\<lambda>_. internal_error) r)"

subsection \<open>The audit event of a handler\<close>

definition audit_target_of :: "string \<times> string \<times> string \<Rightarrow> (audit_target, api_error) outcome" where
  "audit_target_of t =
     (case t of (_, ty, ident) \<Rightarrow>
        and_then (expect (ShortText_new ty)) (\<lambda>ty'.
        and_then (expect (ShortText_new ident)) (\<lambda>id'.
          Ok \<lparr>target_type = ty', target_id = id'\<rparr>)))"

definition justification_context :: "string \<Rightarrow> audit_context" where
  "justification_context j =
     \<lparr>ctx_source_network = None, ctx_ticket_ref = None,
      ctx_justification = (case Justification_new j of Ok s \<Rightarrow> Some s | _ \<Rightarrow> None)\<rparr>"

definition seal_and_append_audit_event ::
  "'x zs_ext_scheme \<Rightarrow> 't pkcs11 \<Rightarrow> app_config \<Rightarrow> audit_event_type \<Rightarrow> string \<Rightarrow>
     (string \<times> string \<times> string) option \<Rightarrow> string option \<Rightarrow> audit_outcome \<Rightarrow>
     ('t idp_world, (unit, api_error) outcome) handler" where
  "seal_and_append_audit_event X P cfg event_type subject_id explicit justification outcome =
     await (query (audit_chain_head X (app_authority_domain cfg))) (\<lambda>head.
     await (case explicit of Some (ident, _, _) \<Rightarrow> pure_step (Ok ident) | None \<Rightarrow> uuid_now_v7) (\<lambda>event_id_string.
     await (pure_step (traverse_option audit_target_of explicit)) (\<lambda>target.
     await (field_step (EventId_new event_id_string)) (\<lambda>event_id.
     await (field_step (Sequence_new (hd_next_sequence head))) (\<lambda>sequence.
     await (read_clock idp_rfc3339_now) (\<lambda>now.
     await (field_step (Timestamp_new now)) (\<lambda>occurred_at.
     await (field_step (AuthorityDomain_new (app_authority_domain cfg))) (\<lambda>authority_domain.
     await (field_step (SubjectId_new subject_id)) (\<lambda>actor_subject.
     await (spawn_audit_seal X P
       \<lparr>ev_event_id = event_id, ev_sequence = sequence, ev_prev_hash = hd_prev_hash head,
        ev_occurred_at = occurred_at, ev_authority_domain = authority_domain, ev_event_type = event_type,
        ev_actor = \<lparr>actor_subject_id = actor_subject, actor_kind_of = Human, actor_aal = None,
                    actor_auth_method = None\<rparr>,
        ev_target = target, ev_outcome = outcome,
        ev_context = map_option justification_context justification, ev_decision = None\<rparr>) (\<lambda>sealed.
     await (read_clock idp_rfc3339_now) (\<lambda>now'.
     await (query (audit_append event_id_string (hd_next_sequence head) now' (app_authority_domain cfg)
              (event_type_str event_type) (actor_json subject_id) (outcome_str outcome)
              (idp_hex_encode (hd_prev_hash head)) (event_signature_json sealed) sealed)) (\<lambda>_.
       pure_step (Ok ())))))))))))))"

subsection \<open>The four handlers\<close>

record challenge_response =
  cr_challenge :: string
  cr_rp_id :: string
  cr_expires_at :: string

definition registration_challenge ::
  "'x idp_ext_scheme \<Rightarrow> app_config \<Rightarrow> string \<Rightarrow> ('t idp_world, (challenge_response, api_error) outcome) handler" where
  "registration_challenge X cfg subject_id =
     await draw_challenge (\<lambda>challenge.
     await (query (issue_challenge challenge subject_id ''registration'' (app_challenge_ttl_seconds cfg))) (\<lambda>_.
     await (read_clock (rfc3339_now_and_after (app_challenge_ttl_seconds cfg))) (\<lambda>(_, expires_at).
       pure_step (Ok \<lparr>cr_challenge = b64_encode X challenge, cr_rp_id = app_rp_id cfg,
                     cr_expires_at = expires_at\<rparr>))))"

record registration_verify_request =
  rvr_client_data_json :: string
  rvr_attestation_object :: string

definition registration_verify ::
  "'x idp_ext_scheme \<Rightarrow> 't pkcs11 \<Rightarrow> app_config \<Rightarrow> registration_verify_request \<Rightarrow>
     ('t idp_world, (string, api_error) outcome) handler" where
  "registration_verify X P cfg req =
     await (pure_step (b64_decode X ''client_data_json'' (rvr_client_data_json req))) (\<lambda>client_data_json.
     await (pure_step (b64_decode X ''attestation_object'' (rvr_attestation_object req))) (\<lambda>attestation_object.
     await (pure_step (presented_challenge_bytes X client_data_json)) (\<lambda>presented.
     await (query (consume_challenge presented ''registration'')) (\<lambda>found.
     await (pure_step (ok_or (bad_request ''challenge_invalide'') found)) (\<lambda>consumed.
     await (pure_step (identity_assertion_challenge presented)) (\<lambda>challenge.
     await (pure_step (map_err
              (\<lambda>e. unauthorized (''c'' @ utf8_e_acute @ ''r'' @ utf8_e_acute @ ''monie_invalide : '' @
                     registration_error_to_string e))
              (verify_registration_ceremony X
                 \<lparr>ri_client_data_json = client_data_json, ri_attestation_object = attestation_object,
                  ri_expected_origin = app_origin cfg, ri_expected_rp_id = app_rp_id cfg,
                  ri_expected_challenge = challenge, ri_policy = PolicyAny\<rparr>))) (\<lambda>outcome.
     await (query (insert_authenticator (cc_subject_id consumed) (ro_credential_id outcome)
              (ro_public_key_algorithm outcome) (ro_public_key_raw outcome) (ro_sign_count outcome)
              (ro_aaguid outcome) (ro_attestation_format outcome) (ro_sign_count outcome \<noteq> 0))) (\<lambda>_.
     await (seal_and_append_audit_event X P cfg AuthenticatorRegistered (cc_subject_id consumed) None None
              OutcomeSuccess) (\<lambda>_.
       pure_step (Ok (b64_encode X (ro_credential_id outcome))))))))))))"

record authentication_challenge_response =
  acr_challenge :: string
  acr_rp_id :: string
  acr_expires_at :: string
  acr_allow_credentials :: "string list"

definition authentication_challenge ::
  "'x idp_ext_scheme \<Rightarrow> app_config \<Rightarrow> string \<Rightarrow>
     ('t idp_world, (authentication_challenge_response, api_error) outcome) handler" where
  "authentication_challenge X cfg subject_id =
     await draw_challenge (\<lambda>challenge.
     await (query (issue_challenge challenge subject_id ''authentication'' (app_challenge_ttl_seconds cfg))) (\<lambda>_.
     await (read_clock (rfc3339_now_and_after (app_challenge_ttl_seconds cfg))) (\<lambda>(_, expires_at).
     await (query (credential_ids_for_subject subject_id)) (\<lambda>credential_ids.
       pure_step (Ok \<lparr>acr_challenge = b64_encode X challenge, acr_rp_id = app_rp_id cfg,
                     acr_expires_at = expires_at, acr_allow_credentials = map (b64_encode X) credential_ids\<rparr>)))))"

record authentication_verify_request =
  avr_credential_id :: string
  avr_client_data_json :: string
  avr_authenticator_data :: string
  avr_signature :: string

definition credential_of_row :: "authenticator_row \<Rightarrow> registered_credential" where
  "credential_of_row row =
     \<lparr>rc_subject_id = aw_subject_id row, rc_credential_id = aw_credential_id row,
      rc_public_key_algorithm = aw_algorithm row, rc_public_key_raw = aw_public_key row,
      rc_counter_supported = aw_counter_supported row, rc_stored_sign_count = aw_sign_count row,
      rc_revoked = aw_revoked row\<rparr>"

fun assurance_level_of :: "auth_aal \<Rightarrow> assurance_level" where
  "assurance_level_of AuthAal1 = Aal1"
| "assurance_level_of AuthAal2 = Aal2"

text \<open>The second half of \<open>authentication_verify\<close>: from the accepted ceremony to the assertion.\<close>

definition issue_assertion ::
  "'x idp_ext_scheme \<Rightarrow> 't pkcs11 \<Rightarrow> app_config \<Rightarrow> authentication_claims \<Rightarrow>
     ('t idp_world, (string, api_error) outcome) handler" where
  "issue_assertion X P cfg claims =
     await uuid_now_v7 (\<lambda>event_id.
     await (read_clock (rfc3339_now_and_after (app_assertion_ttl_seconds cfg))) (\<lambda>(now, expires_at).
     await (field_step (SubjectId_new (cl_subject_id claims))) (\<lambda>subject_id.
     await (field_step (AuthMethod_new (cl_method claims))) (\<lambda>auth_method.
     await (field_step (Audience_new (app_audience cfg))) (\<lambda>audience.
     await (field_step (Timestamp_new now)) (\<lambda>issued_at.
     await (field_step (Timestamp_new expires_at)) (\<lambda>expires_at'.
     await (field_step (EventId_new event_id)) (\<lambda>audit_event_id.
     await (spawn_assertion_seal X P
       \<lparr>ac_authority_domain = app_authority_domain cfg, ac_subject_id = subject_id,
        ac_aal = assurance_level_of (cl_aal claims), ac_auth_method = auth_method, ac_audience = audience,
        ac_issued_at = issued_at, ac_expires_at = expires_at', ac_audit_event_id = audit_event_id\<rparr>) (\<lambda>sealed_assertion.
     await (seal_and_append_audit_event X P cfg AuthenticationSucceeded (cl_subject_id claims)
              (Some (event_id, ''identity_assertion'', idp_hex_encode (sealed_assertion_digest X sealed_assertion)))
              None OutcomeSuccess) (\<lambda>_.
       pure_step (Ok (b64_encode X sealed_assertion))))))))))))"

definition authentication_verify ::
  "'x idp_ext_scheme \<Rightarrow> 't pkcs11 \<Rightarrow> app_config \<Rightarrow> authentication_verify_request \<Rightarrow>
     ('t idp_world, (string, api_error) outcome) handler" where
  "authentication_verify X P cfg req =
     await (pure_step (b64_decode X ''credential_id'' (avr_credential_id req))) (\<lambda>credential_id.
     await (pure_step (b64_decode X ''client_data_json'' (avr_client_data_json req))) (\<lambda>client_data_json.
     await (pure_step (b64_decode X ''authenticator_data'' (avr_authenticator_data req))) (\<lambda>authenticator_data.
     await (pure_step (b64_decode X ''signature'' (avr_signature req))) (\<lambda>signature.
     await (pure_step (presented_challenge_bytes X client_data_json)) (\<lambda>presented.
     await (query (consume_challenge presented ''authentication'')) (\<lambda>found.
     await (pure_step (ok_or (unauthorized ''challenge_invalide'') found)) (\<lambda>consumed.
     await (query (find_authenticator credential_id)) (\<lambda>found_row.
     await (pure_step (ok_or (unauthorized ''authentification_refusee'') found_row)) (\<lambda>row.
     await (pure_step (identity_assertion_challenge presented)) (\<lambda>challenge.
     await (pure_step (map_err (\<lambda>_. unauthorized ''authentification_refusee'')
              (verify_authentication_ceremony X
                 \<lparr>ai_client_data_json = client_data_json, ai_authenticator_data = authenticator_data,
                  ai_signature = signature, ai_expected_origin = app_origin cfg,
                  ai_expected_rp_id = app_rp_id cfg, ai_expected_challenge = challenge,
                  ai_credential = credential_of_row row\<rparr>))) (\<lambda>claims.
     await (query (advance_sign_count (rc_credential_id (credential_of_row row)) (cl_new_sign_count claims))) (\<lambda>advanced.
       if \<not> advanced then
         await (seal_and_append_audit_event X P cfg AuthenticationFailed (cl_subject_id claims) None
                  (Some ''clonage_suspecte_compteur_concurrent'') OutcomeDenied) (\<lambda>_.
           pure_step (Err (unauthorized ''authentification_refusee'')))
       else issue_assertion X P cfg claims))))))))))))"

subsection \<open>The router\<close>

datatype idp_request =
    PostRegistrationChallenge string
  | PostRegistrationVerify registration_verify_request
  | PostAuthenticationChallenge string
  | PostAuthenticationVerify authentication_verify_request

datatype idp_reply =
    ChallengeReply challenge_response
  | RegistrationReply string
  | AuthenticationChallengeReply authentication_challenge_response
  | AssertionReply string

definition reply_with ::
  "('a \<Rightarrow> idp_reply) \<Rightarrow> ('w, ('a, api_error) outcome) handler \<Rightarrow> ('w, (idp_reply, api_error) outcome) handler" where
  "reply_with f p = await p (\<lambda>x. pure_step (Ok (f x)))"

fun router ::
  "'x idp_ext_scheme \<Rightarrow> 't pkcs11 \<Rightarrow> app_config \<Rightarrow> idp_request \<Rightarrow>
     ('t idp_world, (idp_reply, api_error) outcome) handler" where
  "router X P cfg (PostRegistrationChallenge s) = reply_with ChallengeReply (registration_challenge X cfg s)"
| "router X P cfg (PostRegistrationVerify r) = reply_with RegistrationReply (registration_verify X P cfg r)"
| "router X P cfg (PostAuthenticationChallenge s) =
     reply_with AuthenticationChallengeReply (authentication_challenge X cfg s)"
| "router X P cfg (PostAuthenticationVerify r) = reply_with AssertionReply (authentication_verify X P cfg r)"

end
