(* ===== verification/Identity_Safety.thy ===== *)
theory Identity_Safety
  imports Identity_Provider
begin

section \<open>The identity provider under concurrency\<close>

text \<open>
  The invariant of the tables and of the sealers, the evolution that every step of every handler and
  of the environment respects, and the rely-guarantee proofs of the four handlers. Everything here holds
  for any number of handlers, any interleaving of their steps, any refused query and any lost reply.
\<close>

subsection \<open>Keys, invariant, environment\<close>

record sealing_key =
  sk_label :: string
  sk_public :: bytes

definition verifying_key_of :: "'x zs_ext_scheme \<Rightarrow> sealing_key \<Rightarrow> accepted_verifying_key" where
  "verifying_key_of X k = \<lparr>avk_key_id = key_id_from_public_key X (sk_public k), avk_raw = sk_public k\<rparr>"

definition sealer_holds :: "'x zs_ext_scheme \<Rightarrow> sealing_key \<Rightarrow> 't sealer \<Rightarrow> bool" where
  "sealer_holds X k sl \<longleftrightarrow>
     sl_key sl = \<lparr>key_ref_label = sk_label k\<rparr> \<and> sl_key_id sl = key_id_from_public_key X (sk_public k)"

text \<open>A stored event is authentic when its seal verifies and its columns say what the seal says.\<close>

definition audit_policy_of :: "string \<Rightarrow> audit_acceptance_policy" where
  "audit_policy_of d = \<lparr>aap_accepted_suites = [AUDIT_SUITE_V1], aap_expected_authority_domain = d\<rparr>"

definition event_authentic :: "'x zs_ext_scheme \<Rightarrow> sealing_key \<Rightarrow> string \<Rightarrow> events_row \<Rightarrow> bool" where
  "event_authentic X k d r \<longleftrightarrow>
     (\<exists>v. audit_seal_verify X [verifying_key_of X k] (er_sealed_bytes r) (audit_policy_of d) = Ok v \<and>
        ve_event_id v = er_event_id r \<and> ve_sequence v = er_sequence r \<and>
        hex_decode (er_prev_hash r) = Some (ve_prev_hash v) \<and>
        event_type_as_contract_str (ve_event_type v) = er_event_type r)"

definition idp_inv ::
  "'x zs_ext_scheme \<Rightarrow> sealing_key \<Rightarrow> sealing_key \<Rightarrow> string \<Rightarrow> 't idp_world \<Rightarrow> bool" where
  "idp_inv X ak ik d w \<longleftrightarrow>
     tables_wf w \<and> chain_inv X d w \<and>
     (\<forall>r \<in> set (domain_rows d w). event_authentic X ak d r) \<and>
     sealer_holds X ak (w_audit_sealer w) \<and> sealer_holds X ik (w_assertion_sealer w)"

text \<open>
  The environment: time, randomness, links and the token change freely; an administrator revokes an
  authenticator; other services add events to the chains of their own domains.
\<close>

inductive outside_step :: "string \<Rightarrow> 't idp_world \<Rightarrow> 't idp_world \<Rightarrow> bool" for d where
  system: "outside_step d w (w\<lparr>db_now := n, db_identity_link := li, db_audit_link := la, w_clock := c,
      w_random := r, w_uuid := u, w_wakes := k\<rparr>)"
| token: "sl_key a = sl_key (w_audit_sealer w) \<Longrightarrow> sl_key_id a = sl_key_id (w_audit_sealer w) \<Longrightarrow>
    sl_key i = sl_key (w_assertion_sealer w) \<Longrightarrow> sl_key_id i = sl_key_id (w_assertion_sealer w) \<Longrightarrow>
    outside_step d w (w\<lparr>w_audit_sealer := a, w_assertion_sealer := i\<rparr>)"
| revoke: "outside_step d w (w\<lparr>db_authenticators := map (\<lambda>r. if at_credential_id r = c
      then r\<lparr>at_revoked_at := Some t\<rparr> else r) (db_authenticators w)\<rparr>)"
| foreign: "er_authority_domain r \<noteq> d \<Longrightarrow> er_event_id r \<notin> set (map er_event_id (db_events w)) \<Longrightarrow>
    outside_step d w (w\<lparr>db_events := db_events w @ [r]\<rparr>)"

lemma tables_wf_cong:
  "db_challenges w' = db_challenges w \<Longrightarrow> db_authenticators w' = db_authenticators w \<Longrightarrow>
     db_events w' = db_events w \<Longrightarrow> tables_wf w' = tables_wf w"
  by (simp add: tables_wf_def)

lemma domain_rows_cong: "db_events w' = db_events w \<Longrightarrow> domain_rows d w' = domain_rows d w"
  by (simp add: domain_rows_def)

lemma chain_inv_rows: "domain_rows d w' = domain_rows d w \<Longrightarrow> chain_inv X d w' = chain_inv X d w"
  by (simp add: chain_inv_def stored_chain_def)

text \<open>A step that leaves the events of the domain and the keys of the sealers alone.\<close>

lemma idp_inv_quiet:
  assumes "idp_inv X ak ik d w" "tables_wf w'" "domain_rows d w' = domain_rows d w"
    and "sl_key (w_audit_sealer w') = sl_key (w_audit_sealer w)"
    and "sl_key_id (w_audit_sealer w') = sl_key_id (w_audit_sealer w)"
    and "sl_key (w_assertion_sealer w') = sl_key (w_assertion_sealer w)"
    and "sl_key_id (w_assertion_sealer w') = sl_key_id (w_assertion_sealer w)"
  shows "idp_inv X ak ik d w'"
  using assms chain_inv_rows [OF assms(3), of X] by (simp add: idp_inv_def sealer_holds_def)

lemma outside_step_ok:
  assumes "outside_step d w w'" "idp_inv X ak ik d w"
  shows "idp_inv X ak ik d w' \<and> db_evolves w w'"
proof -
  have keys: "tables_wf w" using assms(2) by (simp add: idp_inv_def)
  from assms(1) show ?thesis
  proof cases
    case (system n li la c r u k)
    have "tables_wf w'" using keys system by (simp add: tables_wf_def)
    with idp_inv_quiet [OF assms(2) this] show ?thesis
      by (auto simp: system domain_rows_def db_evolves_def spent_def intro: succeeds_row_refl)
  next
    case (token a i)
    have "tables_wf w'" using keys token by (simp add: tables_wf_def)
    with idp_inv_quiet [OF assms(2) this] token show ?thesis
      by (auto simp: domain_rows_def db_evolves_def spent_def intro: succeeds_row_refl)
  next
    case (revoke c t)
    have "keeps_tables w w'" unfolding revoke by (rule update_authenticators_keeps) (simp add: succeeds_row_def)
    with keys have "tables_wf w'" "db_evolves w w'" by (simp_all add: keeps_tables_def)
    with idp_inv_quiet [OF assms(2), of w'] show ?thesis by (simp add: revoke domain_rows_def)
  next
    case (foreign r)
    have "tables_wf w'" using keys foreign by (simp add: tables_wf_def)
    with idp_inv_quiet [OF assms(2) this] foreign show ?thesis
      by (auto simp: domain_rows_def db_evolves_def spent_def intro: succeeds_row_refl)
  qed
qed

interpretation idp: rely_guarantee "idp_inv X ak ik d" "db_evolves :: 't idp_world \<Rightarrow> 't idp_world \<Rightarrow> bool"
  for X :: "'x zs_ext_scheme" and ak ik :: sealing_key and d :: string
  by unfold_locales (rule db_evolves_refl, rule db_evolves_trans)

abbreviation idp_safe where
  "idp_safe X ak ik d G \<equiv> safe_handler (idp_inv X ak ik d) db_evolves (on_ok G)"

subsection \<open>Steps that leave the chain alone\<close>

definition quiet :: "'t idp_world \<Rightarrow> 't idp_world \<Rightarrow> bool" where
  "quiet w w' \<longleftrightarrow> keeps_tables w w' \<and> db_events w' = db_events w \<and>
     sl_key (w_audit_sealer w') = sl_key (w_audit_sealer w) \<and>
     sl_key_id (w_audit_sealer w') = sl_key_id (w_audit_sealer w) \<and>
     sl_key (w_assertion_sealer w') = sl_key (w_assertion_sealer w) \<and>
     sl_key_id (w_assertion_sealer w') = sl_key_id (w_assertion_sealer w)"

lemma quiet_refl [simp]: "quiet w w"
  by (simp add: quiet_def)

lemma quiet_ok:
  assumes "quiet w w'" "idp_inv X ak ik d w"
  shows "idp_inv X ak ik d w' \<and> db_evolves w w'"
proof -
  have "tables_wf w" using assms(2) by (simp add: idp_inv_def)
  with assms(1) have "tables_wf w'" "db_evolves w w'" by (simp_all add: quiet_def keeps_tables_def)
  with idp_inv_quiet [OF assms(2), of w'] assms(1) domain_rows_cong [of w' w d] show ?thesis
    by (simp add: quiet_def)
qed

lemma quiet_issue_challenge: "quiet w (snd (issue_challenge c s k t w))"
  unfolding quiet_def using issue_challenge_keeps [of w c s k t]
  by (simp add: issue_challenge_def on_link_def split: link.splits)

lemma quiet_consume_challenge: "quiet w (snd (consume_challenge c k w))"
  unfolding quiet_def using consume_challenge_keeps [of w c k]
  by (simp add: consume_challenge_def on_link_def Let_def split: link.splits)

lemma quiet_insert_authenticator: "quiet w (snd (insert_authenticator s c a p n g f b w))"
  unfolding quiet_def using insert_authenticator_keeps [of w s c a p n g f b]
  by (simp add: insert_authenticator_def on_link_def split: link.splits)

lemma quiet_advance_sign_count: "quiet w (snd (advance_sign_count c n w))"
  unfolding quiet_def using advance_sign_count_keeps [of w c n]
  by (simp add: advance_sign_count_def on_link_def split: link.splits)

lemma act_bind_preserves:
  assumes "\<And>s. K s \<Longrightarrow> K (snd (m s))" "\<And>x s. K s \<Longrightarrow> K (snd (f x s))" "K s"
  shows "K (snd (act_bind m f s))"
  using assms(1) [OF assms(3)] assms(2) by (auto simp: act_bind_def split: prod.splits outcome.splits)

lemma with_pool_key [simp]:
  "sl_key (snd (with_pool m sl)) = sl_key sl" "sl_key_id (snd (with_pool m sl)) = sl_key_id sl"
  by (simp_all add: with_pool_def split: prod.splits)

lemma fst_act_map_err [simp]: "fst (act_map_err g m v) = map_err g (fst (m v))"
  and snd_act_map_err [simp]: "snd (act_map_err g m v) = snd (m v)"
  by (simp_all add: act_map_err_def split: prod.splits)

lemma seal_keys_kept:
  "sl_key (snd (audit_seal X P wakes e sl)) = sl_key sl \<and> sl_key_id (snd (audit_seal X P wakes e sl)) = sl_key_id sl"
  "sl_key (snd (assertion_seal X P wakes c sl)) = sl_key sl \<and>
     sl_key_id (snd (assertion_seal X P wakes c sl)) = sl_key_id sl"
  unfolding audit_seal_def assertion_seal_def Let_def
  by (intro act_bind_preserves [where K = "\<lambda>s. sl_key s = sl_key sl \<and> sl_key_id s = sl_key_id sl"];
      simp add: act_lift_def)+

subsection \<open>Rules for the steps of a handler\<close>

lemma idp_quiet_step:
  assumes "\<And>v. quiet v (snd (m v))"
    and "\<And>v x. db_evolves w v \<Longrightarrow> idp_inv X ak ik d v \<Longrightarrow> fst (m v) = Ok x \<Longrightarrow> G x (snd (m v))"
  shows "idp_safe X ak ik d G (atomic m) w"
  by (rule idp.ok_atomic) (use assms quiet_ok in blast)

lemma idp_query:
  assumes "\<And>v. quiet v (snd (m v))"
    and "\<And>v x. db_evolves w v \<Longrightarrow> idp_inv X ak ik d v \<Longrightarrow> m v = (Ok x, snd (m v)) \<Longrightarrow> G x (snd (m v))"
  shows "idp_safe X ak ik d G (query m) w"
  unfolding query_def
proof (rule idp_quiet_step)
  fix v x assume "db_evolves w v" "idp_inv X ak ik d v" "fst (act_map_err store_unavailable m v) = Ok x"
  with assms(2) [of v x] show "G x (snd (act_map_err store_unavailable m v))"
    by (cases "m v") (simp add: outcome_simps)
qed (simp add: assms(1))

lemma idp_clock: "(\<And>v x. f v = Ok x \<Longrightarrow> G x) \<Longrightarrow> idp_safe X ak ik d (\<lambda>x _. G x) (read_clock f) w"
  unfolding read_clock_def by (rule idp_quiet_step) auto

lemma idp_uuid: "idp_safe X ak ik d (\<lambda>_ _. True) uuid_now_v7 w"
  unfolding uuid_now_v7_def by (rule idp_quiet_step) auto

lemma idp_draw: "idp_safe X ak ik d (\<lambda>_ _. True) draw_challenge w"
  unfolding draw_challenge_def by (rule idp_quiet_step) auto

lemma join_task_Ok [outcome_simps]: "join_task r = Ok x \<longleftrightarrow> r = Ok x"
  by (cases r) auto

text \<open>What a sealing task returns was sealed with the key the service publishes.\<close>

lemma seal_keys_after:
  "audit_seal X P wakes e sl = (r, sl') \<Longrightarrow> sl_key sl' = sl_key sl \<and> sl_key_id sl' = sl_key_id sl"
  "assertion_seal X P wakes c sl = (r', sl') \<Longrightarrow> sl_key sl' = sl_key sl \<and> sl_key_id sl' = sl_key_id sl"
  using seal_keys_kept(1) [of X P wakes e sl] seal_keys_kept(2) [of X P wakes c sl] by simp_all

lemma quiet_sealers:
  "sl_key a = sl_key (w_audit_sealer w) \<Longrightarrow> sl_key_id a = sl_key_id (w_audit_sealer w) \<Longrightarrow>
     quiet w (w\<lparr>w_audit_sealer := a\<rparr>)"
  "sl_key i = sl_key (w_assertion_sealer w) \<Longrightarrow> sl_key_id i = sl_key_id (w_assertion_sealer w) \<Longrightarrow>
     quiet w (w\<lparr>w_assertion_sealer := i\<rparr>)"
  by (auto simp: quiet_def keeps_tables_def tables_wf_def db_evolves_def spent_def intro: succeeds_row_refl)

lemma idp_audit_seal:
  "idp_safe X ak ik d
     (\<lambda>bs _. \<exists>wakes sl sl'. audit_seal X P wakes e sl = (Ok bs, sl') \<and> sealer_holds X ak sl) (spawn_audit_seal X P e) w"
  unfolding spawn_audit_seal_def
  by (rule idp_quiet_step)
    (auto simp: outcome_simps idp_inv_def split: prod.splits intro!: quiet_sealers dest: seal_keys_after)

lemma idp_assertion_seal:
  "idp_safe X ak ik d
     (\<lambda>bs _. \<exists>wakes sl sl'. assertion_seal X P wakes c sl = (Ok bs, sl') \<and> sealer_holds X ik sl)
     (spawn_assertion_seal X P c) w"
  unfolding spawn_assertion_seal_def
  by (rule idp_quiet_step)
    (auto simp: outcome_simps idp_inv_def split: prod.splits intro!: quiet_sealers dest: seal_keys_after)

subsection \<open>The audit event\<close>

lemma event_type_str_contract: "event_type_str t = event_type_as_contract_str t"
  by (cases t) simp_all

lemma push_hex_eq: "push_hex s bs = s @ hex_encode bs"
  by (induction bs arbitrary: s) (simp_all add: hex_encode_def)

lemma idp_hex_encode_eq [simp]: "idp_hex_encode bs = hex_encode bs"
  by (simp add: idp_hex_encode_def push_hex_eq)

lemma sealed_event_authentic:
  assumes "signing_key X P (sk_label ak) (sk_public ak)" "audit_seal X P wakes e sl = (Ok bs, sl')"
    and "sealer_holds X ak sl" "audit_event_typed e" "ev_authority_domain e = d"
  shows "audit_seal_verify X [verifying_key_of X ak] bs (audit_policy_of d) =
    Ok \<lparr>ve_event_id = ev_event_id e, ve_sequence = ev_sequence e, ve_prev_hash = ev_prev_hash e,
        ve_occurred_at = ev_occurred_at e, ve_authority_domain = ev_authority_domain e,
        ve_event_type = ev_event_type e\<rparr>"
  by (rule signing_key.audit_seal_verifies [OF assms(1,2)])
    (use assms(3-5) in \<open>simp_all add: sealer_holds_def verifying_key_of_def audit_policy_of_def\<close>)

text \<open>The columns of a row that \<open>append\<close> adds, and the row.\<close>

lemma audit_append_moved:
  assumes "db_events (snd (audit_append e s t d y a u p g b v)) \<noteq> db_events v"
  shows "db_events (snd (audit_append e s t d y a u p g b v)) = db_events v @
    [\<lparr>er_event_id = e, er_sequence = s, er_occurred_at = t, er_authority_domain = d, er_event_type = y, er_actor = a,
      er_outcome = u, er_prev_hash = p, er_signature = g, er_sealed_bytes = b\<rparr>]"
  using assms by (auto simp: audit_append_def on_link_def split: link.splits if_splits)

lemma audit_append_sealers [simp]:
  "w_audit_sealer (snd (audit_append e s t d y a u p g b v)) = w_audit_sealer v"
  "w_assertion_sealer (snd (audit_append e s t d y a u p g b v)) = w_assertion_sealer v"
  by (simp_all add: audit_append_def on_link_def split: link.splits)

lemma audit_append_ok:
  fixes v :: "'t idp_world"
  assumes inv: "idp_inv X ak ik d v" and known: "head_known X (stored_chain d v) h"
    and seq: "hd_next_sequence h \<le> MAX_SAFE_INTEGER"
    and auth: "audit_seal_verify X [verifying_key_of X ak] b (audit_policy_of d) = Ok f"
      "ve_event_id f = e" "ve_sequence f = hd_next_sequence h" "ve_prev_hash f = hd_prev_hash h"
      "event_type_as_contract_str (ve_event_type f) = y"
    and v': "v' = snd (audit_append e (hd_next_sequence h) t d y a u (hex_encode (hd_prev_hash h)) g b v)"
  shows "idp_inv X ak ik d v' \<and> db_evolves v v'"
proof -
  have keys: "tables_wf v'" "db_evolves v v'"
    using inv audit_append_keeps [of v] unfolding v' by (auto simp: keeps_tables_def idp_inv_def)
  show ?thesis
  proof (cases "db_events v' = db_events v")
    case True
    with keys have "quiet v v'" by (simp add: quiet_def keeps_tables_def v')
    then show ?thesis using inv by (rule quiet_ok)
  next
    case False
    let ?r = "\<lparr>er_event_id = e, er_sequence = hd_next_sequence h, er_occurred_at = t, er_authority_domain = d,
      er_event_type = y, er_actor = a, er_outcome = u, er_prev_hash = hex_encode (hd_prev_hash h),
      er_signature = g, er_sealed_bytes = b\<rparr>"
    have rows: "domain_rows d v' = domain_rows d v @ [?r]"
      using audit_append_moved False unfolding v' domain_rows_def by fastforce
    have "chain_inv X d v" using inv by (simp add: idp_inv_def)
    then have "chain_inv X d v'" using known seq v' False by (rule audit_append_extends(3))
    moreover have "event_authentic X ak d ?r" using auth by (simp add: event_authentic_def)
    ultimately show ?thesis using inv keys rows by (auto simp: idp_inv_def v')
  qed
qed

lemma idp_append:
  fixes w :: "'t idp_world"
  assumes "head_known X (stored_chain d w) h" "hd_next_sequence h \<le> MAX_SAFE_INTEGER"
    and "audit_seal_verify X [verifying_key_of X ak] b (audit_policy_of d) = Ok f"
      "ve_event_id f = e" "ve_sequence f = hd_next_sequence h" "ve_prev_hash f = hd_prev_hash h"
      "event_type_as_contract_str (ve_event_type f) = y"
  shows "idp_safe X ak ik d
    (\<lambda>_ w'. \<exists>r \<in> set (domain_rows d w'). er_event_id r = e \<and> er_sequence r = hd_next_sequence h \<and> er_sealed_bytes r = b)
    (query (audit_append e (hd_next_sequence h) t d y a u (hex_encode (hd_prev_hash h)) g b)) w"
  unfolding query_def
proof (rule idp.ok_atomic)
  fix v :: "'t idp_world"
  let ?m = "audit_append e (hd_next_sequence h) t d y a u (hex_encode (hd_prev_hash h)) g b"
  assume v: "db_evolves w v" "idp_inv X ak ik d v"
  have "idp_inv X ak ik d (snd (?m v)) \<and> db_evolves v (snd (?m v))"
    by (rule audit_append_ok [OF v(2) head_known_evolves [OF v(1) assms(1)] assms(2-7) refl])
  moreover have "\<exists>r \<in> set (domain_rows d (snd (?m v))). er_event_id r = e \<and>
      er_sequence r = hd_next_sequence h \<and> er_sealed_bytes r = b" if "fst (?m v) = Ok x" for x
  proof -
    have "db_events (snd (?m v)) \<noteq> db_events v"
      using that by (auto simp: audit_append_def on_link_fst on_link_def split: if_splits link.splits)
    from audit_append_moved [OF this] show ?thesis by (auto simp: domain_rows_def)
  qed
  ultimately show "idp_inv X ak ik d (snd (act_map_err store_unavailable ?m v)) \<and>
      db_evolves v (snd (act_map_err store_unavailable ?m v)) \<and>
      (\<forall>x. fst (act_map_err store_unavailable ?m v) = Ok x \<longrightarrow>
        (\<exists>r \<in> set (domain_rows d (snd (act_map_err store_unavailable ?m v))). er_event_id r = e \<and>
          er_sequence r = hd_next_sequence h \<and> er_sealed_bytes r = b))"
    by (simp add: outcome_simps)
qed

text \<open>What a successful call leaves in the table: a row sealed by the service for this event.\<close>

definition event_stored ::
  "'x zs_ext_scheme \<Rightarrow> 't pkcs11 \<Rightarrow> sealing_key \<Rightarrow> string \<Rightarrow> audit_event_type \<Rightarrow> string \<Rightarrow>
     (string \<times> string \<times> string) option \<Rightarrow> audit_outcome \<Rightarrow> 'z database_scheme \<Rightarrow> bool" where
  "event_stored X P ak d ty subject explicit res w \<longleftrightarrow>
     (\<exists>r e wakes sl sl'. r \<in> set (domain_rows d w) \<and>
        audit_seal X P wakes e sl = (Ok (er_sealed_bytes r), sl') \<and> sealer_holds X ak sl \<and>
        er_event_id r = ev_event_id e \<and> er_sequence r = ev_sequence e \<and> ev_authority_domain e = d \<and>
        ev_event_type e = ty \<and> actor_subject_id (ev_actor e) = subject \<and> ev_outcome e = res \<and>
        (\<forall>i t x. explicit = Some (i, t, x) \<longrightarrow>
           ev_event_id e = i \<and> ev_target e = Some \<lparr>target_type = t, target_id = x\<rparr>))"

lemma event_storedI:
  assumes "audit_seal X P wakes e sl = (Ok bs, sl')" "sealer_holds X ak sl"
    and "\<exists>r \<in> set (domain_rows d w). er_event_id r = ev_event_id e \<and> er_sequence r = ev_sequence e \<and> er_sealed_bytes r = bs"
    and "ev_authority_domain e = d" "ev_event_type e = ty" "actor_subject_id (ev_actor e) = subject" "ev_outcome e = res"
    and "\<forall>i t x. explicit = Some (i, t, x) \<longrightarrow> ev_event_id e = i \<and> ev_target e = Some \<lparr>target_type = t, target_id = x\<rparr>"
  shows "event_stored X P ak d ty subject explicit res w"
  using assms unfolding event_stored_def by blast

lemma domain_rows_evolves: "db_evolves w w' \<Longrightarrow> r \<in> set (domain_rows d w) \<Longrightarrow> r \<in> set (domain_rows d w')"
  by (auto simp: db_evolves_def domain_rows_def)

lemma event_stored_evolves:
  "db_evolves w w' \<Longrightarrow> event_stored X P ak d ty s ex res w \<Longrightarrow> event_stored X P ak d ty s ex res w'"
  unfolding event_stored_def using domain_rows_evolves by blast

lemma Sequence_new_Ok: "Sequence_new n = Ok m \<longleftrightarrow> m = n \<and> n \<le> MAX_SAFE_INTEGER"
  by (auto simp: Sequence_new_def not_less)

lemma expect_Ok [outcome_simps]: "expect r = Ok x \<longleftrightarrow> r = Ok x"
  by (cases r) auto

lemma audit_target_of_Ok:
  "traverse_option audit_target_of explicit = Ok t \<Longrightarrow> explicit = Some (i, ty, x) \<Longrightarrow>
     t = Some \<lparr>target_type = ty, target_id = x\<rparr>"
  by (auto simp: audit_target_of_def outcome_simps dest!: short_text.new_same)

lemma head_known_length:
  assumes "zs_libraries X" "head_known X es h"
  shows "length (hd_prev_hash h) = 32"
  using assms zs_libraries.sha256_length [OF assms(1)]
  by (auto simp: head_known_def chain_tip_def CHAIN_ROOT_def hash_sealed_event_def proof_sha256_def)

lemma idp_chain_head:
  "idp_safe X ak ik d (\<lambda>h w'. head_known X (stored_chain d w') h) (query (audit_chain_head X d)) w"
proof (rule idp_query)
  fix v x assume "idp_inv X ak ik d v" "audit_chain_head X d v = (Ok x, snd (audit_chain_head X d v))"
  then have "x = chain_tip X (stored_chain d v)" by (auto simp: idp_inv_def intro: audit_chain_head_tip)
  then show "head_known X (stored_chain d (snd (audit_chain_head X d v))) x" by (simp add: head_known_tip)
qed simp

lemma idp_event_id:
  "idp_safe X ak ik d (\<lambda>i _. \<forall>j t x. explicit = Some (j, t, x) \<longrightarrow> i = j)
     (case explicit of Some (ident, _, _) \<Rightarrow> pure_step (Ok ident) | None \<Rightarrow> uuid_now_v7) w"
proof (cases explicit)
  case None
  then show ?thesis using idp_uuid by simp
next
  case (Some p)
  then show ?thesis by (cases p) (auto intro: idp.ok_pure)
qed

lemma field_step_await:
  "(\<And>x. r = Ok x \<Longrightarrow> idp_safe X ak ik d H (k x) w) \<Longrightarrow> idp_safe X ak ik d H (await (field_step r) k) w"
  unfolding field_step_def by (rule idp.ok_await_pure) (simp add: outcome_simps)

lemma idp_seal_and_append:
  assumes key: "signing_key X P (sk_label ak) (sk_public ak)" and d: "d = app_authority_domain cfg"
  shows "idp_safe X ak ik d (\<lambda>_. event_stored X P ak d ty subject explicit res)
    (seal_and_append_audit_event X P cfg ty subject explicit justification res) w"
  unfolding seal_and_append_audit_event_def d [symmetric]
proof (rule idp.ok_await [OF idp_chain_head], rule idp.ok_await [OF idp_event_id [where explicit = explicit]],
    rule idp.ok_await_pure, rule field_step_await, rule field_step_await,
    rule idp.ok_await [OF idp_clock [where G = "\<lambda>_. True"]], blast, rule field_step_await, rule field_step_await,
    rule field_step_await, rule idp.ok_await [OF idp_audit_seal],
    rule idp.ok_await [OF idp_clock [where G = "\<lambda>_. True"]], blast)
  fix h i target i' seq now occurred d' subject' bs now' and w1 w2 w3 w4 w5 :: "'c idp_world"
  assume known: "head_known X (stored_chain d w1) h" and ev: "db_evolves w1 w2" "db_evolves w2 w3"
    "db_evolves w3 w4" "db_evolves w4 w5"
    and i: "\<forall>j t x. explicit = Some (j, t, x) \<longrightarrow> i = j" "EventId_new i = Ok i'"
    and target: "traverse_option audit_target_of explicit = Ok target"
    and seq: "Sequence_new (hd_next_sequence h) = Ok seq" and d': "AuthorityDomain_new d = Ok d'"
    and subject: "SubjectId_new subject = Ok subject'"
  let ?e = "\<lparr>ev_event_id = i', ev_sequence = seq, ev_prev_hash = hd_prev_hash h, ev_occurred_at = occurred,
      ev_authority_domain = d', ev_event_type = ty,
      ev_actor = \<lparr>actor_subject_id = subject', actor_kind_of = Human, actor_aal = None, actor_auth_method = None\<rparr>,
      ev_target = target, ev_outcome = res, ev_context = map_option justification_context justification,
      ev_decision = None\<rparr>"
  assume "\<exists>wakes sl sl'. audit_seal X P wakes ?e sl = (Ok bs, sl') \<and> sealer_holds X ak sl"
  then obtain wakes sl sl' where seal: "audit_seal X P wakes ?e sl = (Ok bs, sl')" and holds: "sealer_holds X ak sl"
    by blast
  have same: "i' = i" "seq = hd_next_sequence h" "d' = d" "subject' = subject" "hd_next_sequence h \<le> MAX_SAFE_INTEGER"
    using i(2) d' subject seq event_id.new_same authority_domain.new_same subject_id.new_same
    by (auto simp: Sequence_new_Ok)
  have head: "head_known X (stored_chain d w5) h"
    using known ev by (blast intro: head_known_evolves db_evolves_trans)
  have "audit_event_typed ?e"
    using head_known_length [OF signing_key.axioms(1) [OF key] known] by (simp add: audit_event_typed_def)
  note verified = sealed_event_authentic [OF key seal holds this]
  let ?q = "query (audit_append i (hd_next_sequence h) now' d (event_type_str ty) (actor_json subject) (outcome_str res)
      (idp_hex_encode (hd_prev_hash h)) (event_signature_json bs) bs)"
  have "idp_safe X ak ik d
      (\<lambda>_ w'. \<exists>r \<in> set (domain_rows d w'). er_event_id r = i \<and> er_sequence r = hd_next_sequence h \<and> er_sealed_bytes r = bs)
      ?q w5"
    unfolding idp_hex_encode_eq
    by (rule idp_append [OF head same(5) verified]) (simp_all add: same event_type_str_contract)
  then show "idp_safe X ak ik d (\<lambda>_. event_stored X P ak d ty subject explicit res)
      (await ?q (\<lambda>_. pure_step (Ok ()))) w5"
  proof (rule idp.ok_await, intro idp.ok_pure)
    fix w6 :: "'c idp_world"
    assume "\<exists>r \<in> set (domain_rows d w6). er_event_id r = i \<and> er_sequence r = hd_next_sequence h \<and> er_sealed_bytes r = bs"
    then show "event_stored X P ak d ty subject explicit res w6"
      using i(1) same audit_target_of_Ok [OF target] by (intro event_storedI [OF seal holds]) simp_all
  qed
qed

subsection \<open>The handlers\<close>

lemma idp_consume:
  fixes w :: "'t idp_world"
  shows "idp_safe X ak ik d (\<lambda>r w'. \<forall>x. r = Some x \<longrightarrow> (\<exists>q \<in> set (db_challenges w'). ch_challenge q = c \<and>
       ch_used_at q \<noteq> None \<and> ch_ceremony_kind q = k \<and> ch_subject_id q = cc_subject_id x))
     (query (consume_challenge c k)) w"
proof (rule idp_query [OF quiet_consume_challenge], intro allI impI)
  fix v :: "'t idp_world" and r x
  assume "consume_challenge c k v = (Ok r, snd (consume_challenge c k v))" "r = Some x"
  then have "consume_challenge c k v = (Ok (Some x), snd (consume_challenge c k v))" by simp
  then obtain q where q: "consumable_row (db_now v) c k q" "cc_subject_id x = ch_subject_id q"
    "q\<lparr>ch_used_at := Some (db_now v)\<rparr> \<in> set (db_challenges (snd (consume_challenge c k v)))"
    by (rule consume_challenge_row)
  then show "\<exists>q \<in> set (db_challenges (snd (consume_challenge c k v))). ch_challenge q = c \<and> ch_used_at q \<noteq> None \<and>
      ch_ceremony_kind q = k \<and> ch_subject_id q = cc_subject_id x"
    by (intro bexI [OF _ q(3)]) (simp add: consumable_row_def)
qed

text \<open>The row of the table that a resolved authenticator comes from.\<close>

definition row_matches :: "authenticators_row \<Rightarrow> authenticator_row \<Rightarrow> bool" where
  "row_matches a row \<longleftrightarrow>
     at_credential_id a = aw_credential_id row \<and> at_subject_id a = aw_subject_id row \<and>
     at_public_key a = aw_public_key row \<and> algorithm_from_column (at_algorithm a) = Some (aw_algorithm row) \<and>
     at_counter_supported a = aw_counter_supported row"

lemma row_matches_succeeds: "row_matches a row \<Longrightarrow> succeeds_row a b \<Longrightarrow> row_matches b row"
  by (simp add: row_matches_def succeeds_row_def)

lemma idp_find:
  fixes w :: "'t idp_world"
  shows "idp_safe X ak ik d (\<lambda>r w'. \<forall>row. r = Some row \<longrightarrow> aw_credential_id row = c \<and>
       (\<exists>a \<in> set (db_authenticators w'). row_matches a row))
     (query (find_authenticator c)) w"
proof (rule idp_query, simp, intro allI impI)
  fix v :: "'t idp_world" and r row
  assume "find_authenticator c v = (Ok r, snd (find_authenticator c v))" "r = Some row"
  then obtain a alg where a: "find (\<lambda>r. at_credential_id r = c) (db_authenticators v) = Some a"
    "algorithm_from_column (at_algorithm a) = Some alg"
    "row = \<lparr>aw_subject_id = at_subject_id a, aw_credential_id = at_credential_id a, aw_algorithm = alg,
       aw_public_key = at_public_key a, aw_counter_supported = at_counter_supported a,
       aw_sign_count = word_of_int (max (sint (at_sign_count a)) 0), aw_revoked = (at_revoked_at a \<noteq> None)\<rparr>"
    by (auto simp: find_authenticator_def on_link_Ok split: option.splits)
  then have "a \<in> set (db_authenticators v)" "at_credential_id a = c" using find_SomeD [OF a(1)] by blast+
  then show "aw_credential_id row = c \<and> (\<exists>a \<in> set (db_authenticators (snd (find_authenticator c v))). row_matches a row)"
    using a by (auto simp: row_matches_def intro!: bexI [of _ a])
qed

lemma idp_advance:
  fixes w :: "'t idp_world"
  shows "idp_safe X ak ik d (\<lambda>b w'. b \<longrightarrow> n \<noteq> 0 \<and> tables_wf w' \<and> stored_count w' c = Some (uint n))
     (query (advance_sign_count c n)) w"
proof (rule idp_query [OF quiet_advance_sign_count], intro impI conjI)
  fix v :: "'t idp_world" and b
  assume "idp_inv X ak ik d v" and run: "advance_sign_count c n v = (Ok b, snd (advance_sign_count c n v))" "b"
  then have keys: "tables_wf v" by (simp add: idp_inv_def)
  then show "tables_wf (snd (advance_sign_count c n v))"
    using advance_sign_count_keeps [of v c n] by (simp add: keeps_tables_def)
  from run have "advance_sign_count c n v = (Ok True, snd (advance_sign_count c n v))" by simp
  note true = counters.advance_true [OF keys this]
  then show "stored_count (snd (advance_sign_count c n v)) c = Some (uint n)" ..
  from true obtain k where k: "stored_count v c = Some k" "k < uint n" by blast
  from k(1) obtain a where "a \<in> set (db_authenticators v)" "sint (at_sign_count a) = k"
    by (rule stored_count_Some)
  with keys have "0 \<le> k" by (auto simp: tables_wf_def)
  with k(2) show "n \<noteq> 0" by auto
qed

text \<open>An assertion that was issued: sealed by the service, for these claims, and its event is stored.\<close>

definition assertion_issued ::
  "'x idp_ext_scheme \<Rightarrow> 't pkcs11 \<Rightarrow> sealing_key \<Rightarrow> sealing_key \<Rightarrow> app_config \<Rightarrow> authentication_claims \<Rightarrow>
     string \<Rightarrow> 'z database_scheme \<Rightarrow> bool" where
  "assertion_issued X P ak ik cfg claims reply w \<longleftrightarrow>
     (\<exists>bs c wakes sl sl' now. reply = b64_encode X bs \<and> assertion_seal X P wakes c sl = (Ok bs, sl') \<and>
        sealer_holds X ik sl \<and> assertion_claims_valid c \<and>
        ac_authority_domain c = app_authority_domain cfg \<and> ac_subject_id c = cl_subject_id claims \<and>
        ac_aal c = assurance_level_of (cl_aal claims) \<and> ac_auth_method c = cl_method claims \<and>
        ac_audience c = app_audience cfg \<and> ac_issued_at c = rfc3339_from_seconds now \<and>
        ac_expires_at c = rfc3339_from_seconds (i64_add now (app_assertion_ttl_seconds cfg)) \<and>
        event_stored X P ak (app_authority_domain cfg) AuthenticationSucceeded (cl_subject_id claims)
          (Some (ac_audit_event_id c, ''identity_assertion'', hex_encode (sha256 X bs))) OutcomeSuccess w)"

lemma assertion_issued_evolves:
  "db_evolves w w' \<Longrightarrow> assertion_issued X P ak ik cfg claims r w \<Longrightarrow> assertion_issued X P ak ik cfg claims r w'"
  unfolding assertion_issued_def using event_stored_evolves by blast

lemma now_and_after_Ok:
  "rfc3339_now_and_after ttl clock = Ok p \<Longrightarrow>
     \<exists>now. p = (rfc3339_from_seconds now, rfc3339_from_seconds (i64_add now ttl))"
  by (auto simp: rfc3339_now_and_after_def outcome_simps)

lemma idp_issue_assertion:
  assumes key: "signing_key X P (sk_label ak) (sk_public ak)" and d: "d = app_authority_domain cfg"
  shows "idp_safe X ak ik d (assertion_issued X P ak ik cfg claims) (issue_assertion X P cfg claims) w"
  unfolding issue_assertion_def
proof (rule idp.ok_await [OF idp_uuid], rule idp.ok_await [OF idp_clock],
    erule now_and_after_Ok, clarify, (rule field_step_await)+, rule idp.ok_await [OF idp_assertion_seal],
    rule idp.ok_await [OF idp_seal_and_append [OF key d]], rule idp.ok_pure)
  fix i now s m a issued expires i' bs r wakes sl sl' and w' :: "'c idp_world"
  let ?c = "\<lparr>ac_authority_domain = app_authority_domain cfg, ac_subject_id = s,
        ac_aal = assurance_level_of (cl_aal claims), ac_auth_method = m, ac_audience = a,
        ac_issued_at = issued, ac_expires_at = expires, ac_audit_event_id = i'\<rparr>"
  assume f: "SubjectId_new (cl_subject_id claims) = Ok s" "AuthMethod_new (cl_method claims) = Ok m"
    "Audience_new (app_audience cfg) = Ok a" "Timestamp_new (rfc3339_from_seconds now) = Ok issued"
    "Timestamp_new (rfc3339_from_seconds (i64_add now (app_assertion_ttl_seconds cfg))) = Ok expires"
    "EventId_new i = Ok i'"
  assume seal: "\<exists>wakes sl sl'. assertion_seal X P wakes ?c sl = (Ok bs, sl') \<and> sealer_holds X ik sl"
    and stored: "event_stored X P ak d AuthenticationSucceeded (cl_subject_id claims)
      (Some (i, ''identity_assertion'', idp_hex_encode (sealed_assertion_digest X bs))) OutcomeSuccess w'"
    and r: "Ok (b64_encode X bs) = Ok r"
  have "Audience_new s' = Ok t \<Longrightarrow> t = s'" for s' t by (simp add: Audience_new_def outcome_simps)
  with f have "assertion_claims_valid ?c \<and> s = cl_subject_id claims \<and> m = cl_method claims \<and> a = app_audience cfg \<and>
      issued = rfc3339_from_seconds now \<and>
      expires = rfc3339_from_seconds (i64_add now (app_assertion_ttl_seconds cfg)) \<and> i' = i"
    using subject_id.new_same auth_method.new_same timestamp.new_same event_id.new_same
    unfolding assertion_claims_valid_def by (metis (no_types, lifting) assertion_claims.select_convs)
  with seal stored r d show "assertion_issued X P ak ik cfg claims r w'"
    unfolding assertion_issued_def sealed_assertion_digest_def idp_hex_encode_eq
    by (elim exE conjE, intro exI [of _ bs] exI [of _ ?c] exI conjI) (assumption | simp)+
qed

text \<open>
  The evidence behind a successful authentication: the challenge of the client data is in the table and
  used, the credential is in the table with the key the signature was checked against, and its counter has
  reached the value of the ceremony.
\<close>

definition authentication_accepted ::
  "'x idp_ext_scheme \<Rightarrow> app_config \<Rightarrow> authentication_verify_request \<Rightarrow> authentication_claims \<Rightarrow>
     'z database_scheme \<Rightarrow> bool" where
  "authentication_accepted X cfg req claims w \<longleftrightarrow>
     (\<exists>cdj ad sg presented row a q.
        b64_decode X ''credential_id'' (avr_credential_id req) = Ok (aw_credential_id row) \<and>
        b64_decode X ''client_data_json'' (avr_client_data_json req) = Ok cdj \<and>
        b64_decode X ''authenticator_data'' (avr_authenticator_data req) = Ok ad \<and>
        b64_decode X ''signature'' (avr_signature req) = Ok sg \<and>
        presented_challenge_bytes X cdj = Ok presented \<and>
        verify_authentication_ceremony X
          \<lparr>ai_client_data_json = cdj, ai_authenticator_data = ad, ai_signature = sg,
           ai_expected_origin = app_origin cfg, ai_expected_rp_id = app_rp_id cfg,
           ai_expected_challenge = presented, ai_credential = credential_of_row row\<rparr> = Ok claims \<and>
        q \<in> set (db_challenges w) \<and> ch_challenge q = presented \<and> ch_used_at q \<noteq> None \<and>
        ch_ceremony_kind q = ''authentication'' \<and>
        a \<in> set (db_authenticators w) \<and> row_matches a row \<and> cl_new_sign_count claims \<noteq> 0 \<and>
        uint (cl_new_sign_count claims) \<le> sint (at_sign_count a))"

lemma authentication_accepted_evolves:
  assumes "db_evolves w w'" "authentication_accepted X cfg req claims w"
  shows "authentication_accepted X cfg req claims w'"
proof -
  from assms(2) obtain cdj ad sg presented row a q where
    e: "b64_decode X ''credential_id'' (avr_credential_id req) = Ok (aw_credential_id row)"
    "b64_decode X ''client_data_json'' (avr_client_data_json req) = Ok cdj"
    "b64_decode X ''authenticator_data'' (avr_authenticator_data req) = Ok ad"
    "b64_decode X ''signature'' (avr_signature req) = Ok sg" "presented_challenge_bytes X cdj = Ok presented"
    "verify_authentication_ceremony X
          \<lparr>ai_client_data_json = cdj, ai_authenticator_data = ad, ai_signature = sg,
           ai_expected_origin = app_origin cfg, ai_expected_rp_id = app_rp_id cfg,
           ai_expected_challenge = presented, ai_credential = credential_of_row row\<rparr> = Ok claims"
    and q: "q \<in> set (db_challenges w)" "ch_challenge q = presented" "ch_used_at q \<noteq> None"
      "ch_ceremony_kind q = ''authentication''"
    and a: "a \<in> set (db_authenticators w)" "row_matches a row" "uint (cl_new_sign_count claims) \<le> sint (at_sign_count a)"
      "cl_new_sign_count claims \<noteq> 0"
    unfolding authentication_accepted_def by blast
  from assms(1) a(1) obtain b where "b \<in> set (db_authenticators w')" "succeeds_row a b"
    unfolding db_evolves_def by blast
  with a have "b \<in> set (db_authenticators w')" "row_matches b row"
    "uint (cl_new_sign_count claims) \<le> sint (at_sign_count b)"
    by (auto intro: row_matches_succeeds simp: succeeds_row_def)
  moreover have "q \<in> set (db_challenges w')" using assms(1) q by (auto simp: db_evolves_def)
  ultimately show ?thesis unfolding authentication_accepted_def using e q(2-4) a(4) by blast
qed

lemma authentication_evidence:
  assumes "b64_decode X ''credential_id'' (avr_credential_id req) = Ok credential_id"
    "b64_decode X ''client_data_json'' (avr_client_data_json req) = Ok cdj"
    "b64_decode X ''authenticator_data'' (avr_authenticator_data req) = Ok ad"
    "b64_decode X ''signature'' (avr_signature req) = Ok sg" "presented_challenge_bytes X cdj = Ok presented"
    and cer: "verify_authentication_ceremony X
         \<lparr>ai_client_data_json = cdj, ai_authenticator_data = ad, ai_signature = sg,
          ai_expected_origin = app_origin cfg, ai_expected_rp_id = app_rp_id cfg,
          ai_expected_challenge = presented, ai_credential = credential_of_row row\<rparr> = Ok claims"
    and q: "\<exists>q \<in> set (db_challenges w1). ch_challenge q = presented \<and> ch_used_at q \<noteq> None \<and>
      ch_ceremony_kind q = ''authentication'' \<and> ch_subject_id q = s"
    and row: "aw_credential_id row = credential_id" "\<exists>a \<in> set (db_authenticators w2). row_matches a row"
    and ev: "db_evolves w1 w2" "db_evolves w2 w3"
    and adv: "tables_wf w3" "cl_new_sign_count claims \<noteq> 0"
      "stored_count w3 (rc_credential_id (credential_of_row row)) = Some (uint (cl_new_sign_count claims))"
  shows "authentication_accepted X cfg req claims w3"
proof -
  from q ev obtain q' where q3: "q' \<in> set (db_challenges w3)" "ch_challenge q' = presented" "ch_used_at q' \<noteq> None"
    "ch_ceremony_kind q' = ''authentication''" unfolding db_evolves_def by blast
  from row(2) obtain a where a: "a \<in> set (db_authenticators w2)" "row_matches a row" by blast
  from ev(2) a(1) obtain b where b: "b \<in> set (db_authenticators w3)" "succeeds_row a b"
    unfolding db_evolves_def by blast
  with a(2) have match: "row_matches b row" by (blast intro: row_matches_succeeds)
  then have "at_credential_id b = rc_credential_id (credential_of_row row)"
    by (simp add: credential_of_row_def row_matches_def)
  with stored_count_row [OF adv(1) b(1)] adv(3)
  have "uint (cl_new_sign_count claims) \<le> sint (at_sign_count b)" by simp
  with assms(1-5) cer q3 b(1) match row(1) adv(2) show ?thesis unfolding authentication_accepted_def by blast
qed

lemma identity_assertion_challenge_Ok: "identity_assertion_challenge bs = Ok c \<Longrightarrow> c = bs"
  by (simp add: identity_assertion_challenge_def outcome_simps accept_challenge_def split: if_splits)

text \<open>A refusal that is logged grants nothing.\<close>

lemma idp_denied:
  fixes w :: "'t idp_world"
  assumes key: "signing_key X P (sk_label ak) (sk_public ak)" and d: "d = app_authority_domain cfg"
  shows "idp_safe X ak ik d Q
    (await (seal_and_append_audit_event X P cfg ty subject explicit why res) (\<lambda>_. pure_step (Err e))) w"
  by (rule idp.ok_await [OF idp_seal_and_append [OF key d]], rule idp.ok_pure, simp)

lemma idp_authentication_verify:
  fixes w :: "'t idp_world"
  assumes key: "signing_key X P (sk_label ak) (sk_public ak)" and d: "d = app_authority_domain cfg"
  shows "idp_safe X ak ik d (\<lambda>reply w. \<exists>claims. authentication_accepted X cfg req claims w \<and>
      assertion_issued X P ak ik cfg claims reply w) (authentication_verify X P cfg req) w"
  unfolding authentication_verify_def
proof ((rule idp.ok_await_pure)+, rule idp.ok_await [OF idp_consume], rule idp.ok_await_pure,
    rule idp.ok_await [OF idp_find], (rule idp.ok_await_pure)+, rule idp.ok_await [OF idp_advance], split if_split,
    intro conjI impI, rule idp_denied [OF key d])
  fix credential_id cdj ad sg presented found consumed found_row row challenge claims advanced
    and w1 w2 w3 :: "'t idp_world"
  assume b64: "b64_decode X ''credential_id'' (avr_credential_id req) = Ok credential_id"
    "b64_decode X ''client_data_json'' (avr_client_data_json req) = Ok cdj"
    "b64_decode X ''authenticator_data'' (avr_authenticator_data req) = Ok ad"
    "b64_decode X ''signature'' (avr_signature req) = Ok sg" "presented_challenge_bytes X cdj = Ok presented"
    and q: "\<forall>x. found = Some x \<longrightarrow> (\<exists>q \<in> set (db_challenges w1). ch_challenge q = presented \<and>
       ch_used_at q \<noteq> None \<and> ch_ceremony_kind q = ''authentication'' \<and> ch_subject_id q = cc_subject_id x)"
      "ok_or (unauthorized ''challenge_invalide'') found = Ok consumed"
    and row: "\<forall>row. found_row = Some row \<longrightarrow> aw_credential_id row = credential_id \<and>
       (\<exists>a \<in> set (db_authenticators w2). row_matches a row)"
      "ok_or (unauthorized ''authentification_refusee'') found_row = Ok row"
    and ch: "identity_assertion_challenge presented = Ok challenge"
    and cer: "map_err (\<lambda>_. unauthorized ''authentification_refusee'')
              (verify_authentication_ceremony X
                 \<lparr>ai_client_data_json = cdj, ai_authenticator_data = ad,
                  ai_signature = sg, ai_expected_origin = app_origin cfg,
                  ai_expected_rp_id = app_rp_id cfg, ai_expected_challenge = challenge,
                  ai_credential = credential_of_row row\<rparr>) = Ok claims"
    and ev: "db_evolves w1 w2" "db_evolves w2 w3"
    and adv: "\<not> \<not> advanced" "advanced \<longrightarrow> cl_new_sign_count claims \<noteq> 0 \<and> tables_wf w3 \<and>
      stored_count w3 (rc_credential_id (credential_of_row row)) = Some (uint (cl_new_sign_count claims))"
  from q have "found = Some consumed" by (cases found) auto
  moreover from row have "found_row = Some row" by (cases found_row) auto
  ultimately have acc: "authentication_accepted X cfg req claims w3"
    using q(1) row(1) cer adv ev identity_assertion_challenge_Ok [OF ch]
    by (intro authentication_evidence [OF b64, where ?w1.0 = w1 and ?w2.0 = w2 and s = "cc_subject_id consumed"])
      (auto simp: outcome_simps)
  show "idp_safe X ak ik d (\<lambda>reply w. \<exists>claims. authentication_accepted X cfg req claims w \<and>
      assertion_issued X P ak ik cfg claims reply w) (issue_assertion X P cfg claims) w3"
    using acc authentication_accepted_evolves by (intro idp.ok_conseq [OF idp_issue_assertion [OF key d]]) blast
qed

text \<open>The evidence behind a successful registration, and the row it left.\<close>

definition registration_accepted ::
  "'x idp_ext_scheme \<Rightarrow> 't pkcs11 \<Rightarrow> sealing_key \<Rightarrow> app_config \<Rightarrow> registration_verify_request \<Rightarrow> string \<Rightarrow>
     'z database_scheme \<Rightarrow> bool" where
  "registration_accepted X P ak cfg req reply w \<longleftrightarrow>
     (\<exists>cdj att presented out q a.
        b64_decode X ''client_data_json'' (rvr_client_data_json req) = Ok cdj \<and>
        b64_decode X ''attestation_object'' (rvr_attestation_object req) = Ok att \<and>
        presented_challenge_bytes X cdj = Ok presented \<and>
        verify_registration_ceremony X
          \<lparr>ri_client_data_json = cdj, ri_attestation_object = att, ri_expected_origin = app_origin cfg,
           ri_expected_rp_id = app_rp_id cfg, ri_expected_challenge = presented, ri_policy = PolicyAny\<rparr> = Ok out \<and>
        q \<in> set (db_challenges w) \<and> ch_challenge q = presented \<and> ch_used_at q \<noteq> None \<and>
        ch_ceremony_kind q = ''registration'' \<and>
        a \<in> set (db_authenticators w) \<and> at_credential_id a = ro_credential_id out \<and>
        at_subject_id a = ch_subject_id q \<and> at_public_key a = ro_public_key_raw out \<and>
        algorithm_from_column (at_algorithm a) = Some (ro_public_key_algorithm out) \<and>
        at_counter_supported a = (ro_sign_count out \<noteq> 0) \<and>
        uint (ro_sign_count out) \<le> sint (at_sign_count a) \<and>
        reply = b64_encode X (ro_credential_id out) \<and>
        event_stored X P ak (app_authority_domain cfg) AuthenticatorRegistered (ch_subject_id q) None OutcomeSuccess w)"

lemma algorithm_column_inverse [simp]: "algorithm_from_column (algorithm_to_column a) = Some a"
  by (cases a) (simp_all add: algorithm_from_column_def)

lemma idp_insert:
  "idp_safe X ak ik d (\<lambda>_ w'. \<exists>a \<in> set (db_authenticators w'). at_credential_id a = c \<and> at_subject_id a = s \<and>
       at_public_key a = p \<and> algorithm_from_column (at_algorithm a) = Some alg \<and> at_counter_supported a = b \<and>
       sint (at_sign_count a) = uint n)
     (query (insert_authenticator s c alg p n g f b)) w"
  by (rule idp_query [OF quiet_insert_authenticator])
    (auto simp: insert_authenticator_def on_link_def split: link.splits if_splits)

lemma registration_accepted_evolves:
  assumes "db_evolves w w'" "registration_accepted X P ak cfg req reply w"
  shows "registration_accepted X P ak cfg req reply w'"
proof -
  from assms(2) obtain cdj att presented out q a where
    e: "b64_decode X ''client_data_json'' (rvr_client_data_json req) = Ok cdj"
    "b64_decode X ''attestation_object'' (rvr_attestation_object req) = Ok att"
    "presented_challenge_bytes X cdj = Ok presented"
    "verify_registration_ceremony X
          \<lparr>ri_client_data_json = cdj, ri_attestation_object = att, ri_expected_origin = app_origin cfg,
           ri_expected_rp_id = app_rp_id cfg, ri_expected_challenge = presented, ri_policy = PolicyAny\<rparr> = Ok out"
    "reply = b64_encode X (ro_credential_id out)"
    and q: "q \<in> set (db_challenges w)" "ch_challenge q = presented" "ch_used_at q \<noteq> None"
      "ch_ceremony_kind q = ''registration''"
    and a: "a \<in> set (db_authenticators w)" "at_credential_id a = ro_credential_id out"
      "at_subject_id a = ch_subject_id q" "at_public_key a = ro_public_key_raw out"
      "algorithm_from_column (at_algorithm a) = Some (ro_public_key_algorithm out)"
      "at_counter_supported a = (ro_sign_count out \<noteq> 0)" "uint (ro_sign_count out) \<le> sint (at_sign_count a)"
    and stored: "event_stored X P ak (app_authority_domain cfg) AuthenticatorRegistered (ch_subject_id q) None OutcomeSuccess w"
    unfolding registration_accepted_def by blast
  from assms(1) a(1) obtain b where b: "b \<in> set (db_authenticators w')" "succeeds_row a b"
    unfolding db_evolves_def by blast
  then have "at_credential_id b = ro_credential_id out"
      "at_subject_id b = ch_subject_id q" "at_public_key b = ro_public_key_raw out"
      "algorithm_from_column (at_algorithm b) = Some (ro_public_key_algorithm out)"
      "at_counter_supported b = (ro_sign_count out \<noteq> 0)" "uint (ro_sign_count out) \<le> sint (at_sign_count b)"
    using a unfolding succeeds_row_def by simp_all
  moreover have "q \<in> set (db_challenges w')" using assms(1) q by (simp add: db_evolves_def)
  ultimately show ?thesis
    unfolding registration_accepted_def using e q(2-4) b(1) event_stored_evolves [OF assms(1) stored] by blast
qed

lemma idp_registration_verify:
  fixes w :: "'t idp_world"
  assumes key: "signing_key X P (sk_label ak) (sk_public ak)" and d: "d = app_authority_domain cfg"
  shows "idp_safe X ak ik d (registration_accepted X P ak cfg req) (registration_verify X P cfg req) w"
  unfolding registration_verify_def
proof ((rule idp.ok_await_pure)+, rule idp.ok_await [OF idp_consume], (rule idp.ok_await_pure)+,
    rule idp.ok_await [OF idp_insert], rule idp.ok_await [OF idp_seal_and_append [OF key d]], rule idp.ok_pure)
  fix cdj att presented found consumed challenge out x and w1 w2 w3 :: "'t idp_world"
  assume b64: "b64_decode X ''client_data_json'' (rvr_client_data_json req) = Ok cdj"
    "b64_decode X ''attestation_object'' (rvr_attestation_object req) = Ok att"
    "presented_challenge_bytes X cdj = Ok presented"
    and found: "ok_or (bad_request ''challenge_invalide'') found = Ok consumed"
      "\<forall>x. found = Some x \<longrightarrow> (\<exists>q \<in> set (db_challenges w1). ch_challenge q = presented \<and>
       ch_used_at q \<noteq> None \<and> ch_ceremony_kind q = ''registration'' \<and> ch_subject_id q = cc_subject_id x)"
    and ch: "identity_assertion_challenge presented = Ok challenge"
    and cer: "map_err
              (\<lambda>e. unauthorized (''c'' @ utf8_e_acute @ ''r'' @ utf8_e_acute @ ''monie_invalide : '' @
                     registration_error_to_string e))
              (verify_registration_ceremony X
                 \<lparr>ri_client_data_json = cdj, ri_attestation_object = att,
                  ri_expected_origin = app_origin cfg, ri_expected_rp_id = app_rp_id cfg,
                  ri_expected_challenge = challenge, ri_policy = PolicyAny\<rparr>) = Ok out"
    and ev: "db_evolves w1 w2" "db_evolves w2 w3"
    and row: "\<exists>a \<in> set (db_authenticators w2). at_credential_id a = ro_credential_id out \<and>
       at_subject_id a = cc_subject_id consumed \<and> at_public_key a = ro_public_key_raw out \<and>
       algorithm_from_column (at_algorithm a) = Some (ro_public_key_algorithm out) \<and>
       at_counter_supported a = (ro_sign_count out \<noteq> 0) \<and> sint (at_sign_count a) = uint (ro_sign_count out)"
    and stored: "event_stored X P ak d AuthenticatorRegistered (cc_subject_id consumed) None OutcomeSuccess w3"
    and x: "Ok (b64_encode X (ro_credential_id out)) = Ok x"
  from found have "found = Some consumed" by (cases found) auto
  with found(2) ev obtain q where q: "q \<in> set (db_challenges w3)" "ch_challenge q = presented" "ch_used_at q \<noteq> None"
    "ch_ceremony_kind q = ''registration''" "ch_subject_id q = cc_subject_id consumed"
    unfolding db_evolves_def by blast
  from row obtain a where a: "a \<in> set (db_authenticators w2)" "at_credential_id a = ro_credential_id out"
    "at_subject_id a = cc_subject_id consumed" "at_public_key a = ro_public_key_raw out"
    "algorithm_from_column (at_algorithm a) = Some (ro_public_key_algorithm out)"
    "at_counter_supported a = (ro_sign_count out \<noteq> 0)" "sint (at_sign_count a) = uint (ro_sign_count out)"
    by blast
  with ev(2) obtain b where "b \<in> set (db_authenticators w3)" "succeeds_row a b" unfolding db_evolves_def by blast
  with b64 q a cer stored x d identity_assertion_challenge_Ok [OF ch]
  show "registration_accepted X P ak cfg req x w3"
    unfolding registration_accepted_def outcome_simps
    by (intro exI [of _ cdj] exI [of _ att] exI [of _ presented] exI [of _ out] exI [of _ q] exI [of _ b])
      (auto simp: succeeds_row_def)
qed

lemma idp_issue: "idp_safe X ak ik d (\<lambda>_ _. True) (query (issue_challenge c s k t)) w"
  by (rule idp_query [OF quiet_issue_challenge]) simp

lemma idp_credential_ids: "idp_safe X ak ik d (\<lambda>_ _. True) (query (credential_ids_for_subject s)) w"
  by (rule idp_query) simp_all

lemma idp_now: "idp_safe X ak ik d (\<lambda>_ _. True) (read_clock f) w"
  by (rule idp_clock) simp

lemma idp_registration_challenge: "idp_safe X ak ik d (\<lambda>_ _. True) (registration_challenge Y cfg s) w"
  unfolding registration_challenge_def
  by (rule idp.ok_await [OF idp_draw], rule idp.ok_await [OF idp_issue], rule idp.ok_await [OF idp_now], clarify,
      rule idp.ok_pure, simp)

lemma idp_authentication_challenge: "idp_safe X ak ik d (\<lambda>_ _. True) (authentication_challenge Y cfg s) w"
  unfolding authentication_challenge_def
  by (rule idp.ok_await [OF idp_draw], rule idp.ok_await [OF idp_issue], rule idp.ok_await [OF idp_now], clarify,
      rule idp.ok_await [OF idp_credential_ids], rule idp.ok_pure, simp)

subsection \<open>The process\<close>

text \<open>What the reply to each request says about the world, now and later.\<close>

fun reply_ok ::
  "'x idp_ext_scheme \<Rightarrow> 't pkcs11 \<Rightarrow> sealing_key \<Rightarrow> sealing_key \<Rightarrow> app_config \<Rightarrow> idp_request \<Rightarrow> idp_reply \<Rightarrow>
     't idp_world \<Rightarrow> bool" where
  "reply_ok X P ak ik cfg (PostRegistrationVerify req) reply w =
     (\<exists>s. reply = RegistrationReply s \<and> registration_accepted X P ak cfg req s w)"
| "reply_ok X P ak ik cfg (PostAuthenticationVerify req) reply w =
     (\<exists>s claims. reply = AssertionReply s \<and> authentication_accepted X cfg req claims w \<and>
        assertion_issued X P ak ik cfg claims s w)"
| "reply_ok X P ak ik cfg (PostRegistrationChallenge s) reply w = True"
| "reply_ok X P ak ik cfg (PostAuthenticationChallenge s) reply w = True"

lemma reply_ok_stable: "stable_post db_evolves (on_ok (reply_ok X P ak ik cfg q))"
proof (rule idp.stable_on_ok)
  show "stable_post db_evolves (reply_ok X P ak ik cfg q)"
    unfolding stable_post_def
    by (cases q) (auto intro: registration_accepted_evolves authentication_accepted_evolves assertion_issued_evolves)
qed

lemma idp_router:
  assumes key: "signing_key X P (sk_label ak) (sk_public ak)" and d: "d = app_authority_domain cfg"
  shows "idp_safe X ak ik d (reply_ok X P ak ik cfg q) (router X P cfg q) w"
proof (cases q)
  case (PostRegistrationVerify req)
  then show ?thesis unfolding PostRegistrationVerify router.simps reply_with_def
    by (intro idp.ok_await [OF idp_registration_verify [OF key d]] idp.ok_pure) auto
next
  case (PostAuthenticationVerify req)
  then show ?thesis unfolding PostAuthenticationVerify router.simps reply_with_def
    by (intro idp.ok_await [OF idp_authentication_verify [OF key d]] idp.ok_pure) auto
next
  case (PostRegistrationChallenge s)
  then show ?thesis unfolding PostRegistrationChallenge router.simps reply_with_def
    by (intro idp.ok_await [OF idp_registration_challenge] idp.ok_pure) simp
next
  case (PostAuthenticationChallenge s)
  then show ?thesis unfolding PostAuthenticationChallenge router.simps reply_with_def
    by (intro idp.ok_await [OF idp_authentication_challenge] idp.ok_pure) simp
qed

abbreviation idp_steps where
  "idp_steps X P cfg \<equiv> process_steps (router X P cfg) (outside_step (app_authority_domain cfg))"

theorem idp_reachable:
  assumes "signing_key X P (sk_label ak) (sk_public ak)" "idp_inv X ak ik (app_authority_domain cfg) w0"
    and "idp_steps X P cfg (w0, []) (w, hs)"
  shows "idp_inv X ak ik (app_authority_domain cfg) w" and "db_evolves w0 w"
    and "(q, Done (Ok reply)) \<in> set hs \<Longrightarrow> reply_ok X P ak ik cfg q reply w"
proof -
  let ?d = "app_authority_domain cfg"
  let ?Q = "\<lambda>q. on_ok (reply_ok X P ak ik cfg q)"
  have "process_ok (idp_inv X ak ik ?d) db_evolves ?Q (w0, [])" using assms(2) by (simp add: process_ok_def)
  from idp.process_steps_ok [OF assms(3) this reply_ok_stable idp_router [OF assms(1) refl] outside_step_ok]
  have "process_ok (idp_inv X ak ik ?d) db_evolves ?Q (w, hs) \<and> db_evolves w0 w" by simp
  then show "idp_inv X ak ik ?d w" "db_evolves w0 w"
    and "(q, Done (Ok reply)) \<in> set hs \<Longrightarrow> reply_ok X P ak ik cfg q reply w"
    by (auto simp: process_ok_def)
qed

subsection \<open>Replayed requests\<close>

text \<open>The challenge that a request presents, if it can be read.\<close>

fun presents :: "'x idp_ext_scheme \<Rightarrow> idp_request \<Rightarrow> bytes \<Rightarrow> bool" where
  "presents X (PostRegistrationVerify req) c =
     (\<exists>cdj. b64_decode X ''client_data_json'' (rvr_client_data_json req) = Ok cdj \<and>
        presented_challenge_bytes X cdj = Ok c)"
| "presents X (PostAuthenticationVerify req) c =
     (\<exists>cdj. b64_decode X ''client_data_json'' (avr_client_data_json req) = Ok cdj \<and>
        presented_challenge_bytes X cdj = Ok c)"
| "presents X (PostRegistrationChallenge s) c = False"
| "presents X (PostAuthenticationChallenge s) c = False"

lemma idp_consume_spent:
  assumes "spent w c"
  shows "idp_safe X ak ik d (\<lambda>r _. r = None) (query (consume_challenge c k)) w"
proof (rule idp_query [OF quiet_consume_challenge])
  fix v x
  assume "db_evolves w v" "idp_inv X ak ik d v" and run: "consume_challenge c k v = (Ok x, snd (consume_challenge c k v))"
  then have "tables_wf v" "spent v c" using assms by (simp_all add: idp_inv_def spent_evolves)
  with run consume_challenge_fresh [of v c k] show "x = None" by (cases x) auto
qed

lemma idp_replay:
  assumes "spent w c" "presents X q c"
  shows "idp_safe X ak ik d (\<lambda>_ _. False) (router X P cfg q) w"
proof (cases q)
  case (PostRegistrationVerify req)
  have "idp_safe X ak ik d (\<lambda>_ _. False) (registration_verify X P cfg req) w"
    unfolding registration_verify_def
    by ((rule idp.ok_await_pure)+, rule idp.ok_await [OF idp_consume_spent], use assms PostRegistrationVerify in auto)
      (rule idp.ok_await_pure, simp)
  then show ?thesis
    unfolding PostRegistrationVerify router.simps reply_with_def by (rule idp.ok_await) simp
next
  case (PostAuthenticationVerify req)
  have "idp_safe X ak ik d (\<lambda>_ _. False) (authentication_verify X P cfg req) w"
    unfolding authentication_verify_def
    by ((rule idp.ok_await_pure)+, rule idp.ok_await [OF idp_consume_spent], use assms PostAuthenticationVerify in auto)
      (rule idp.ok_await_pure, simp)
  then show ?thesis
    unfolding PostAuthenticationVerify router.simps reply_with_def by (rule idp.ok_await) simp
qed (use assms in simp_all)

text \<open>From the moment a challenge is used, no request that arrives with it succeeds.\<close>

theorem idp_no_replay:
  assumes key: "signing_key X P (sk_label ak) (sk_public ak)" and inv: "idp_inv X ak ik (app_authority_domain cfg) w0"
    and before: "idp_steps X P cfg (w0, []) (w, hs)" and spent: "spent w c"
    and after: "idp_steps X P cfg (w, hs) (w', hs')"
    and i: "length hs \<le> i" "i < length hs'" "hs' ! i = (q, Done (Ok reply))"
  shows "\<not> presents X q c"
proof -
  let ?d = "app_authority_domain cfg" and ?K = "\<lambda>w. spent w c"
  let ?I = "idp_inv X ak ik ?d"
  let ?Q = "\<lambda>q. on_ok (reply_ok X P ak ik cfg q)"
  let ?Q' = "\<lambda>q. on_ok (\<lambda>_ _. \<not> presents X q c)"
  have "process_ok ?I db_evolves ?Q (w0, [])" using inv by (simp add: process_ok_def)
  note ok = idp.process_steps_ok [OF before this reply_ok_stable idp_router [OF key refl] outside_step_ok, THEN conjunct1]
  have "safe_handler (\<lambda>w. ?I w \<and> ?K w) db_evolves (?Q' q) (router X P cfg q) v" if "spent v c" for q v
  proof -
    have "idp_safe X ak ik ?d (\<lambda>_ _. \<not> presents X q c) (router X P cfg q) v"
    proof (cases "presents X q c")
      case True
      show ?thesis by (rule idp.ok_conseq [OF idp_replay [OF that True]]) (erule FalseE)
    next
      case False
      show ?thesis by (rule idp.ok_conseq [OF idp_router [OF key refl]]) (rule False)
    qed
    then show ?thesis using that by (rule idp.safe_strengthen [where K = ?K]) (rule spent_evolves)
  qed
  then have "late_ok (\<lambda>w. ?I w \<and> ?K w) db_evolves (length (snd (w, hs))) ?Q' (w', hs')"
    by (intro idp.late_steps [OF after ok reply_ok_stable idp_router [OF key refl] outside_step_ok, where K = ?K])
      (use spent spent_evolves in \<open>auto simp: stable_post_def on_ok_def\<close>)
  then show ?thesis using i by (fastforce simp: late_ok_def)
qed

subsection \<open>Every request is answered\<close>

text \<open>
  No handler loops: the bound counts the queries, the readings of the system and the sealing tasks on
  the longest path.
\<close>

lemma answers_query: "answers_within (query m) 1"
  and answers_clock: "answers_within (read_clock f) 1"
  and answers_uuid: "answers_within uuid_now_v7 1"
  and answers_draw: "answers_within draw_challenge 1"
  and answers_audit_seal: "answers_within (spawn_audit_seal X P e) 1"
  and answers_assertion_seal: "answers_within (spawn_assertion_seal X P c) 1"
  unfolding query_def read_clock_def uuid_now_v7_def draw_challenge_def spawn_audit_seal_def spawn_assertion_seal_def
  by (rule answers_within_atomic)+

lemma answers_then:
  assumes "answers_within p n" "n \<le> m" "\<And>x. answers_within (k x) (m - n)"
  shows "answers_within (await p k) m"
  using answers_within_await [OF assms(1,3)] assms(2) by simp

lemma answers_then_pure: "(\<And>x. answers_within (k x) m) \<Longrightarrow> answers_within (await (pure_step r) k) m"
  by (rule answers_then [OF answers_within_pure]) simp_all

lemma answers_then_field: "(\<And>x. answers_within (k x) m) \<Longrightarrow> answers_within (await (field_step r) k) m"
  unfolding field_step_def by (rule answers_then_pure)

lemma answers_done: "answers_within (pure_step r) m"
  by (simp add: pure_step_def)

lemma answers_event_id:
  "answers_within (case explicit of Some (ident, _, _) \<Rightarrow> pure_step (Ok ident) | None \<Rightarrow> uuid_now_v7) 1"
  using answers_uuid by (cases explicit) (auto simp: answers_done)

lemmas answers_rules = answers_then_pure answers_then_field answers_done
  answers_then [OF answers_query] answers_then [OF answers_clock] answers_then [OF answers_uuid]
  answers_then [OF answers_draw] answers_then [OF answers_audit_seal] answers_then [OF answers_assertion_seal]
  answers_then [OF answers_event_id]

lemma answers_seal_and_append: "answers_within (seal_and_append_audit_event X P cfg ty s ex j res) 6"
  unfolding seal_and_append_audit_event_def by (intro answers_rules; simp)

lemma answers_issue_assertion: "answers_within (issue_assertion X P cfg claims) 9"
  unfolding issue_assertion_def
  by (rule answers_rules, simp, rule answers_rules, simp, clarify)
    (intro answers_rules answers_then [OF answers_seal_and_append]; simp)

lemma answers_registration_challenge: "answers_within (registration_challenge X cfg s) 3"
  unfolding registration_challenge_def
  by (rule answers_rules, simp, rule answers_rules, simp, rule answers_rules, simp, clarify, rule answers_done)

lemma answers_authentication_challenge: "answers_within (authentication_challenge X cfg s) 4"
  unfolding authentication_challenge_def
  by (rule answers_rules, simp, rule answers_rules, simp, rule answers_rules, simp, clarify, rule answers_rules, simp)
    (rule answers_done)

lemma answers_registration_verify: "answers_within (registration_verify X P cfg req) 8"
  unfolding registration_verify_def
  by (intro answers_rules answers_then [OF answers_seal_and_append]; simp)

lemma answers_authentication_verify: "answers_within (authentication_verify X P cfg req) 12"
proof -
  have failed: "answers_within (await (seal_and_append_audit_event X P cfg AuthenticationFailed s None j OutcomeDenied) (\<lambda>_.
      pure_step (Err e :: (string, api_error) outcome))) 9" for s j and e
    by (rule answers_then [OF answers_seal_and_append]) (simp_all add: answers_done)
  then have "answers_within (if \<not> advanced then
         await (seal_and_append_audit_event X P cfg AuthenticationFailed (cl_subject_id claims) None
                  (Some ''clonage_suspecte_compteur_concurrent'') OutcomeDenied) (\<lambda>_.
           pure_step (Err (unauthorized ''authentification_refusee'')))
       else issue_assertion X P cfg claims) (12 - 1 - 1 - 1)" for advanced claims
    using answers_issue_assertion [of X P cfg claims] by simp
  then show ?thesis unfolding authentication_verify_def by (intro answers_rules; simp)
qed

lemma answers_reply: "answers_within p n \<Longrightarrow> n \<le> 12 \<Longrightarrow> answers_within (reply_with f p) 12"
  unfolding reply_with_def by (rule answers_then [OF _ _ answers_done])

lemma answers_router: "answers_within (router X P cfg q) 12"
  by (cases q) (auto intro: answers_reply [OF answers_registration_challenge]
      answers_reply [OF answers_registration_verify] answers_reply [OF answers_authentication_challenge]
      answers_reply [OF answers_authentication_verify])

subsection \<open>The gRPC entry\<close>

lemma idp_rfc3339_now_Some [simp]: "idp_rfc3339_now (Some secs) = Ok (rfc3339_from_seconds (sint secs))"
  by (simp add: idp_rfc3339_now_def unix_now_seconds_def)

lemma verify_assertion_now:
  assumes "min_seconds \<le> sint secs" "sint secs \<le> max_seconds"
  shows "assertion_verifier_verify_assertion X key (Some secs) req =
    (case identity_assertion_verify X [key] (var_assertion req)
            \<lparr>iap_accepted_suites = IDP_ACCEPTED_SUITES, iap_now = rfc3339_from_seconds (sint secs),
             iap_expected_authority_domain = var_expected_authority_domain req\<rparr> of
       Panic \<Rightarrow> Panic
     | Ok v \<Rightarrow> Ok \<lparr>vas_valid = True, vas_reason = '''', vas_subject_id = va_subject_id v, vas_aal = va_aal v,
         vas_auth_method = va_auth_method v, vas_audit_event_id = va_audit_event_id v\<rparr>
     | Err e \<Rightarrow> Ok \<lparr>vas_valid = False, vas_reason = verify_error_reason e, vas_subject_id = '''', vas_aal = '''',
         vas_auth_method = '''', vas_audit_event_id = ''''\<rparr>)"
proof -
  have "Timestamp_new (rfc3339_from_seconds (sint secs)) = Ok (rfc3339_from_seconds (sint secs))"
    using assms by (simp add: Timestamp_new_eq_Ok timestamp_valid_rfc3339)
  then show ?thesis by (simp add: assertion_verifier_verify_assertion_def Let_def)
qed

lemma verify_error_reason_nonempty: "verify_error_reason e \<noteq> ''''"
  by (cases e) simp_all

text \<open>An issued assertion is accepted by the gRPC entry as long as it is valid, for its subject.\<close>

lemma sealed_claims_accepted:
  assumes key: "signing_key X P (sk_label ik) (sk_public ik)"
    and seal: "assertion_seal X P wakes c sl = (Ok bs, sl')" and holds: "sealer_holds X ik sl"
    and valid: "assertion_claims_valid c" and size: "length bs \<le> IDENTITY_MAX_BYTES"
    and times: "ac_issued_at c = rfc3339_from_seconds now" "ac_expires_at c = rfc3339_from_seconds until"
    and secs: "now \<le> sint secs" "sint secs < until"
  shows "assertion_verifier_verify_assertion X (verifying_key_of X ik) (Some secs)
      \<lparr>var_assertion = bs, var_expected_authority_domain = ac_authority_domain c\<rparr> =
    Ok \<lparr>vas_valid = True, vas_reason = '''', vas_subject_id = ac_subject_id c,
        vas_aal = assurance_level_as_str (ac_aal c), vas_auth_method = ac_auth_method c,
        vas_audit_event_id = ac_audit_event_id c\<rparr>"
proof -
  let ?policy = "\<lparr>iap_accepted_suites = IDP_ACCEPTED_SUITES, iap_now = rfc3339_from_seconds (sint secs),
      iap_expected_authority_domain = ac_authority_domain c\<rparr>"
  have range: "min_seconds \<le> now" "now \<le> max_seconds" "min_seconds \<le> until" "until \<le> max_seconds"
    using valid times by (simp_all add: assertion_claims_valid_def Timestamp_new_eq_Ok timestamp_valid_rfc3339)
  have s: "min_seconds \<le> sint secs" "sint secs \<le> max_seconds" using range secs by linarith+
  have "identity_assertion_verify X [verifying_key_of X ik] bs ?policy =
    Ok \<lparr>va_subject_id = ac_subject_id c, va_aal = assurance_level_as_str (ac_aal c),
      va_auth_method = ac_auth_method c, va_audience = ac_audience c,
      va_issued_at = ac_issued_at c, va_expires_at = ac_expires_at c,
      va_audit_event_id = ac_audit_event_id c\<rparr>"
    by (rule signing_key.assertion_seal_verify [OF key seal])
      (use holds size secs range s in \<open>simp_all add: sealer_holds_def verifying_key_of_def IDP_ACCEPTED_SUITES_def
        times rfc3339_less_iff\<close>)
  then show ?thesis by (simp add: verify_assertion_now [OF s])
qed

lemma assertion_issued_accepted:
  assumes key: "signing_key X P (sk_label ik) (sk_public ik)"
    and "assertion_issued X P ak ik cfg claims reply w"
  shows "\<exists>bs now event_id. reply = b64_encode X bs \<and>
    event_stored X P ak (app_authority_domain cfg) AuthenticationSucceeded (cl_subject_id claims)
      (Some (event_id, ''identity_assertion'', hex_encode (sha256 X bs))) OutcomeSuccess w \<and>
    (\<forall>secs. length bs \<le> IDENTITY_MAX_BYTES \<longrightarrow> now \<le> sint secs \<longrightarrow>
       sint secs < i64_add now (app_assertion_ttl_seconds cfg) \<longrightarrow>
       assertion_verifier_verify_assertion X (verifying_key_of X ik) (Some secs)
         \<lparr>var_assertion = bs, var_expected_authority_domain = app_authority_domain cfg\<rparr> =
       Ok \<lparr>vas_valid = True, vas_reason = '''', vas_subject_id = cl_subject_id claims,
           vas_aal = assurance_level_as_str (assurance_level_of (cl_aal claims)),
           vas_auth_method = cl_method claims, vas_audit_event_id = event_id\<rparr>)"
proof -
  from assms(2) obtain bs c wakes sl sl' now where
    reply: "reply = b64_encode X bs" and seal: "assertion_seal X P wakes c sl = (Ok bs, sl')" and
    holds: "sealer_holds X ik sl" and valid: "assertion_claims_valid c" and
    c: "ac_authority_domain c = app_authority_domain cfg" "ac_subject_id c = cl_subject_id claims"
      "ac_aal c = assurance_level_of (cl_aal claims)" "ac_auth_method c = cl_method claims"
      "ac_issued_at c = rfc3339_from_seconds now"
      "ac_expires_at c = rfc3339_from_seconds (i64_add now (app_assertion_ttl_seconds cfg))" and
    stored: "event_stored X P ak (app_authority_domain cfg) AuthenticationSucceeded (cl_subject_id claims)
      (Some (ac_audit_event_id c, ''identity_assertion'', hex_encode (sha256 X bs))) OutcomeSuccess w"
    unfolding assertion_issued_def by blast
  from reply stored sealed_claims_accepted [OF key seal holds valid _ c(5,6)] show ?thesis unfolding c by blast
qed

end
