(* ===== verification/Decision_Binding.thy ===== *)
theory Decision_Binding
  imports Common
begin

section \<open>Integrity bindings of a decision (\<open>crates/zs-crypto/src/decision_binding.rs\<close>)\<close>

text \<open>
  The digest of a decision request and of the policy corpus it was evaluated against. The lemmas
  show that the corpus message frames its parts without ambiguity, hence that equal bindings mean
  equal corpora unless two different messages have the same SHA-256 digest, and that the binding
  does not depend on the order in which the files are listed. \<open>sort_unstable_by\<close> leaves the order
  of equal paths open; the model keeps their order of appearance and the statements that depend on
  it ask for distinct paths.
\<close>

definition BINDING_SUITE_V1 :: string where
  "BINDING_SUITE_V1 = ''decision-binding/v1''"

record decision_binding =
  db_suite :: string
  db_digest :: bytes

definition binding_to_hex_string :: "decision_binding \<Rightarrow> string" where
  "binding_to_hex_string b = db_suite b @ '':'' @ hex_encode (db_digest b)"

definition bind_request :: "'x zs_ext_scheme \<Rightarrow> json \<Rightarrow> (decision_binding, 'e) outcome" where
  "bind_request X request =
     and_then (canonical_bytes X request) (\<lambda>b.
       Ok \<lparr>db_suite = BINDING_SUITE_V1,
           db_digest = sha256 X (as_bytes (BINDING_SUITE_V1 @ ''/request'') @ [0x00] @ b)\<rparr>)"

record corpus_file =
  cf_relative_path :: string
  cf_contents :: string

datatype corpus_binding_error = InvalidEncoding string | InvalidPath string

text \<open>The UTF-8 bytes of the byte order mark U+FEFF.\<close>

definition bom :: string where
  "bom = [CHR 0xEF, CHR 0xBB, CHR 0xBF]"

definition starts_with :: "string \<Rightarrow> string \<Rightarrow> bool" where
  "starts_with s p \<longleftrightarrow> take (length p) s = p"

fun check_corpus_files :: "corpus_file list \<Rightarrow> (unit, corpus_binding_error) outcome" where
  "check_corpus_files [] = Ok ()"
| "check_corpus_files (f # fs) =
     (if CHR 0x5C \<in> set (cf_relative_path f) \<or> starts_with (cf_relative_path f) ''/''
      then Err (InvalidPath (cf_relative_path f))
      else if starts_with (cf_contents f) bom then Err (InvalidEncoding (cf_relative_path f))
      else check_corpus_files fs)"

definition len_prefix :: "string \<Rightarrow> bytes" where
  "len_prefix s = u64_to_be_bytes (word_of_nat (length s)) @ as_bytes s"

definition corpus_message :: "string \<Rightarrow> string \<Rightarrow> corpus_file list \<Rightarrow> bytes" where
  "corpus_message schema engine_version ordered =
     as_bytes (BINDING_SUITE_V1 @ ''/policy-corpus'') @ [0x00] @
     as_bytes (''cedar-policy='' @ engine_version) @ [0x00] @
     len_prefix schema @
     u64_to_be_bytes (word_of_nat (length ordered)) @
     concat (map (\<lambda>f. len_prefix (cf_relative_path f) @ len_prefix (cf_contents f)) ordered)"

definition bind_policy_corpus ::
  "'x zs_ext_scheme \<Rightarrow> string \<Rightarrow> string \<Rightarrow> corpus_file list \<Rightarrow>
     (decision_binding, corpus_binding_error) outcome" where
  "bind_policy_corpus X schema cedar_engine_version files =
     and_then (check_corpus_files files) (\<lambda>_.
       let ordered = sort_key (\<lambda>f. as_bytes (cf_relative_path f)) files
       in Ok \<lparr>db_suite = BINDING_SUITE_V1,
              db_digest = sha256 X (corpus_message schema cedar_engine_version ordered)\<rparr>)"

section \<open>Properties of the bindings\<close>

subsection \<open>Framing\<close>

lemma word64_of_nat_eq:
  assumes "m < 2 ^ 64" "n < 2 ^ 64" and "(word_of_nat m :: u64) = word_of_nat n"
  shows "m = n"
proof -
  have "unat (word_of_nat m :: u64) = m" "unat (word_of_nat n :: u64) = n"
    by (rule unat_word_of_nat_eq, use assms(1,2) in simp)+
  with assms(3) show ?thesis by metis
qed

lemma len_prefix_append_eq:
  assumes "length s < 2 ^ 64" "length t < 2 ^ 64"
  shows "len_prefix s @ r = len_prefix t @ q \<longleftrightarrow> s = t \<and> r = q"
proof
  assume eq: "len_prefix s @ r = len_prefix t @ q"
  then have "u64_to_be_bytes (word_of_nat (length s)) = u64_to_be_bytes (word_of_nat (length t))"
    and rest: "as_bytes s @ r = as_bytes t @ q"
    by (simp_all add: len_prefix_def)
  then have "length s = length t" using assms word64_of_nat_eq by simp
  then have "as_bytes s = as_bytes t \<and> r = q" using rest by (intro append_eq_append_conv [THEN iffD1]) auto
  then show "s = t \<and> r = q" by simp
qed simp

definition corpus_sized :: "string \<Rightarrow> string \<Rightarrow> corpus_file list \<Rightarrow> bool" where
  "corpus_sized schema engine_version fs \<longleftrightarrow>
     length schema < 2 ^ 64 \<and> length fs < 2 ^ 64 \<and> CHR 0x00 \<notin> set engine_version \<and>
     list_all (\<lambda>f. length (cf_relative_path f) < 2 ^ 64 \<and> length (cf_contents f) < 2 ^ 64) fs"

lemma corpus_files_inj:
  fixes fs gs :: "corpus_file list"
  assumes "length fs = length gs"
    and "list_all (\<lambda>f. length (cf_relative_path f) < 2 ^ 64 \<and> length (cf_contents f) < 2 ^ 64) fs"
    and "list_all (\<lambda>f. length (cf_relative_path f) < 2 ^ 64 \<and> length (cf_contents f) < 2 ^ 64) gs"
    and "concat (map (\<lambda>f. len_prefix (cf_relative_path f) @ len_prefix (cf_contents f)) fs) =
      concat (map (\<lambda>f. len_prefix (cf_relative_path f) @ len_prefix (cf_contents f)) gs)"
  shows "fs = gs"
  using assms
proof (induction fs gs rule: list_induct2)
  case (Cons f fs g gs)
  then show ?case by (cases f, cases g) (simp add: len_prefix_append_eq)
qed simp

lemma split_at_nul:
  assumes "0 \<notin> set a" "0 \<notin> set b" and "a @ 0 # r = b @ (0 :: u8) # q"
  shows "a = b \<and> r = q"
proof -
  have "takeWhile (\<lambda>x. x \<noteq> 0) (a @ 0 # r) = a" "takeWhile (\<lambda>x. x \<noteq> 0) (b @ 0 # q) = b"
    using assms(1,2) by (auto simp: takeWhile_append takeWhile_eq_all_conv)
  with assms(3) show ?thesis by auto
qed

lemma nul_in_as_bytes: "0 \<in> set (as_bytes s) \<longleftrightarrow> CHR 0x00 \<in> set s"
proof -
  have "u8_of_char c = 0 \<longleftrightarrow> c = CHR 0x00" for c
    using inj_eq [OF inj_u8_of_char, of c "CHR 0x00"] by (simp add: u8_of_char_def)
  then show ?thesis by (force simp: as_bytes_def)
qed

lemma corpus_message_inj:
  assumes "corpus_sized schema v fs" "corpus_sized schema' v' gs"
    and eq: "corpus_message schema v fs = corpus_message schema' v' gs"
  shows "schema = schema' \<and> v = v' \<and> fs = gs"
proof -
  from eq have "as_bytes (''cedar-policy='' @ v) @ 0 # len_prefix schema @
      u64_to_be_bytes (word_of_nat (length fs)) @ concat (map (\<lambda>f. len_prefix (cf_relative_path f) @ len_prefix (cf_contents f)) fs) =
    as_bytes (''cedar-policy='' @ v') @ 0 # len_prefix schema' @
      u64_to_be_bytes (word_of_nat (length gs)) @ concat (map (\<lambda>f. len_prefix (cf_relative_path f) @ len_prefix (cf_contents f)) gs)"
    by (simp add: corpus_message_def)
  then have "as_bytes (''cedar-policy='' @ v) = as_bytes (''cedar-policy='' @ v') \<and>
      len_prefix schema @ u64_to_be_bytes (word_of_nat (length fs)) @ concat (map (\<lambda>f. len_prefix (cf_relative_path f) @ len_prefix (cf_contents f)) fs) =
      len_prefix schema' @ u64_to_be_bytes (word_of_nat (length gs)) @ concat (map (\<lambda>f. len_prefix (cf_relative_path f) @ len_prefix (cf_contents f)) gs)"
    by (intro split_at_nul) (use assms(1,2) in \<open>auto simp: nul_in_as_bytes corpus_sized_def simp del: as_bytes_append as_bytes_Cons\<close>)
  then have "v = v'" "schema = schema'" and n: "u64_to_be_bytes (word_of_nat (length fs)) = u64_to_be_bytes (word_of_nat (length gs))"
    and c: "concat (map (\<lambda>f. len_prefix (cf_relative_path f) @ len_prefix (cf_contents f)) fs) =
      concat (map (\<lambda>f. len_prefix (cf_relative_path f) @ len_prefix (cf_contents f)) gs)"
    using assms(1,2) by (auto simp: len_prefix_append_eq corpus_sized_def)
  moreover have "length fs = length gs"
    using n assms(1,2) word64_of_nat_eq [of "length fs" "length gs"] by (simp add: corpus_sized_def)
  moreover from this have "fs = gs"
    using c assms(1,2) by (intro corpus_files_inj) (auto simp: corpus_sized_def)
  ultimately show ?thesis by simp
qed

subsection \<open>Order of the files\<close>

lemma check_corpus_files_Ok:
  "check_corpus_files fs = Ok () \<longleftrightarrow>
     (\<forall>f \<in> set fs. CHR 0x5C \<notin> set (cf_relative_path f) \<and> \<not> starts_with (cf_relative_path f) ''/'' \<and>
        \<not> starts_with (cf_contents f) bom)"
  by (induction fs) auto

lemma sort_paths_perm:
  assumes "distinct (map cf_relative_path fs)" and "mset fs = mset gs"
  shows "sort_key (\<lambda>f. as_bytes (cf_relative_path f)) fs = sort_key (\<lambda>f. as_bytes (cf_relative_path f)) gs"
proof (rule sort_key_inj_key_eq)
  show "mset fs = mset (sort_key (\<lambda>f. as_bytes (cf_relative_path f)) gs)" using assms(2) by simp
  show "inj_on (\<lambda>f. as_bytes (cf_relative_path f)) (set fs)"
    using assms(1) by (auto simp: inj_on_def distinct_map)
qed simp

lemma bind_policy_corpus_perm:
  assumes "distinct (map cf_relative_path fs)" and "mset fs = mset gs"
    and "check_corpus_files fs = Ok ()"
  shows "bind_policy_corpus X schema v gs = bind_policy_corpus X schema v fs"
proof -
  have "set gs = set fs" using assms(2) by (metis mset_eq_setD)
  then have "check_corpus_files gs = Ok ()" using assms(3) by (simp add: check_corpus_files_Ok)
  then show ?thesis
    using assms(3) sort_paths_perm [OF assms(1,2)] by (simp add: bind_policy_corpus_def)
qed

lemma corpus_sized_sort: "corpus_sized schema v (sort_key k fs) = corpus_sized schema v fs"
  by (simp add: corpus_sized_def list_all_iff)

lemma bind_policy_corpus_Ok:
  "bind_policy_corpus X schema v fs = Ok b \<longleftrightarrow>
     check_corpus_files fs = Ok () \<and>
     b = \<lparr>db_suite = BINDING_SUITE_V1,
          db_digest = sha256 X (corpus_message schema v (sort_key (\<lambda>f. as_bytes (cf_relative_path f)) fs))\<rparr>"
  by (auto simp: bind_policy_corpus_def outcome_simps)

text \<open>Equal bindings: the same corpus, or two messages with the same digest.\<close>

lemma bind_policy_corpus_binds:
  assumes "bind_policy_corpus X schema v fs = Ok b" "bind_policy_corpus X schema' v' gs = Ok b"
    and "corpus_sized schema v fs" "corpus_sized schema' v' gs"
  shows "(schema = schema' \<and> v = v' \<and> mset fs = mset gs) \<or>
    (\<exists>m m'. m \<noteq> m' \<and> ext_sha256 X m = ext_sha256 X m')"
proof -
  let ?s = "sort_key (\<lambda>f. as_bytes (cf_relative_path f))"
  let ?m = "corpus_message schema v (?s fs)" and ?m' = "corpus_message schema' v' (?s gs)"
  have "ext_sha256 X ?m = ext_sha256 X ?m'"
    using assms(1,2) by (simp add: bind_policy_corpus_Ok sha256_def)
  moreover have "schema = schema' \<and> v = v' \<and> ?s fs = ?s gs" if "?m = ?m'"
    using corpus_message_inj [OF _ _ that] assms(3,4) by (simp add: corpus_sized_sort)
  then have "schema = schema' \<and> v = v' \<and> mset fs = mset gs" if "?m = ?m'"
    using that by (metis mset_sort)
  ultimately show ?thesis by blast
qed

text \<open>The binding of a request: the same content up to the order of entries, or a collision.\<close>

context zs_libraries
begin

lemma bind_request_binds:
  assumes "json_wf r" "json_wf s" "json_depth r \<le> 127" "json_depth s \<le> 127"
    and "bind_request X r = (Ok b :: (decision_binding, 'e) outcome)"
    and "bind_request X s = (Ok b :: (decision_binding, 'e) outcome)"
  shows "json_perm r s \<or> (\<exists>m m'. m \<noteq> m' \<and> ext_sha256 X m = ext_sha256 X m')"
proof -
  let ?m = "\<lambda>r. as_bytes (BINDING_SUITE_V1 @ ''/request'') @ [0] @ ext_to_vec X (sort_json r)"
  have bind: "bind_request X v = (Ok \<lparr>db_suite = BINDING_SUITE_V1, db_digest = ext_sha256 X (?m v)\<rparr>
      :: (decision_binding, 'e) outcome)" if "json_wf v" for v
    using json_wf_no_float [OF that] by (simp only: bind_request_def canonical_bytes_eq if_False and_then.simps sha256_def)
  have "ext_sha256 X (?m r) = ext_sha256 X (?m s)"
    using assms(5,6) unfolding bind [OF assms(1)] bind [OF assms(2)] by fastforce
  moreover have "json_perm r s" if "?m r = ?m s"
  proof -
    from that have "ext_to_vec X (sort_json r) = ext_to_vec X (sort_json s)"
      by (simp only: same_append_eq)
    then have "sort_json r = sort_json s"
      using assms(1-4) by (intro serde_json.to_vec_inject [OF json_laws]) simp_all
    then show ?thesis by (rule sort_json_json_perm)
  qed
  ultimately show ?thesis by metis
qed

end

end
