(* ===== verification/Pdp.thy ===== *)
theory Pdp
  imports Decision_Binding Calendar
begin

section \<open>The policy decision point (\<open>crates/zs-policy/src/pdp.rs\<close>)\<close>

text \<open>
  The messages of \<open>contracts/proto/policy/v1/decision.proto\<close>, the translation of a request into
  Cedar's terms, its JSON form for the binding, and the two operations \<open>load\<close> and \<open>decide\<close>. The
  Cedar engine is not part of the repository: the record \<open>cedar\<close> holds the operations the code
  calls, every one that can fail returning the text of its error. The lemmas show that the
  decision point fails closed (an allow implies a complete request, the served policy version and
  Cedar's own allow), that it always answers, what its decision hash binds, and that loading does
  not depend on the order in which the file system lists the corpus.
\<close>

subsection \<open>Messages\<close>

record proto_duration =
  du_seconds :: int
  du_nanos :: int

record principal =
  pr_subject_id :: string
  pr_aal :: int
  pr_auth_method :: string
  pr_authenticated_at :: "proto_timestamp option"
  pr_roles :: "string list"
  pr_authority_domain :: string

record action_msg =
  am_verb :: string

text \<open>A \<open>HashMap\<close> field is the list of its entries in the order of iteration.\<close>

record resource =
  rs_type :: string
  rs_id :: string
  rs_authority_domain :: string
  rs_attributes :: "(string \<times> string) list"

record device_posture =
  dp_managed :: bool
  dp_disk_encrypted :: bool
  dp_agent_version :: string
  dp_evaluated_at :: "proto_timestamp option"

record approval =
  ap_approver_id :: string
  ap_approved_at :: "proto_timestamp option"
  ap_signature :: bytes

record request_context =
  cx_requested_at :: "proto_timestamp option"
  cx_source_network :: string
  cx_posture :: "device_posture option"
  cx_ticket_ref :: string
  cx_justification :: string
  cx_approvals :: "approval list"

record decision_request =
  dr_request_id :: string
  dr_principal :: "principal option"
  dr_action :: "action_msg option"
  dr_resource :: "resource option"
  dr_context :: "request_context option"
  dr_policy_version :: string

record decision_response =
  dres_effect :: int
  dres_reasons :: "string list"
  dres_max_ttl :: "proto_duration option"
  dres_constraints :: "string list"
  dres_decision_hash :: bytes
  dres_policy_version :: string
  dres_issued_at :: "proto_timestamp option"
  dres_decision_signature :: bytes
  dres_decision_signature_key_id :: string

datatype effect = EffectDeny | EffectAllow

fun effect_as_i32 :: "effect \<Rightarrow> int" where
  "effect_as_i32 EffectDeny = 0"
| "effect_as_i32 EffectAllow = 1"

subsection \<open>The Cedar engine\<close>

record entity_uid =
  uid_type_name :: string
  uid_id :: string

datatype restricted_expression =
    RString string
  | RLong int
  | RBool bool
  | RSet "restricted_expression list"
  | RRecord "(string \<times> restricted_expression) list"

datatype cedar_decision = CedarAllow | CedarDeny

record cedar_response =
  cr_decision :: cedar_decision
  cr_reasons :: "string list"

record ('s, 'p, 'e, 'es, 'c, 'r) cedar =
  cedar_schema_from_json_str :: "string \<Rightarrow> ('s, string) outcome"
  cedar_parse_policies :: "string \<Rightarrow> ('p, string) outcome"
  cedar_parse_type_name :: "string \<Rightarrow> (string, string) outcome"
  cedar_new_record :: "(string \<times> restricted_expression) list \<Rightarrow> (restricted_expression, string) outcome"
  cedar_entity_new :: "entity_uid \<Rightarrow> (string \<rightharpoonup> restricted_expression) \<Rightarrow> ('e, string) outcome"
  cedar_context_from_pairs :: "(string \<times> restricted_expression) list \<Rightarrow> ('c, string) outcome"
  cedar_entities_from_entities :: "'e list \<Rightarrow> 's \<Rightarrow> ('es, string) outcome"
  cedar_request_new :: "entity_uid \<Rightarrow> entity_uid \<Rightarrow> entity_uid \<Rightarrow> 'c \<Rightarrow> 's \<Rightarrow> ('r, string) outcome"
  cedar_is_authorized :: "'r \<Rightarrow> 'p \<Rightarrow> 'es \<Rightarrow> cedar_response"
  cedar_annotation :: "'p \<Rightarrow> string \<Rightarrow> string \<Rightarrow> string option"

definition NAMESPACE :: string where
  "NAMESPACE = ''ZeroSecret''"

definition CEDAR_ENGINE_VERSION :: string where
  "CEDAR_ENGINE_VERSION = ''4.12.0''"

subsection \<open>Translation of a request\<close>

definition entity_uid_new ::
  "('s, 'p, 'e, 'es, 'c, 'r) cedar \<Rightarrow> string \<Rightarrow> string \<Rightarrow> (entity_uid, string) outcome" where
  "entity_uid_new C type_name i =
     and_then (map_err (\<lambda>e. ''type_entite_invalide:'' @ e)
       (cedar_parse_type_name C (NAMESPACE @ ''::'' @ type_name))) (\<lambda>tn.
       Ok \<lparr>uid_type_name = tn, uid_id = i\<rparr>)"

definition auth_level_to_str :: "int \<Rightarrow> string" where
  "auth_level_to_str aal =
     (if aal = 1 then ''AAL1'' else if aal = 2 then ''AAL2'' else if aal = 3 then ''AAL3'' else '''')"

definition principal_entity ::
  "('s, 'p, 'e, 'es, 'c, 'r) cedar \<Rightarrow> principal \<Rightarrow> ('e, string) outcome" where
  "principal_entity C p =
     and_then (entity_uid_new C ''Principal'' (pr_subject_id p)) (\<lambda>uid.
     and_then (ok_or ''principal_authenticated_at_absent'' (pr_authenticated_at p)) (\<lambda>authenticated_at.
       map_err (\<lambda>e. ''entite_principal_invalide:'' @ e)
         (cedar_entity_new C uid
            [''subject_id'' \<mapsto> RString (pr_subject_id p),
             ''aal'' \<mapsto> RString (auth_level_to_str (pr_aal p)),
             ''auth_method'' \<mapsto> RString (pr_auth_method p),
             ''authenticated_at'' \<mapsto> RLong (pt_seconds authenticated_at),
             ''roles'' \<mapsto> RSet (map RString (pr_roles p)),
             ''authority_domain'' \<mapsto> RString (pr_authority_domain p)])))"

definition database_entity ::
  "('s, 'p, 'e, 'es, 'c, 'r) cedar \<Rightarrow> resource \<Rightarrow> ('e, string) outcome" where
  "database_entity C r =
     and_then (entity_uid_new C ''Database'' (rs_id r)) (\<lambda>uid.
     and_then (ok_or ''resource_attribute_environment_absent'' (map_of (rs_attributes r) ''environment'')) (\<lambda>environment.
       map_err (\<lambda>e. ''entite_resource_invalide:'' @ e)
         (cedar_entity_new C uid
            [''authority_domain'' \<mapsto> RString (rs_authority_domain r),
             ''environment'' \<mapsto> RString environment])))"

definition approval_record ::
  "('s, 'p, 'e, 'es, 'c, 'r) cedar \<Rightarrow> approval \<Rightarrow> (restricted_expression, string) outcome" where
  "approval_record C a =
     and_then (ok_or ''approbation_approved_at_absente'' (ap_approved_at a)) (\<lambda>approved_at.
       map_err (\<lambda>e. ''contexte_approbation_invalide:'' @ e)
         (cedar_new_record C
            [(''approver_id'', RString (ap_approver_id a)),
             (''approved_at'', RLong (pt_seconds approved_at))]))"

definition build_context ::
  "('s, 'p, 'e, 'es, 'c, 'r) cedar \<Rightarrow> request_context \<Rightarrow> ('c, string) outcome" where
  "build_context C c =
     and_then (ok_or ''context_requested_at_absent'' (cx_requested_at c)) (\<lambda>requested_at.
     and_then (ok_or ''context_posture_absent'' (cx_posture c)) (\<lambda>posture.
     and_then (ok_or ''posture_evaluated_at_absent'' (dp_evaluated_at posture)) (\<lambda>evaluated_at.
     and_then (map_err (\<lambda>e. ''contexte_posture_invalide:'' @ e)
       (cedar_new_record C
          [(''managed'', RBool (dp_managed posture)),
           (''disk_encrypted'', RBool (dp_disk_encrypted posture)),
           (''agent_version'', RString (dp_agent_version posture)),
           (''evaluated_at'', RLong (pt_seconds evaluated_at))])) (\<lambda>posture_record.
     and_then (collect_results (map (approval_record C) (cx_approvals c))) (\<lambda>approvals.
       map_err (\<lambda>e. ''contexte_invalide:'' @ e)
         (cedar_context_from_pairs C
            [(''requested_at'', RLong (pt_seconds requested_at)),
             (''source_network'', RString (cx_source_network c)),
             (''posture'', posture_record),
             (''ticket_ref'', RString (cx_ticket_ref c)),
             (''justification'', RString (cx_justification c)),
             (''approvals'', RSet approvals)]))))))"

definition translate ::
  "('s, 'p, 'e, 'es, 'c, 'r) cedar \<Rightarrow> decision_request \<Rightarrow> 's \<Rightarrow> ('r \<times> 'es, string) outcome" where
  "translate C request schema =
     and_then (ok_or ''principal_absent'' (dr_principal request)) (\<lambda>principal.
     and_then (ok_or ''resource_absent'' (dr_resource request)) (\<lambda>resource.
     and_then (ok_or ''action_absent'' (dr_action request)) (\<lambda>action.
     and_then (ok_or ''context_absent'' (dr_context request)) (\<lambda>ctx.
     if rs_type resource \<noteq> ''Database'' then Err (''resource_type_inconnu:'' @ rs_type resource)
     else
     and_then (entity_uid_new C ''Principal'' (pr_subject_id principal)) (\<lambda>principal_uid.
     and_then (principal_entity C principal) (\<lambda>principal_ent.
     and_then (entity_uid_new C ''Database'' (rs_id resource)) (\<lambda>resource_uid.
     and_then (database_entity C resource) (\<lambda>resource_ent.
     and_then (entity_uid_new C ''Action'' (am_verb action)) (\<lambda>action_uid.
     and_then (build_context C ctx) (\<lambda>cedar_context.
     and_then (map_err (\<lambda>e. ''entites_invalides:'' @ e)
       (cedar_entities_from_entities C [principal_ent, resource_ent] schema)) (\<lambda>entities.
     and_then (map_err (\<lambda>e. ''requete_invalide:'' @ e)
       (cedar_request_new C principal_uid action_uid resource_uid cedar_context schema)) (\<lambda>cedar_request.
       Ok (cedar_request, entities)))))))))))))"

subsection \<open>The JSON form of a request\<close>

definition json_seconds :: "proto_timestamp option \<Rightarrow> json" where
  "json_seconds t = json_of_option (\<lambda>t. json_of_i64 (pt_seconds t)) t"

definition principal_json :: "principal \<Rightarrow> json" where
  "principal_json p =
     JObject
       [(''subject_id'', JString (pr_subject_id p)),
        (''aal'', json_of_i64 (pr_aal p)),
        (''auth_method'', JString (pr_auth_method p)),
        (''authenticated_at'', json_seconds (pr_authenticated_at p)),
        (''roles'', JArray (map JString (pr_roles p))),
        (''authority_domain'', JString (pr_authority_domain p))]"

definition resource_json :: "resource \<Rightarrow> json" where
  "resource_json r =
     JObject
       [(''type'', JString (rs_type r)),
        (''id'', JString (rs_id r)),
        (''authority_domain'', JString (rs_authority_domain r)),
        (''attributes'', JObject (map (\<lambda>(k, v). (k, JString v)) (rs_attributes r)))]"

definition posture_json :: "device_posture \<Rightarrow> json" where
  "posture_json p =
     JObject
       [(''managed'', JBool (dp_managed p)),
        (''disk_encrypted'', JBool (dp_disk_encrypted p)),
        (''agent_version'', JString (dp_agent_version p)),
        (''evaluated_at'', json_seconds (dp_evaluated_at p))]"

definition approval_json :: "approval \<Rightarrow> json" where
  "approval_json a =
     JObject
       [(''approver_id'', JString (ap_approver_id a)),
        (''approved_at'', json_seconds (ap_approved_at a))]"

definition context_json :: "request_context \<Rightarrow> json" where
  "context_json c =
     JObject
       [(''requested_at'', json_seconds (cx_requested_at c)),
        (''source_network'', JString (cx_source_network c)),
        (''posture'', json_of_option posture_json (cx_posture c)),
        (''ticket_ref'', JString (cx_ticket_ref c)),
        (''justification'', JString (cx_justification c)),
        (''approvals'', JArray (map approval_json (cx_approvals c)))]"

definition request_to_json :: "decision_request \<Rightarrow> json" where
  "request_to_json r =
     JObject
       [(''request_id'', JString (dr_request_id r)),
        (''principal'', json_of_option principal_json (dr_principal r)),
        (''action'', json_of_option (\<lambda>a. JObject [(''verb'', JString (am_verb a))]) (dr_action r)),
        (''resource'', json_of_option resource_json (dr_resource r)),
        (''context'', json_of_option context_json (dr_context r)),
        (''policy_version'', JString (dr_policy_version r))]"

subsection \<open>The decision point\<close>

record ('s, 'p) pdp =
  pdp_schema :: 's
  pdp_policies :: 'p
  pdp_policy_version :: string

datatype 'io pdp_load_error =
    ReadSchema 'io
  | SchemaError string
  | ReadCorpus 'io
  | PoliciesError string
  | BindingError corpus_binding_error

text \<open>
  An entry of the policies directory: the file name, whether it is UTF-8, and the result of reading
  the file. \<open>Path::extension\<close> is what follows the last dot, unless the name has no other dot than
  a leading one.
\<close>

record 'io dir_entry =
  dn_file_name :: string
  dn_utf8 :: bool
  dn_contents :: "(string, 'io) outcome"

definition path_extension :: "string \<Rightarrow> string option" where
  "path_extension name =
     (let after = takeWhile (\<lambda>c. c \<noteq> CHR ''.'') (rev name);
          before = drop (Suc (length after)) (rev name)
      in if name = ''..'' \<or> length after = length name \<or> before = [] then None else Some (rev after))"

fun read_cedar_files ::
  "('io dir_entry, 'io) outcome list \<Rightarrow> ((string \<times> string) list, 'io pdp_load_error) outcome" where
  "read_cedar_files [] = Ok []"
| "read_cedar_files (entry # entries) =
     and_then (map_err ReadCorpus entry) (\<lambda>f.
       if path_extension (dn_file_name f) \<noteq> Some ''cedar'' then read_cedar_files entries
       else and_then (map_err ReadCorpus (dn_contents f)) (\<lambda>contents.
         let relative = (if dn_utf8 f then dn_file_name f else '''')
         in and_then (read_cedar_files entries) (\<lambda>files. Ok ((relative, contents) # files))))"

fun join_lines :: "string list \<Rightarrow> string" where
  "join_lines [] = []"
| "join_lines [s] = s"
| "join_lines (s # t # ss) = s @ [CHR 0x0A] @ join_lines (t # ss)"

definition pdp_load ::
  "'x zs_ext_scheme \<Rightarrow> ('s, 'p, 'e, 'es, 'c, 'r) cedar \<Rightarrow> (string, 'io) outcome \<Rightarrow>
     (('io dir_entry, 'io) outcome list, 'io) outcome \<Rightarrow> (('s, 'p) pdp, 'io pdp_load_error) outcome" where
  "pdp_load X C schema_file policies_dir =
     and_then (map_err ReadSchema schema_file) (\<lambda>schema_json.
     and_then (map_err SchemaError (cedar_schema_from_json_str C schema_json)) (\<lambda>schema.
     and_then (map_err ReadCorpus policies_dir) (\<lambda>entries.
     and_then (read_cedar_files entries) (\<lambda>files.
     let cedar_files = sort_key (\<lambda>f. as_bytes (fst f)) files in
     if cedar_files = [] then Err (PoliciesError ''aucun fichier .cedar dans le corpus'')
     else
     and_then (map_err PoliciesError
       (cedar_parse_policies C (join_lines (map snd cedar_files)))) (\<lambda>policies.
     and_then (map_err BindingError (bind_policy_corpus X schema_json CEDAR_ENGINE_VERSION
       (map (\<lambda>(name, contents). \<lparr>cf_relative_path = name, cf_contents = contents\<rparr>) cedar_files))) (\<lambda>binding.
       Ok \<lparr>pdp_schema = schema, pdp_policies = policies,
           pdp_policy_version = binding_to_hex_string binding\<rparr>))))))"

definition deny :: "string list \<Rightarrow> bytes \<Rightarrow> string \<Rightarrow> decision_response" where
  "deny reasons decision_hash policy_version =
     \<lparr>dres_effect = effect_as_i32 EffectDeny, dres_reasons = reasons, dres_max_ttl = None,
      dres_constraints = [], dres_decision_hash = decision_hash,
      dres_policy_version = policy_version, dres_issued_at = None, dres_decision_signature = [],
      dres_decision_signature_key_id = []\<rparr>"

definition pdp_decide ::
  "'x zs_ext_scheme \<Rightarrow> ('s, 'p, 'e, 'es, 'c, 'r) cedar \<Rightarrow> ('s, 'p) pdp \<Rightarrow> decision_request \<Rightarrow>
     (decision_response, 'err) outcome" where
  "pdp_decide X C pdp request =
     and_then (bind_request X (request_to_json request)) (\<lambda>binding.
     let decision_hash = db_digest binding in
     if dr_policy_version request \<noteq> [] \<and> dr_policy_version request \<noteq> pdp_policy_version pdp
     then Ok (deny [''policy_version_indisponible''] decision_hash (pdp_policy_version pdp))
     else (case translate C request (pdp_schema pdp) of
        Panic \<Rightarrow> Panic
      | Err reason \<Rightarrow> Ok (deny [reason] decision_hash (pdp_policy_version pdp))
      | Ok (cedar_request, entities) \<Rightarrow>
          (let response = cedar_is_authorized C cedar_request (pdp_policies pdp) entities;
               effect = (case cr_decision response of CedarAllow \<Rightarrow> EffectAllow | CedarDeny \<Rightarrow> EffectDeny);
               reasons = map (\<lambda>i. case cedar_annotation C (pdp_policies pdp) i ''id'' of
                                    Some s \<Rightarrow> s | None \<Rightarrow> i) (cr_reasons response)
           in Ok \<lparr>dres_effect = effect_as_i32 effect, dres_reasons = reasons, dres_max_ttl = None,
                  dres_constraints = [], dres_decision_hash = decision_hash,
                  dres_policy_version = pdp_policy_version pdp, dres_issued_at = None,
                  dres_decision_signature = [], dres_decision_signature_key_id = []\<rparr>)))"

section \<open>Properties\<close>

subsection \<open>Failing closed\<close>

text \<open>What a request must carry to be translated.\<close>

definition request_complete :: "decision_request \<Rightarrow> bool" where
  "request_complete r \<longleftrightarrow>
     (case (dr_principal r, dr_resource r, dr_action r, dr_context r) of
        (Some p, Some res, Some a, Some c) \<Rightarrow>
          rs_type res = ''Database'' \<and> ''environment'' \<in> fst ` set (rs_attributes res) \<and>
          pr_authenticated_at p \<noteq> None \<and> cx_requested_at c \<noteq> None \<and>
          (\<exists>po. cx_posture c = Some po \<and> dp_evaluated_at po \<noteq> None) \<and>
          (\<forall>ap \<in> set (cx_approvals c). ap_approved_at ap \<noteq> None)
      | _ \<Rightarrow> False)"

lemma principal_entity_Ok: "principal_entity C p = Ok e \<Longrightarrow> pr_authenticated_at p \<noteq> None"
  by (auto simp: principal_entity_def outcome_simps)

lemma database_entity_Ok: "database_entity C r = Ok e \<Longrightarrow> ''environment'' \<in> fst ` set (rs_attributes r)"
  by (auto simp: database_entity_def outcome_simps dest!: map_of_SomeD intro: rev_image_eqI)

lemma build_context_Ok:
  assumes "build_context C c = Ok k"
  shows "cx_requested_at c \<noteq> None" "\<exists>po. cx_posture c = Some po \<and> dp_evaluated_at po \<noteq> None"
    "\<forall>a \<in> set (cx_approvals c). ap_approved_at a \<noteq> None"
proof -
  from assms obtain rs where rs: "map (approval_record C) (cx_approvals c) = map Ok rs"
    and o: "cx_requested_at c \<noteq> None" "\<exists>po. cx_posture c = Some po \<and> dp_evaluated_at po \<noteq> None"
    unfolding build_context_def by (auto simp: outcome_simps collect_results_eq_Ok)
  have "ap_approved_at a \<noteq> None" if "a \<in> set (cx_approvals c)" for a
  proof -
    have "approval_record C a \<in> set (map (approval_record C) (cx_approvals c))" using that by simp
    then obtain e where "approval_record C a = Ok e" unfolding rs by auto
    then show ?thesis by (auto simp: approval_record_def outcome_simps)
  qed
  with o show "cx_requested_at c \<noteq> None" "\<exists>po. cx_posture c = Some po \<and> dp_evaluated_at po \<noteq> None"
    "\<forall>a \<in> set (cx_approvals c). ap_approved_at a \<noteq> None" by blast+
qed

lemma translate_Ok:
  assumes "translate C r schema = Ok q"
  shows "request_complete r"
proof -
  from assms obtain p res a c pe re cc where r: "dr_principal r = Some p" "dr_resource r = Some res" "dr_action r = Some a" "dr_context r = Some c"
    "rs_type res = ''Database''"
    and e: "principal_entity C p = Ok pe" "database_entity C res = Ok re" "build_context C c = Ok cc"
    unfolding translate_def outcome_simps not_not by blast
  show ?thesis
    unfolding request_complete_def r option.case prod.case
    using r(5) principal_entity_Ok [OF e(1)] database_entity_Ok [OF e(2)] build_context_Ok [OF e(3)] by blast
qed

definition version_served :: "('s, 'p) pdp \<Rightarrow> decision_request \<Rightarrow> bool" where
  "version_served pdp r \<longleftrightarrow> dr_policy_version r = [] \<or> dr_policy_version r = pdp_policy_version pdp"

lemma pdp_decide_allow_iff:
  assumes "pdp_decide X C pdp r = Ok resp"
  shows "dres_effect resp = effect_as_i32 EffectAllow \<longleftrightarrow>
    version_served pdp r \<and> (\<exists>q es. translate C r (pdp_schema pdp) = Ok (q, es) \<and>
      cr_decision (cedar_is_authorized C q (pdp_policies pdp) es) = CedarAllow)"
    and "dres_effect resp \<noteq> effect_as_i32 EffectAllow \<Longrightarrow> dres_effect resp = effect_as_i32 EffectDeny"
  using assms unfolding pdp_decide_def version_served_def
  by (auto simp: outcome_simps Let_def deny_def split: if_splits outcome.splits prod.splits cedar_decision.splits)

subsection \<open>Always an answer\<close>

text \<open>The operations of the Cedar engine return a result or an error.\<close>

definition cedar_returns :: "('s, 'p, 'e, 'es, 'c, 'r) cedar \<Rightarrow> bool" where
  "cedar_returns C \<longleftrightarrow>
     (\<forall>n. cedar_parse_type_name C n \<noteq> Panic) \<and> (\<forall>kvs. cedar_new_record C kvs \<noteq> Panic) \<and>
     (\<forall>u m. cedar_entity_new C u m \<noteq> Panic) \<and> (\<forall>kvs. cedar_context_from_pairs C kvs \<noteq> Panic) \<and>
     (\<forall>es s. cedar_entities_from_entities C es s \<noteq> Panic) \<and>
     (\<forall>p a r c s. cedar_request_new C p a r c s \<noteq> Panic)"

lemma collect_results_not_Panic: "(\<And>x. f x \<noteq> Panic) \<Longrightarrow> collect_results (map f xs) \<noteq> Panic"
  by (induction xs) (auto simp: outcome_simps)

lemma approval_record_not_Panic: "cedar_returns C \<Longrightarrow> approval_record C a \<noteq> Panic"
  by (auto simp: approval_record_def cedar_returns_def outcome_simps)

lemma translate_not_Panic:
  assumes "cedar_returns C"
  shows "translate C r schema \<noteq> Panic"
proof -
  have "build_context C c \<noteq> Panic" for c
    using assms collect_results_not_Panic [of "approval_record C"] approval_record_not_Panic [OF assms]
    by (auto simp: build_context_def cedar_returns_def outcome_simps)
  then show ?thesis
    using assms by (auto simp: translate_def principal_entity_def database_entity_def entity_uid_new_def
        cedar_returns_def outcome_simps)
qed

text \<open>The typing invariant of a message: the widths of its integers, the keys of its map.\<close>

definition i64_ok :: "int \<Rightarrow> bool" where
  "i64_ok i \<longleftrightarrow> - (2 ^ 63) \<le> i \<and> i < 2 ^ 63"

definition time_ok :: "proto_timestamp option \<Rightarrow> bool" where
  "time_ok t \<longleftrightarrow> pred_option (\<lambda>t. i64_ok (pt_seconds t)) t"

definition request_typed :: "decision_request \<Rightarrow> bool" where
  "request_typed r \<longleftrightarrow>
     pred_option (\<lambda>p. i64_ok (pr_aal p) \<and> time_ok (pr_authenticated_at p)) (dr_principal r) \<and>
     pred_option (\<lambda>res. distinct (map fst (rs_attributes res))) (dr_resource r) \<and>
     pred_option (\<lambda>c. time_ok (cx_requested_at c) \<and>
       pred_option (\<lambda>p. time_ok (dp_evaluated_at p)) (cx_posture c) \<and>
       list_all (\<lambda>a. time_ok (ap_approved_at a)) (cx_approvals c)) (dr_context r)"

lemma json_of_i64_wf: "i64_ok i \<Longrightarrow> json_wf (json_of_i64 i)"
  by (simp add: json_of_i64_def i64_ok_def)

lemma json_seconds_wf: "time_ok t \<Longrightarrow> json_wf (json_seconds t)"
  by (cases t) (simp_all add: json_seconds_def time_ok_def json_of_i64_wf)

lemma json_depth_scalar [simp]: "json_depth (json_of_i64 i) = 0" "json_depth (json_seconds t) = 0"
  by (simp_all add: json_of_i64_def json_seconds_def) (cases t; simp add: json_of_i64_def)

text \<open>A document of bounded depth: the bound of an object or an array is one more than its parts'.\<close>

lemma json_depth_object_le: "\<forall>kv \<in> set kvs. json_depth (snd kv) \<le> n \<Longrightarrow> json_depth (JObject kvs) \<le> Suc n"
  by (auto simp: Max_le_iff)

lemma json_depth_array_le: "\<forall>v \<in> set vs. json_depth v \<le> n \<Longrightarrow> json_depth (JArray vs) \<le> Suc n"
  by (auto simp: Max_le_iff)

lemma principal_json_ok:
  assumes "i64_ok (pr_aal p)" "time_ok (pr_authenticated_at p)"
  shows "json_wf (principal_json p)" "json_depth (principal_json p) \<le> 2"
  unfolding principal_json_def numeral_2_eq_2
  by (use assms in \<open>simp add: json_of_i64_wf json_seconds_wf list_all_iff\<close>)
    (rule json_depth_object_le, simp add: image_image)

lemma resource_json_ok:
  assumes "distinct (map fst (rs_attributes r))"
  shows "json_wf (resource_json r)" "json_depth (resource_json r) \<le> 2"
  unfolding resource_json_def numeral_2_eq_2
  by (use assms in \<open>simp add: list_all_iff case_prod_beta comp_def\<close>)
    (rule json_depth_object_le, simp add: image_image case_prod_beta)

lemma posture_json_ok:
  assumes "time_ok (dp_evaluated_at p)"
  shows "json_wf (posture_json p)" "json_depth (posture_json p) \<le> 1"
  using assms by (simp_all add: posture_json_def json_seconds_wf)

lemma approval_json_ok:
  assumes "time_ok (ap_approved_at a)"
  shows "json_wf (approval_json a)" "json_depth (approval_json a) \<le> 1"
  using assms by (simp_all add: approval_json_def json_seconds_wf)

lemma context_json_ok:
  assumes "time_ok (cx_requested_at c)" "pred_option (\<lambda>p. time_ok (dp_evaluated_at p)) (cx_posture c)"
    "list_all (\<lambda>a. time_ok (ap_approved_at a)) (cx_approvals c)"
  shows "json_wf (context_json c)" "json_depth (context_json c) \<le> 3"
proof -
  have p: "json_wf (json_of_option posture_json (cx_posture c))"
    "json_depth (json_of_option posture_json (cx_posture c)) \<le> 1"
    using assms(2) posture_json_ok by (cases "cx_posture c"; simp)+
  have a: "list_all json_wf (map approval_json (cx_approvals c))"
    "json_depth (JArray (map approval_json (cx_approvals c))) \<le> Suc 1"
    using assms(3) approval_json_ok by (auto simp: list_all_iff intro!: json_depth_array_le)
  show "json_wf (context_json c)" using assms(1) p(1) a(1) by (simp add: context_json_def json_seconds_wf)
  show "json_depth (context_json c) \<le> 3"
    unfolding context_json_def numeral_3_eq_3
    by (rule json_depth_object_le) (use p(2) a(2) in \<open>auto simp del: json_depth.simps(1)\<close>)
qed

lemma request_to_json_ok:
  assumes "request_typed r"
  shows "json_wf (request_to_json r)" "json_depth (request_to_json r) \<le> 127"
proof -
  have p: "json_wf (json_of_option principal_json (dr_principal r))"
    "json_depth (json_of_option principal_json (dr_principal r)) \<le> 3"
    using assms principal_json_ok by (cases "dr_principal r"; fastforce simp: request_typed_def)+
  have res: "json_wf (json_of_option resource_json (dr_resource r))"
    "json_depth (json_of_option resource_json (dr_resource r)) \<le> 3"
    using assms resource_json_ok by (cases "dr_resource r"; fastforce simp: request_typed_def)+
  have c: "json_wf (json_of_option context_json (dr_context r))"
    "json_depth (json_of_option context_json (dr_context r)) \<le> 3"
    using assms context_json_ok by (cases "dr_context r"; fastforce simp: request_typed_def)+
  let ?act = "json_of_option (\<lambda>a. JObject [(''verb'', JString (am_verb a))]) (dr_action r)"
  have a: "json_wf ?act" "json_depth ?act \<le> 3" by (cases "dr_action r"; simp)+
  show "json_wf (request_to_json r)" using p(1) res(1) c(1) a(1) by (simp add: request_to_json_def)
  have "json_depth (request_to_json r) \<le> Suc 3"
    unfolding request_to_json_def by (rule json_depth_object_le) (use p(2) res(2) c(2) a(2) in auto)
  then show "json_depth (request_to_json r) \<le> 127" by simp
qed

lemma bind_request_Ok:
  "request_typed r \<Longrightarrow> bind_request X (request_to_json r) =
     Ok \<lparr>db_suite = BINDING_SUITE_V1, db_digest = ext_sha256 X
       (as_bytes (BINDING_SUITE_V1 @ ''/request'') @ [0] @ ext_to_vec X (sort_json (request_to_json r)))\<rparr>"
  using json_wf_no_float [OF request_to_json_ok(1)]
  by (simp add: bind_request_def canonical_bytes_eq sha256_def)

lemma pdp_decide_Ok:
  assumes "cedar_returns C" "request_typed r"
  shows "\<exists>resp. pdp_decide X C pdp r = (Ok resp :: (decision_response, 'err) outcome)"
proof -
  obtain b where "bind_request X (request_to_json r) = (Ok b :: (decision_binding, 'err) outcome)"
    using bind_request_Ok [OF assms(2)] by blast
  then show ?thesis
    using translate_not_Panic [OF assms(1), of r "pdp_schema pdp"]
    by (auto simp: pdp_decide_def Let_def split: outcome.splits prod.splits)
qed

text \<open>What every response carries, whatever the decision.\<close>

lemma pdp_decide_fields:
  assumes "pdp_decide X C pdp r = (Ok resp :: (decision_response, 'err) outcome)"
  shows "dres_policy_version resp = pdp_policy_version pdp"
    and "\<exists>b. bind_request X (request_to_json r) = (Ok b :: (decision_binding, 'err) outcome) \<and>
      dres_decision_hash resp = db_digest b"
    and "dres_decision_signature resp = []" "dres_issued_at resp = None" "dres_max_ttl resp = None"
      "dres_constraints resp = []"
  using assms unfolding pdp_decide_def
  by (auto simp: outcome_simps Let_def deny_def split: if_splits outcome.splits prod.splits)

subsection \<open>What the decision hash binds\<close>

text \<open>
  The part of a request that the hash covers: everything but the nanoseconds, the signatures of
  the approvals and the order of iteration of the attributes.
\<close>

definition bound_time :: "proto_timestamp option \<Rightarrow> proto_timestamp option" where
  "bound_time t = map_option (\<lambda>t. t\<lparr>pt_nanos := 0\<rparr>) t"

definition bound_principal :: "principal \<Rightarrow> principal" where
  "bound_principal p = p\<lparr>pr_authenticated_at := bound_time (pr_authenticated_at p)\<rparr>"

definition bound_resource :: "resource \<Rightarrow> resource" where
  "bound_resource r = r\<lparr>rs_attributes := sort_key (\<lambda>kv. as_bytes (fst kv)) (rs_attributes r)\<rparr>"

definition bound_posture :: "device_posture \<Rightarrow> device_posture" where
  "bound_posture p = p\<lparr>dp_evaluated_at := bound_time (dp_evaluated_at p)\<rparr>"

definition bound_approval :: "approval \<Rightarrow> approval" where
  "bound_approval a = a\<lparr>ap_approved_at := bound_time (ap_approved_at a), ap_signature := []\<rparr>"

definition bound_context :: "request_context \<Rightarrow> request_context" where
  "bound_context c = c\<lparr>cx_requested_at := bound_time (cx_requested_at c),
     cx_posture := map_option bound_posture (cx_posture c),
     cx_approvals := map bound_approval (cx_approvals c)\<rparr>"

definition bound_part :: "decision_request \<Rightarrow> decision_request" where
  "bound_part r = r\<lparr>dr_principal := map_option bound_principal (dr_principal r),
     dr_resource := map_option bound_resource (dr_resource r),
     dr_context := map_option bound_context (dr_context r)\<rparr>"

lemma sort_json_object_field:
  assumes "sort_json (JObject kvs) = sort_json (JObject ws)" "distinct (map fst kvs)" "distinct (map fst ws)"
  shows "map_option sort_json (map_of kvs k) = map_option sort_json (map_of ws k)"
proof -
  have "map_of (map (\<lambda>kv. (fst kv, sort_json (snd kv))) (sort_key (\<lambda>kv. as_bytes (fst kv)) kvs)) k =
      map_of (map (\<lambda>kv. (fst kv, sort_json (snd kv))) (sort_key (\<lambda>kv. as_bytes (fst kv)) ws)) k"
    using assms(1) by simp
  then show ?thesis by (simp only: map_of_sort_json [OF assms(2)] map_of_sort_json [OF assms(3)] comp_apply)
qed

lemma json_of_i64_inject: "i64_ok i \<Longrightarrow> i64_ok j \<Longrightarrow> json_of_i64 i = json_of_i64 j \<longleftrightarrow> i = j"
proof -
  assume ij: "i64_ok i" "i64_ok j"
  have "uint (word_of_int k :: u64) = k" if "0 \<le> k" "i64_ok k" for k
    using that by (simp add: uint_word_of_int i64_ok_def)
  then have "word_of_int i = (word_of_int j :: u64) \<longleftrightarrow> i = j" if "0 \<le> i" "0 \<le> j"
    using ij that by metis
  then show ?thesis by (auto simp: json_of_i64_def)
qed

lemma sort_json_i64 [simp]: "sort_json (json_of_i64 i) = json_of_i64 i"
  by (simp add: json_of_i64_def)

lemma sort_json_seconds [simp]: "sort_json (json_seconds t) = json_seconds t"
  by (cases t) (simp_all add: json_seconds_def)

lemma json_seconds_bound:
  "time_ok t \<Longrightarrow> time_ok u \<Longrightarrow> json_seconds t = json_seconds u \<Longrightarrow> bound_time t = bound_time u"
proof (cases t; cases u)
  fix a b assume h: "time_ok t" "time_ok u" "json_seconds t = json_seconds u" "t = Some a" "u = Some b"
  then have "pt_seconds a = pt_seconds b" by (simp add: json_seconds_def time_ok_def json_of_i64_inject)
  with h show "bound_time t = bound_time u" by (cases a, cases b) (simp add: bound_time_def)
qed (auto simp: json_seconds_def json_of_i64_def bound_time_def split: if_splits)

lemma principal_json_bound:
  assumes "sort_json (principal_json p) = sort_json (principal_json q)"
    and "i64_ok (pr_aal p)" "i64_ok (pr_aal q)" "time_ok (pr_authenticated_at p)" "time_ok (pr_authenticated_at q)"
  shows "bound_principal p = bound_principal q"
proof -
  note f = sort_json_object_field [OF assms(1) [unfolded principal_json_def]]
  have "bound_time (pr_authenticated_at p) = bound_time (pr_authenticated_at q)"
    by (rule json_seconds_bound) (use f [of "''authenticated_at''"] assms in simp_all)
  moreover have "pr_aal p = pr_aal q"
    using f [of "''aal''"] assms(2,3) by (simp add: json_of_i64_inject)
  moreover have "pr_roles p = pr_roles q"
    using f [of "''roles''"] by (simp add: inj_map_eq_map inj_def comp_def)
  moreover have "pr_subject_id p = pr_subject_id q" "pr_auth_method p = pr_auth_method q"
    "pr_authority_domain p = pr_authority_domain q"
    using f [of "''subject_id''"] f [of "''auth_method''"] f [of "''authority_domain''"] by simp_all
  ultimately show ?thesis by (cases p, cases q) (simp add: bound_principal_def)
qed

lemma sort_json_attributes:
  "sort_json (JObject (map (\<lambda>(k, v). (k, JString v)) kvs)) =
     JObject (map (\<lambda>(k, v). (k, JString v)) (sort_key (\<lambda>kv. as_bytes (fst kv)) kvs))"
  using map_sort_json_sort_key [of JString as_bytes kvs, symmetric] by (simp add: case_prod_beta' comp_def)

lemma resource_json_bound:
  assumes "sort_json (resource_json p) = sort_json (resource_json q)"
  shows "bound_resource p = bound_resource q"
proof -
  note f = sort_json_object_field [OF assms(1) [unfolded resource_json_def]]
  have inj: "inj (\<lambda>(k :: string, v). (k, JString v))" by (auto simp: inj_def)
  have "sort_json (JObject (map (\<lambda>(k, v). (k, JString v)) (rs_attributes p))) =
      sort_json (JObject (map (\<lambda>(k, v). (k, JString v)) (rs_attributes q)))"
    using f [of "''attributes''"] by simp
  then have "sort_key (\<lambda>kv. as_bytes (fst kv)) (rs_attributes p) = sort_key (\<lambda>kv. as_bytes (fst kv)) (rs_attributes q)"
    unfolding sort_json_attributes using inj by (simp add: inj_map_eq_map)
  moreover have "rs_type p = rs_type q" "rs_id p = rs_id q" "rs_authority_domain p = rs_authority_domain q"
    using f [of "''type''"] f [of "''id''"] f [of "''authority_domain''"] by simp_all
  ultimately show ?thesis by (cases p, cases q) (simp add: bound_resource_def)
qed

lemma posture_json_bound:
  assumes "sort_json (posture_json p) = sort_json (posture_json q)"
    and "time_ok (dp_evaluated_at p)" "time_ok (dp_evaluated_at q)"
  shows "bound_posture p = bound_posture q"
proof -
  note f = sort_json_object_field [OF assms(1) [unfolded posture_json_def]]
  have "bound_time (dp_evaluated_at p) = bound_time (dp_evaluated_at q)"
    by (rule json_seconds_bound) (use f [of "''evaluated_at''"] assms in simp_all)
  moreover have "dp_managed p = dp_managed q" "dp_disk_encrypted p = dp_disk_encrypted q"
    "dp_agent_version p = dp_agent_version q"
    using f [of "''managed''"] f [of "''disk_encrypted''"] f [of "''agent_version''"] by simp_all
  ultimately show ?thesis by (cases p, cases q) (simp add: bound_posture_def)
qed

lemma approval_json_bound:
  assumes "sort_json (approval_json p) = sort_json (approval_json q)"
    and "time_ok (ap_approved_at p)" "time_ok (ap_approved_at q)"
  shows "bound_approval p = bound_approval q"
proof -
  note f = sort_json_object_field [OF assms(1) [unfolded approval_json_def]]
  have "bound_time (ap_approved_at p) = bound_time (ap_approved_at q)"
    by (rule json_seconds_bound) (use f [of "''approved_at''"] assms in simp_all)
  moreover have "ap_approver_id p = ap_approver_id q" using f [of "''approver_id''"] by simp
  ultimately show ?thesis by (cases p, cases q) (simp add: bound_approval_def)
qed

lemma json_of_option_bound:
  assumes "sort_json (json_of_option f x) = sort_json (json_of_option f y)"
    and "\<And>a. sort_json (f a) \<noteq> JNull" and "pred_option P x" "pred_option P y"
    and "\<And>a b. sort_json (f a) = sort_json (f b) \<Longrightarrow> P a \<Longrightarrow> P b \<Longrightarrow> g a = g b"
  shows "map_option g x = map_option g y"
proof (cases x; cases y)
  fix a b assume "x = Some a" "y = Some b"
  with assms(1,3,4) show "map_option g x = map_option g y" using assms(5) [of a b] by simp
qed (use assms(1) assms(2) [symmetric] assms(2) in simp_all)

lemma context_json_bound:
  assumes "sort_json (context_json p) = sort_json (context_json q)"
    and "time_ok (cx_requested_at p)" "time_ok (cx_requested_at q)"
    and po: "pred_option (\<lambda>p. time_ok (dp_evaluated_at p)) (cx_posture p)"
      "pred_option (\<lambda>p. time_ok (dp_evaluated_at p)) (cx_posture q)"
    and ap: "list_all (\<lambda>a. time_ok (ap_approved_at a)) (cx_approvals p)"
      "list_all (\<lambda>a. time_ok (ap_approved_at a)) (cx_approvals q)"
  shows "bound_context p = bound_context q"
proof -
  note f = sort_json_object_field [OF assms(1) [unfolded context_json_def]]
  have "sort_json (json_of_option posture_json (cx_posture p)) = sort_json (json_of_option posture_json (cx_posture q))"
    using f [of "''posture''"] by simp
  then have "map_option bound_posture (cx_posture p) = map_option bound_posture (cx_posture q)"
    by (rule json_of_option_bound [OF _ _ po]) (auto intro: posture_json_bound, simp add: posture_json_def)
  moreover have "list_all2 (\<lambda>x y. sort_json (approval_json x) = sort_json (approval_json y)) (cx_approvals p) (cx_approvals q)"
    using f [of "''approvals''"] by (simp add: comp_def map_eq_list_all2)
  then have "list_all2 (\<lambda>x y. bound_approval x = bound_approval y) (cx_approvals p) (cx_approvals q)"
    by (rule list.rel_mono_strong) (use ap in \<open>auto simp: list_all_iff intro: approval_json_bound\<close>)
  moreover have "bound_time (cx_requested_at p) = bound_time (cx_requested_at q)"
    by (rule json_seconds_bound) (use f [of "''requested_at''"] assms(2,3) in simp_all)
  moreover have "cx_source_network p = cx_source_network q" "cx_ticket_ref p = cx_ticket_ref q"
    "cx_justification p = cx_justification q"
    using f [of "''source_network''"] f [of "''ticket_ref''"] f [of "''justification''"] by simp_all
  ultimately show ?thesis by (cases p, cases q) (simp add: bound_context_def map_eq_list_all2)
qed

lemma request_to_json_bound:
  assumes eq: "sort_json (request_to_json r) = sort_json (request_to_json s)"
    and typed: "request_typed r" "request_typed s"
  shows "bound_part r = bound_part s"
proof -
  note f = sort_json_object_field [OF eq [unfolded request_to_json_def]]
  have "sort_json (json_of_option principal_json (dr_principal r)) = sort_json (json_of_option principal_json (dr_principal s))"
    using f [of "''principal''"] by simp
  then have "map_option bound_principal (dr_principal r) = map_option bound_principal (dr_principal s)"
    by (rule json_of_option_bound [where P = "\<lambda>p. i64_ok (pr_aal p) \<and> time_ok (pr_authenticated_at p)"])
      (use typed in \<open>auto simp: request_typed_def intro: principal_json_bound\<close>, simp add: principal_json_def)
  moreover have "sort_json (json_of_option resource_json (dr_resource r)) = sort_json (json_of_option resource_json (dr_resource s))"
    using f [of "''resource''"] by simp
  then have "map_option bound_resource (dr_resource r) = map_option bound_resource (dr_resource s)"
    by (rule json_of_option_bound [where P = "\<lambda>_. True"])
      (auto simp: option.pred_True intro: resource_json_bound, simp add: resource_json_def)
  moreover have "sort_json (json_of_option context_json (dr_context r)) = sort_json (json_of_option context_json (dr_context s))"
    using f [of "''context''"] by simp
  then have "map_option bound_context (dr_context r) = map_option bound_context (dr_context s)"
    by (rule json_of_option_bound [where P = "\<lambda>c. time_ok (cx_requested_at c) \<and>
       pred_option (\<lambda>p. time_ok (dp_evaluated_at p)) (cx_posture c) \<and>
       list_all (\<lambda>a. time_ok (ap_approved_at a)) (cx_approvals c)"])
      (use typed in \<open>auto simp: request_typed_def intro: context_json_bound\<close>, simp add: context_json_def)
  moreover have "dr_action r = dr_action s"
    using f [of "''action''"] by (cases "dr_action r"; cases "dr_action s") auto
  moreover have "dr_request_id r = dr_request_id s" "dr_policy_version r = dr_policy_version s"
    using f [of "''request_id''"] f [of "''policy_version''"] by simp_all
  ultimately show ?thesis by (cases r, cases s) (simp add: bound_part_def)
qed

context zs_libraries
begin

lemma pdp_decide_binds:
  assumes "pdp_decide X C pdp r = (Ok a :: (decision_response, 'err) outcome)"
    and "pdp_decide X D pdp' s = (Ok b :: (decision_response, 'err) outcome)"
    and "dres_decision_hash a = dres_decision_hash b" and typed: "request_typed r" "request_typed s"
  shows "bound_part r = bound_part s \<or> (\<exists>m m'. m \<noteq> m' \<and> ext_sha256 X m = ext_sha256 X m')"
proof -
  let ?m = "\<lambda>r. as_bytes (BINDING_SUITE_V1 @ ''/request'') @ [0] @ ext_to_vec X (sort_json (request_to_json r))"
  have "dres_decision_hash a = ext_sha256 X (?m r)" "dres_decision_hash b = ext_sha256 X (?m s)"
    using pdp_decide_fields(2) [OF assms(1)] pdp_decide_fields(2) [OF assms(2)]
    by (auto simp: bind_request_Ok [OF typed(1)] bind_request_Ok [OF typed(2)])
  with assms(3) have eq: "ext_sha256 X (?m r) = ext_sha256 X (?m s)" by simp
  show ?thesis
  proof (cases "?m r = ?m s")
    case True
    then have "ext_to_vec X (sort_json (request_to_json r)) = ext_to_vec X (sort_json (request_to_json s))" by simp
    then have "sort_json (request_to_json r) = sort_json (request_to_json s)"
      using request_to_json_ok [OF typed(1)] request_to_json_ok [OF typed(2)]
      by (intro serde_json.to_vec_inject [OF json_laws]) simp_all
    then show ?thesis using request_to_json_bound typed by blast
  next
    case False
    show ?thesis by (intro disjI2 exI conjI) (rule False, rule eq)
  qed
qed

end

subsection \<open>Loading\<close>

definition is_cedar_file :: "'io dir_entry \<Rightarrow> bool" where
  "is_cedar_file f \<longleftrightarrow> path_extension (dn_file_name f) = Some ''cedar''"

definition corpus_name :: "'io dir_entry \<Rightarrow> string" where
  "corpus_name f = (if dn_utf8 f then dn_file_name f else [])"

definition read_entry :: "'io dir_entry \<Rightarrow> (string \<times> string, 'io pdp_load_error) outcome" where
  "read_entry f = and_then (map_err ReadCorpus (dn_contents f)) (\<lambda>c. Ok (corpus_name f, c))"

lemma read_cedar_files_map:
  "read_cedar_files (map Ok fs) = collect_results (map read_entry (filter is_cedar_file fs))"
proof (induction fs)
  case (Cons f fs)
  then show ?case
    by (cases "dn_contents f") (simp_all add: is_cedar_file_def read_entry_def corpus_name_def Let_def)
qed simp

lemma collect_results_perm:
  assumes "collect_results (map g xs) = Ok ys" "mset xs = mset xs'"
  obtains ys' where "collect_results (map g xs') = Ok ys'" "mset ys = mset ys'"
proof -
  define h where "h x = (case g x of Ok y \<Rightarrow> y)" for x
  have m: "map g xs = map Ok ys" using assms(1) by (simp add: collect_results_eq_Ok)
  then have "\<forall>x \<in> set xs. g x = Ok (h x)"
    by (induction xs arbitrary: ys) (auto simp: h_def Cons_eq_map_conv)
  moreover have "set xs = set xs'" using assms(2) by (rule mset_eq_setD)
  ultimately have maps: "map g xs = map Ok (map h xs)" "map g xs' = map Ok (map h xs')" by simp_all
  have "ys = map h xs" using m maps(1) by (metis collect_results_map_Ok outcome.inject(1))
  then have "mset ys = mset (map h xs')" using assms(2) by simp
  moreover have "collect_results (map g xs') = Ok (map h xs')" by (simp only: maps(2) collect_results_map_Ok)
  ultimately show ?thesis using that by blast
qed

lemma pdp_load_Ok:
  assumes "pdp_load X C schema_file dir = Ok p"
  obtains schema_json schema entries files policies binding where
    "schema_file = Ok schema_json" "cedar_schema_from_json_str C schema_json = Ok schema"
    "dir = Ok entries" "read_cedar_files entries = Ok files" "files \<noteq> []"
    "cedar_parse_policies C (join_lines (map snd (sort_key (\<lambda>f. as_bytes (fst f)) files))) = Ok policies"
    "bind_policy_corpus X schema_json CEDAR_ENGINE_VERSION
       (map (\<lambda>(name, contents). \<lparr>cf_relative_path = name, cf_contents = contents\<rparr>)
         (sort_key (\<lambda>f. as_bytes (fst f)) files)) = Ok binding"
    "p = \<lparr>pdp_schema = schema, pdp_policies = policies, pdp_policy_version = binding_to_hex_string binding\<rparr>"
proof -
  have ne: "sort_key (\<lambda>f. as_bytes (fst f)) files = [] \<longleftrightarrow> files = []" for files :: "(string \<times> string) list"
    by (metis mset_sort mset_zero_iff)
  note run = assms [unfolded pdp_load_def Let_def outcome_simps outcome.inject ne]
  from run show ?thesis using that by blast
qed

lemma pdp_load_order:
  assumes load: "pdp_load X C schema_file (Ok (map Ok fs)) = Ok p" and perm: "mset fs = mset gs"
    and names: "distinct (map corpus_name (filter is_cedar_file fs))"
  shows "pdp_load X C schema_file (Ok (map Ok gs)) = Ok p"
proof -
  from load obtain files where files: "read_cedar_files (map Ok fs) = Ok files"
    by (rule pdp_load_Ok) simp
  have "mset (filter is_cedar_file fs) = mset (filter is_cedar_file gs)" using perm by simp
  with files obtain files' where files': "read_cedar_files (map Ok gs) = Ok files'" "mset files = mset files'"
    unfolding read_cedar_files_map by (rule collect_results_perm)
  have "map read_entry (filter is_cedar_file fs) = map Ok files"
    using files by (simp add: read_cedar_files_map collect_results_eq_Ok)
  then have "map fst files = map corpus_name (filter is_cedar_file fs)"
    by (auto simp: map_eq_list_all2 list_all2_conv_all_nth read_entry_def outcome_simps) (metis fst_conv)
  then have "sort_key (\<lambda>f. as_bytes (fst f)) files = sort_key (\<lambda>f. as_bytes (fst f)) files'"
    using names files'(2) by (intro sort_key_keys_unique) simp_all
  then show ?thesis using load unfolding pdp_load_def by (simp add: files files')
qed

text \<open>The policy version a loaded decision point reports binds its schema and its corpus.\<close>

lemma binding_to_hex_string_inj:
  "db_suite a = db_suite b \<Longrightarrow> binding_to_hex_string a = binding_to_hex_string b \<Longrightarrow> a = b"
  by (cases a, cases b) (metis append_same_eq binding_to_hex_string_def decision_binding.select_convs hex_decode_encode
      option.inject same_append_eq)

lemma pdp_load_version_binds:
  assumes "pdp_load X C (Ok schema) (Ok entries) = Ok p" "pdp_load X D (Ok schema') (Ok entries') = Ok q"
    and "pdp_policy_version p = pdp_policy_version q"
    and "read_cedar_files entries = Ok files" "read_cedar_files entries' = Ok files'"
    and "corpus_sized schema CEDAR_ENGINE_VERSION (map (\<lambda>(n, c). \<lparr>cf_relative_path = n, cf_contents = c\<rparr>) files)"
    and "corpus_sized schema' CEDAR_ENGINE_VERSION (map (\<lambda>(n, c). \<lparr>cf_relative_path = n, cf_contents = c\<rparr>) files')"
  shows "(schema = schema' \<and> mset files = mset files') \<or> (\<exists>m m'. m \<noteq> m' \<and> ext_sha256 X m = ext_sha256 X m')"
proof -
  let ?file = "\<lambda>(n, c). \<lparr>cf_relative_path = n, cf_contents = c\<rparr>" and ?sort = "sort_key (\<lambda>f. as_bytes (fst f))"
  obtain b where b: "bind_policy_corpus X schema CEDAR_ENGINE_VERSION (map ?file (?sort files)) = Ok b"
      "pdp_policy_version p = binding_to_hex_string b"
    using assms(1,4) by (elim pdp_load_Ok) simp
  obtain b' where b': "bind_policy_corpus X schema' CEDAR_ENGINE_VERSION (map ?file (?sort files')) = Ok b'"
      "pdp_policy_version q = binding_to_hex_string b'"
    using assms(2,5) by (elim pdp_load_Ok) simp
  have "b = b'"
    by (rule binding_to_hex_string_inj) (use b b' assms(3) in \<open>auto simp: bind_policy_corpus_Ok\<close>)
  moreover have "corpus_sized schema CEDAR_ENGINE_VERSION (map ?file (?sort files))"
    "corpus_sized schema' CEDAR_ENGINE_VERSION (map ?file (?sort files'))"
    using assms(6,7) by (auto simp: corpus_sized_def list_all_iff)
  ultimately have "(schema = schema' \<and> mset (map ?file (?sort files)) = mset (map ?file (?sort files'))) \<or>
      (\<exists>m m'. m \<noteq> m' \<and> ext_sha256 X m = ext_sha256 X m')"
    using bind_policy_corpus_binds [OF b(1), of schema' CEDAR_ENGINE_VERSION "map ?file (?sort files')"] b'(1) by blast
  moreover have "mset files = mset files'" if "mset (map ?file (?sort files)) = mset (map ?file (?sort files'))"
  proof -
    have "image_mset ?file (mset files) = image_mset ?file (mset files')" using that by simp
    then have "image_mset (\<lambda>f. (cf_relative_path f, cf_contents f)) (image_mset ?file (mset files)) =
        image_mset (\<lambda>f. (cf_relative_path f, cf_contents f)) (image_mset ?file (mset files'))" by simp
    then show ?thesis by (simp add: multiset.map_comp comp_def case_prod_beta)
  qed
  ultimately show ?thesis by blast
qed

end
