(* ===== verification/Decision_Seal.thy ===== *)
theory Decision_Seal
  imports Signing
begin

section \<open>The suite \<open>decision-seal/v1\<close> (\<open>crates/zs-crypto/src/decision_seal.rs\<close>)\<close>

text \<open>
  A decision of the policy engine is sealed field by field: signer and verifier build the same
  message from typed fields. The lemmas show that the message determines every field, that what a
  sealer signs is accepted, that a signature accepted for altered fields would be a signature on
  other bytes, and that an absent signature is never accepted.
\<close>

definition DECISION_SUITE_V1 :: string where
  "DECISION_SUITE_V1 = ''decision-seal/v1''"

definition DECISION_DOMAIN_PREFIX :: string where
  "DECISION_DOMAIN_PREFIX = ''zero-secret/decision-seal/v1''"

record decision_fields =
  df_request_id :: string
  df_decision_hash :: bytes
  df_policy_version :: string
  df_effect_allow :: bool
  df_reasons :: "string list"
  df_max_ttl_seconds :: u64
  df_constraints :: "string list"
  df_issued_at :: string

datatype decision_seal_error = DecisionSealingUnavailable

datatype decision_verify_error =
    DsUnknownSuite | DsMalformedKey | DsMissingSignature | DsUnknownKeyId | DsInvalidSignature

definition decision_opaque :: "hsm_error \<Rightarrow> decision_seal_error" where
  "decision_opaque e = DecisionSealingUnavailable"

definition decision_json :: "decision_fields \<Rightarrow> json" where
  "decision_json f =
     JObject
       [(''suite'', JString DECISION_SUITE_V1),
        (''request_id'', JString (df_request_id f)),
        (''decision_hash'', JString (hex_encode (df_decision_hash f))),
        (''policy_version'', JString (df_policy_version f)),
        (''effect'', JString (if df_effect_allow f then ''ALLOW'' else ''DENY'')),
        (''reasons'', JArray (map JString (df_reasons f))),
        (''max_ttl_seconds'', JNumber (PosInt (df_max_ttl_seconds f))),
        (''constraints'', JArray (map JString (df_constraints f))),
        (''issued_at'', JString (df_issued_at f))]"

definition decision_signed_message :: "'x zs_ext_scheme \<Rightarrow> decision_fields \<Rightarrow> (bytes, 'e) outcome" where
  "decision_signed_message X f =
     and_then (canonical_bytes X (decision_json f)) (\<lambda>b.
       Ok (as_bytes DECISION_DOMAIN_PREFIX @ [0x00] @ b))"

text \<open>The sealer also keeps the public key, to verify its own decisions.\<close>

record 't decision_sealer = "'t sealer" +
  ds_public_key_sec1 :: bytes

definition decision_sealer_open ::
  "'x zs_ext_scheme \<Rightarrow> 't pkcs11 \<Rightarrow> wakes \<Rightarrow> hsm_settings \<Rightarrow> 't \<Rightarrow>
     ('t decision_sealer, decision_seal_error) outcome" where
  "decision_sealer_open X P wakes settings t =
     (let key = KeyRef_new (set_key_label settings)
      in and_then (map_err decision_opaque (fst (session_pool_open P (hsm_config_of settings) t))) (\<lambda>pool.
         case public_key P wakes key pool of
           (r, pool') \<Rightarrow> and_then (map_err decision_opaque r) (\<lambda>pk.
             Ok \<lparr>sl_pool = pool', sl_key = key, sl_key_id = key_id_from_public_key X pk,
                 ds_public_key_sec1 = pk\<rparr>)))"

definition decision_accept_verifying_key ::
  "string \<Rightarrow> string \<Rightarrow> bytes \<Rightarrow> (accepted_verifying_key, decision_verify_error) outcome" where
  "decision_accept_verifying_key suite key_id sec1_uncompressed =
     (if suite \<noteq> DECISION_SUITE_V1 then Err DsUnknownSuite
      else if length sec1_uncompressed \<noteq> 65 \<or> sec1_uncompressed ! 0 \<noteq> 0x04 then Err DsMalformedKey
      else Ok \<lparr>avk_key_id = key_id, avk_raw = sec1_uncompressed\<rparr>)"

definition decision_accepted_verifying_key ::
  "'t decision_sealer \<Rightarrow> (accepted_verifying_key, decision_verify_error) outcome" where
  "decision_accepted_verifying_key sl =
     decision_accept_verifying_key DECISION_SUITE_V1 (sl_key_id sl) (ds_public_key_sec1 sl)"

definition decision_seal ::
  "'x zs_ext_scheme \<Rightarrow> 't pkcs11 \<Rightarrow> wakes \<Rightarrow> decision_fields \<Rightarrow>
     ('t decision_sealer, bytes \<times> string, decision_seal_error) action" where
  "decision_seal X P wakes f sl =
     act_bind (act_lift (decision_signed_message X f)) (\<lambda>message.
     act_bind (act_map_err decision_opaque
         (with_pool (sign_digest P wakes (sl_key sl) EcdsaP256Sha256 (sha256 X message)))) (\<lambda>signature.
       act_return (signature, sl_key_id sl))) sl"

definition decision_seal_verify ::
  "'x zs_ext_scheme \<Rightarrow> accepted_verifying_key list \<Rightarrow> decision_fields \<Rightarrow> string \<Rightarrow> bytes \<Rightarrow>
     (unit, decision_verify_error) outcome" where
  "decision_seal_verify X keys f signature_key_id signature =
     (if signature_key_id = [] \<or> signature = [] then Err DsMissingSignature
      else and_then (ok_or DsUnknownKeyId (find (\<lambda>k. avk_key_id k = signature_key_id) keys)) (\<lambda>key.
      and_then (decision_signed_message X f) (\<lambda>message.
        if ext_p256_verify X (avk_raw key) message signature then Ok () else Err DsInvalidSignature)))"

section \<open>Properties of the suite\<close>

lemma decision_json_wf: "json_wf (decision_json f)" "json_depth (decision_json f) \<le> 127"
  by (simp_all add: decision_json_def list_all_iff image_image)

definition decision_message :: "'x zs_ext_scheme \<Rightarrow> decision_fields \<Rightarrow> bytes" where
  "decision_message X f = as_bytes DECISION_DOMAIN_PREFIX @ [0] @ ext_to_vec X (sort_json (decision_json f))"

lemma decision_message_eq: "decision_signed_message X f = Ok (decision_message X f)"
  using json_wf_no_float [OF decision_json_wf(1)]
  by (simp add: decision_signed_message_def canonical_bytes_eq decision_message_def)

lemma decision_json_field_eq:
  assumes "sort_json (decision_json f) = sort_json (decision_json g)"
  shows "f = g"
proof -
  have view: "struct_fields False [''suite'', ''request_id'', ''decision_hash'', ''policy_version'',
      ''effect'', ''reasons'', ''max_ttl_seconds'', ''constraints'', ''issued_at''] (sort_json (decision_json h)) =
    Some (sorted_view (map_of (case decision_json h of JObject kvs \<Rightarrow> kvs)))" for h
    unfolding decision_json_def by (subst struct_fields_sorted) simp_all
  have "sorted_view (map_of (case decision_json f of JObject kvs \<Rightarrow> kvs)) k =
      sorted_view (map_of (case decision_json g of JObject kvs \<Rightarrow> kvs)) k" for k
    using view [of f] view [of g] assms by simp
  note eq = this [unfolded sorted_view_def decision_json_def json.case]
  have "inj JString" by (simp add: inj_def)
  then have "df_request_id f = df_request_id g" "df_decision_hash f = df_decision_hash g"
      "df_policy_version f = df_policy_version g" "df_effect_allow f = df_effect_allow g"
      "df_reasons f = df_reasons g" "df_max_ttl_seconds f = df_max_ttl_seconds g"
      "df_constraints f = df_constraints g" "df_issued_at f = df_issued_at g"
    using eq [of "''request_id''"] eq [of "''decision_hash''"] eq [of "''policy_version''"]
      eq [of "''effect''"] eq [of "''reasons''"] eq [of "''max_ttl_seconds''"]
      eq [of "''constraints''"] eq [of "''issued_at''"]
    by (simp_all add: inj_map_eq_map comp_def split: if_splits)
  then show ?thesis by (cases f, cases g) simp
qed

context zs_libraries
begin

lemma decision_message_inj: "decision_message X f = decision_message X g \<longleftrightarrow> f = g"
proof
  assume "decision_message X f = decision_message X g"
  then have "ext_to_vec X (sort_json (decision_json f)) = ext_to_vec X (sort_json (decision_json g))"
    by (simp add: decision_message_def)
  then have "sort_json (decision_json f) = sort_json (decision_json g)"
    using decision_json_wf by (intro serde_json.to_vec_inject [OF json_laws]) simp_all
  then show "f = g" by (rule decision_json_field_eq)
qed simp

end

lemma decision_seal_verify_Ok:
  "decision_seal_verify X keys f key_id sig = Ok () \<longleftrightarrow>
     key_id \<noteq> [] \<and> sig \<noteq> [] \<and> (\<exists>key. find (\<lambda>k. avk_key_id k = key_id) keys = Some key \<and>
       ext_p256_verify X (avk_raw key) (decision_message X f) sig)"
  by (auto simp: decision_seal_verify_def decision_message_eq outcome_simps)

lemma decision_seal_verify_not_Panic: "decision_seal_verify X keys f key_id sig \<noteq> Panic"
  by (auto simp: decision_seal_verify_def decision_message_eq outcome_simps)

lemma decision_seal_Ok:
  "decision_seal X P wakes f sl = (Ok (sig, key_id), sl') \<longleftrightarrow>
     key_id = sl_key_id sl \<and> (\<exists>p'. sign_digest P wakes (sl_key sl) EcdsaP256Sha256
        (sha256 X (decision_message X f)) (sl_pool sl) = (Ok sig, p') \<and> sl' = sl\<lparr>sl_pool := p'\<rparr>)"
  by (auto simp: decision_seal_def decision_message_eq outcome_simps)

context signing_key
begin

lemma decision_seal_verifies:
  assumes "decision_seal X P wakes f sl = (Ok (sig, key_id), sl')"
    and "sl_key sl = \<lparr>key_ref_label = label\<rparr>" and "sl_key_id sl \<noteq> []"
    and "find (\<lambda>k. avk_key_id k = sl_key_id sl) keys = Some \<lparr>avk_key_id = sl_key_id sl, avk_raw = pk\<rparr>"
  shows "decision_seal_verify X keys f key_id sig = Ok ()"
proof -
  from assms obtain p' where kid: "key_id = sl_key_id sl" and
    "sign_digest P wakes \<lparr>key_ref_label = label\<rparr> EcdsaP256Sha256 (sha256 X (decision_message X f)) (sl_pool sl) = (Ok sig, p')"
    by (auto simp: decision_seal_Ok)
  then have "length sig = 64" "ext_p256_verify X pk (decision_message X f) sig"
    using sign_digest_verifies by blast+
  then show ?thesis using assms(3,4) kid by (auto simp: decision_seal_verify_Ok)
qed

end

end
