(* ===== verification/Policy_Engine.thy ===== *)
theory Policy_Engine
  imports Pdp Decision_Seal
begin

section \<open>The policy engine service (\<open>apps/policy-engine/src/lib.rs\<close>)\<close>

text \<open>
  The service evaluates a request with the decision point, seals the response and returns it; the
  same process verifies sealed responses. The clock is a parameter: the seconds since the epoch that
  \<open>SystemTime\<close> reports, or nothing when it reports an earlier time. The sealing runs in a blocking
  task, whose panic is an error of the call, with the text \<open>join_error\<close> of the runtime. The lemmas
  show that a decision the service returns is one its own verification accepts, exactly when
  verification accepts a response, and that it answers every request.
\<close>

record verify_decision_request =
  vdr_decision :: "decision_response option"

record verify_decision_response =
  vds_valid :: bool
  vds_reason :: string

record ('s, 'p, 't) policy_engine =
  pe_pdp :: "('s, 'p) pdp"
  pe_sealer :: "'t decision_sealer"
  pe_verifying_key :: accepted_verifying_key

definition policy_engine_new ::
  "('s, 'p) pdp \<Rightarrow> 't decision_sealer \<Rightarrow> (('s, 'p, 't) policy_engine, decision_verify_error) outcome" where
  "policy_engine_new pdp sl =
     and_then (decision_accepted_verifying_key sl) (\<lambda>verifying_key.
       Ok \<lparr>pe_pdp = pdp, pe_sealer = sl, pe_verifying_key = verifying_key\<rparr>)"

definition decision_fields_of :: "decision_response \<Rightarrow> string \<Rightarrow> (decision_fields, string) outcome" where
  "decision_fields_of response issued_at_str =
     and_then (map_err field_error_to_string (Timestamp_new issued_at_str)) (\<lambda>issued_at.
       Ok \<lparr>df_request_id = '''',
           df_decision_hash = dres_decision_hash response,
           df_policy_version = dres_policy_version response,
           df_effect_allow = (dres_effect response = effect_as_i32 EffectAllow),
           df_reasons = dres_reasons response,
           df_max_ttl_seconds =
             (case dres_max_ttl response of Some d \<Rightarrow> word_of_int (max (du_seconds d) 0) | None \<Rightarrow> 0),
           df_constraints = dres_constraints response,
           df_issued_at = issued_at\<rparr>)"

text \<open>\<open>now.as_secs() as i64\<close> reads the 64 bits as a signed integer.\<close>

definition rfc3339_now :: "u64 option \<Rightarrow> (string, 'e) outcome" where
  "rfc3339_now clock = (case clock of None \<Rightarrow> Panic | Some secs \<Rightarrow> Ok (rfc3339_from_seconds (sint secs)))"

text \<open>The \<open>Display\<close> of the errors of \<open>decision-seal/v1\<close>; accented letters are their UTF-8 encoding.\<close>

fun decision_seal_error_to_string :: "decision_seal_error \<Rightarrow> string" where
  "decision_seal_error_to_string DecisionSealingUnavailable = ''scellement indisponible''"

abbreviation e_acute :: string where
  "e_acute \<equiv> [CHR 0xC3, CHR 0xA9]"

fun decision_verify_error_to_string :: "decision_verify_error \<Rightarrow> string" where
  "decision_verify_error_to_string DsUnknownSuite = ''suite inconnue ou retir'' @ e_acute @ ''e''"
| "decision_verify_error_to_string DsMalformedKey = ''cl'' @ e_acute @ '' publique malform'' @ e_acute @ ''e''"
| "decision_verify_error_to_string DsMissingSignature = ''signature ou identifiant de cl'' @ e_acute @ '' absent''"
| "decision_verify_error_to_string DsUnknownKeyId = ''identifiant de cl'' @ e_acute @ '' inconnu''"
| "decision_verify_error_to_string DsInvalidSignature = ''signature invalide''"

definition with_sealer :: "('t decision_sealer, 'a, 'err) action \<Rightarrow> (('s, 'p, 't) policy_engine, 'a, 'err) action" where
  "with_sealer m pe = (case m (pe_sealer pe) of (r, sl) \<Rightarrow> (r, pe\<lparr>pe_sealer := sl\<rparr>))"

text \<open>\<open>spawn_blocking\<close> followed by the two question marks: a panic of the task, then its error.\<close>

definition blocking_seal ::
  "'x zs_ext_scheme \<Rightarrow> 't pkcs11 \<Rightarrow> wakes \<Rightarrow> string \<Rightarrow> decision_fields \<Rightarrow>
     ('t decision_sealer, bytes \<times> string, status) action" where
  "blocking_seal X P wakes join_error fs sl =
     (case decision_seal X P wakes fs sl of
        (Ok r, sl') \<Rightarrow> (Ok r, sl')
      | (Err e, sl') \<Rightarrow> (Err (Unavailable (''scellement de la d'' @ e_acute @ ''cision indisponible : '' @
            decision_seal_error_to_string e)), sl')
      | (Panic, sl') \<Rightarrow> (Err (Internal (''t'' @ [CHR 0xC3, CHR 0xA2] @ ''che de scellement interrompue : '' @
            join_error)), sl'))"

definition policy_engine_decide ::
  "'x zs_ext_scheme \<Rightarrow> ('s, 'p, 'e, 'es, 'c, 'r) cedar \<Rightarrow> 't pkcs11 \<Rightarrow> wakes \<Rightarrow> string \<Rightarrow> u64 option \<Rightarrow>
     decision_request \<Rightarrow> (('s, 'p, 't) policy_engine, decision_response, status) action" where
  "policy_engine_decide X C P wakes join_error clock request pe =
     act_bind (act_lift (pdp_decide X C (pe_pdp pe) request)) (\<lambda>response.
     act_bind (act_lift (rfc3339_now clock)) (\<lambda>issued_at_str.
     act_bind (act_lift (map_err (\<lambda>e. Internal (''horodatage de d'' @ e_acute @ ''cision invalide : '' @ e))
         (decision_fields_of response issued_at_str))) (\<lambda>fs.
     act_bind (with_sealer (blocking_seal X P wakes join_error fs)) (\<lambda>(signature, key_id).
     act_bind (act_lift (request_time_from_rfc3339 issued_at_str)) (\<lambda>seconds.
       act_return (response\<lparr>dres_issued_at := Some \<lparr>pt_seconds = seconds, pt_nanos = 0\<rparr>,
         dres_decision_signature := signature, dres_decision_signature_key_id := key_id\<rparr>)))))) pe"

definition policy_engine_verify_decision ::
  "'x zs_ext_scheme \<Rightarrow> verify_decision_request \<Rightarrow> ('s, 'p, 't) policy_engine \<Rightarrow>
     (verify_decision_response, status) outcome" where
  "policy_engine_verify_decision X request pe =
     (case vdr_decision request of
        None \<Rightarrow> Ok \<lparr>vds_valid = False, vds_reason = ''decision_absente''\<rparr>
      | Some decision \<Rightarrow>
     (case dres_issued_at decision of
        None \<Rightarrow> Ok \<lparr>vds_valid = False, vds_reason = ''issued_at_absent''\<rparr>
      | Some ts \<Rightarrow>
     (let issued_at_str = rfc3339_from_seconds (pt_seconds ts)
      in case decision_fields_of decision issued_at_str of
        Panic \<Rightarrow> Panic
      | Err _ \<Rightarrow> Ok \<lparr>vds_valid = False, vds_reason = ''issued_at_invalide''\<rparr>
      | Ok fs \<Rightarrow>
     (case decision_seal_verify X [pe_verifying_key pe] fs (dres_decision_signature_key_id decision)
             (dres_decision_signature decision) of
        Panic \<Rightarrow> Panic
      | Ok _ \<Rightarrow> Ok \<lparr>vds_valid = True, vds_reason = ''''\<rparr>
      | Err e \<Rightarrow> Ok \<lparr>vds_valid = False, vds_reason = decision_verify_error_to_string e\<rparr>))))"

section \<open>Properties\<close>

text \<open>The fields a response reports, with the instant of its seal.\<close>

definition sealed_fields :: "decision_response \<Rightarrow> proto_timestamp \<Rightarrow> decision_fields" where
  "sealed_fields r ts =
     \<lparr>df_request_id = '''', df_decision_hash = dres_decision_hash r,
      df_policy_version = dres_policy_version r,
      df_effect_allow = (dres_effect r = effect_as_i32 EffectAllow), df_reasons = dres_reasons r,
      df_max_ttl_seconds = (case dres_max_ttl r of Some d \<Rightarrow> word_of_int (max (du_seconds d) 0) | None \<Rightarrow> 0),
      df_constraints = dres_constraints r, df_issued_at = rfc3339_from_seconds (pt_seconds ts)\<rparr>"

lemma decision_fields_of_seconds:
  "decision_fields_of r (rfc3339_from_seconds (pt_seconds ts)) = Ok fs \<longleftrightarrow>
     min_seconds \<le> pt_seconds ts \<and> pt_seconds ts \<le> max_seconds \<and> fs = sealed_fields r ts"
  by (auto simp: decision_fields_of_def sealed_fields_def outcome_simps timestamp_valid_rfc3339)

lemma decision_fields_of_refused:
  fixes ts :: proto_timestamp
  shows "decision_fields_of r (rfc3339_from_seconds (pt_seconds ts)) = Err e \<Longrightarrow>
     \<not> (min_seconds \<le> pt_seconds ts \<and> pt_seconds ts \<le> max_seconds)"
  using decision_fields_of_seconds [of r ts "sealed_fields r ts"] by auto

lemma decision_fields_of_not_Panic: "decision_fields_of r s \<noteq> Panic"
  by (simp add: decision_fields_of_def Timestamp_new_def)

lemma verify_decision_valid_iff:
  "policy_engine_verify_decision X req pe = Ok \<lparr>vds_valid = True, vds_reason = reason\<rparr> \<longleftrightarrow>
     reason = '''' \<and> (\<exists>r ts. vdr_decision req = Some r \<and> dres_issued_at r = Some ts \<and>
       min_seconds \<le> pt_seconds ts \<and> pt_seconds ts \<le> max_seconds \<and>
       decision_seal_verify X [pe_verifying_key pe] (sealed_fields r ts) (dres_decision_signature_key_id r)
         (dres_decision_signature r) = Ok ())"
  using decision_seal_verify_not_Panic [of X "[pe_verifying_key pe]"]
  by (auto simp: policy_engine_verify_decision_def Let_def decision_fields_of_seconds decision_fields_of_not_Panic
      split: option.splits outcome.splits dest: decision_fields_of_refused)

lemma verify_decision_Ok: "\<exists>resp. policy_engine_verify_decision X req pe = Ok resp"
  using decision_seal_verify_not_Panic [of X "[pe_verifying_key pe]"]
  by (auto simp: policy_engine_verify_decision_def Let_def decision_fields_of_not_Panic
      split: option.splits outcome.splits)

subsection \<open>What the service seals\<close>

lemma with_sealer_Ok [outcome_simps]:
  "with_sealer m pe = (Ok x, pe') \<longleftrightarrow>
     (\<exists>sl. m (pe_sealer pe) = (Ok x, sl) \<and> pe' = pe\<lparr>pe_sealer := sl\<rparr>)"
  by (auto simp: with_sealer_def split: prod.splits)

lemma blocking_seal_Ok [outcome_simps]:
  "blocking_seal X P wakes j fs sl = (Ok x, sl') \<longleftrightarrow> decision_seal X P wakes fs sl = (Ok x, sl')"
  by (auto simp: blocking_seal_def split: prod.splits outcome.splits)

lemma policy_engine_decide_Ok:
  assumes "policy_engine_decide X C P wakes j clock req pe = (Ok resp, pe')"
  obtains r0 ts sl' where
    "pdp_decide X C (pe_pdp pe) req = (Ok r0 :: (decision_response, status) outcome)"
    "min_seconds \<le> pt_seconds ts" "pt_seconds ts \<le> max_seconds" "\<exists>secs. clock = Some secs \<and> pt_seconds ts = sint secs"
    "decision_seal X P wakes (sealed_fields resp ts) (pe_sealer pe) =
       (Ok (dres_decision_signature resp, dres_decision_signature_key_id resp), sl')"
    "resp = r0\<lparr>dres_issued_at := Some ts, dres_decision_signature := dres_decision_signature resp,
       dres_decision_signature_key_id := dres_decision_signature_key_id resp\<rparr>"
    "pe' = pe\<lparr>pe_sealer := sl'\<rparr>"
proof -
  from assms obtain r0 str fs sig key_id sl' seconds where
    r0: "pdp_decide X C (pe_pdp pe) req = (Ok r0 :: (decision_response, status) outcome)"
    and str: "rfc3339_now clock = (Ok str :: (string, status) outcome)"
    and fs: "decision_fields_of r0 str = Ok fs"
    and seal: "decision_seal X P wakes fs (pe_sealer pe) = (Ok (sig, key_id), sl')"
    and seconds: "request_time_from_rfc3339 str = (Ok seconds :: (int, status) outcome)"
    and resp: "resp = r0\<lparr>dres_issued_at := Some \<lparr>pt_seconds = seconds, pt_nanos = 0\<rparr>,
         dres_decision_signature := sig, dres_decision_signature_key_id := key_id\<rparr>"
    and pe': "pe' = pe\<lparr>pe_sealer := sl'\<rparr>"
    unfolding policy_engine_decide_def by (auto simp: outcome_simps act_return_def)
  from str obtain secs where secs: "clock = Some secs" "str = rfc3339_from_seconds (sint secs)"
    by (auto simp: rfc3339_now_def split: option.splits)
  define ts where "ts = \<lparr>pt_seconds = sint secs, pt_nanos = 0\<rparr>"
  have range: "min_seconds \<le> pt_seconds ts" "pt_seconds ts \<le> max_seconds" and fs': "fs = sealed_fields r0 ts"
    using fs decision_fields_of_seconds [of r0 ts fs] by (simp_all add: secs ts_def)
  have "seconds = sint secs"
    using seconds rfc3339_fields [of "sint secs", where 'e = status] range by (simp add: secs ts_def)
  moreover from this have "sealed_fields resp ts = fs" by (simp add: fs' resp sealed_fields_def)
  ultimately show ?thesis
    by (intro that [of r0 ts sl']) (use r0 seal resp pe' range secs in \<open>simp_all add: ts_def\<close>)
qed

lemma policy_engine_new_Ok:
  "policy_engine_new pdp sl = Ok pe \<longleftrightarrow>
     length (ds_public_key_sec1 sl) = 65 \<and> ds_public_key_sec1 sl ! 0 = 0x04 \<and>
     pe = \<lparr>pe_pdp = pdp, pe_sealer = sl,
           pe_verifying_key = \<lparr>avk_key_id = sl_key_id sl, avk_raw = ds_public_key_sec1 sl\<rparr>\<rparr>"
  by (auto simp: policy_engine_new_def decision_accepted_verifying_key_def decision_accept_verifying_key_def
      outcome_simps)

lemma key_id_nonempty: "length (ext_sha256 X pk) = 32 \<Longrightarrow> key_id_from_public_key X pk \<noteq> []"
  by (cases "ext_sha256 X pk") (auto simp: key_id_from_public_key_def hex_encode_def sha256_def fmt_02x_def)

context signing_key
begin

lemma policy_engine_round_trip:
  assumes dec: "policy_engine_decide X C P wakes j clock req pe = (Ok resp, pe')"
    and key: "sl_key (pe_sealer pe) = \<lparr>key_ref_label = label\<rparr>"
    and id: "sl_key_id (pe_sealer pe) = key_id_from_public_key X pk"
    and vk: "pe_verifying_key pe = \<lparr>avk_key_id = sl_key_id (pe_sealer pe), avk_raw = pk\<rparr>"
  shows "policy_engine_verify_decision X \<lparr>vdr_decision = Some resp\<rparr> pe' =
    Ok \<lparr>vds_valid = True, vds_reason = ''''\<rparr>"
proof -
  from dec obtain r0 ts sl' where ts: "min_seconds \<le> pt_seconds ts" "pt_seconds ts \<le> max_seconds"
    and seal: "decision_seal X P wakes (sealed_fields resp ts) (pe_sealer pe) =
       (Ok (dres_decision_signature resp, dres_decision_signature_key_id resp), sl')"
    and resp: "resp = r0\<lparr>dres_issued_at := Some ts, dres_decision_signature := dres_decision_signature resp,
       dres_decision_signature_key_id := dres_decision_signature_key_id resp\<rparr>"
    and pe': "pe' = pe\<lparr>pe_sealer := sl'\<rparr>"
    by (rule policy_engine_decide_Ok)
  have "dres_issued_at resp = Some ts" by (subst resp) simp
  have "sl_key_id (pe_sealer pe) \<noteq> []" using id key_id_nonempty [OF sha256_length] by simp
  from decision_seal_verifies [OF seal key this, of "[pe_verifying_key pe]"]
  have "decision_seal_verify X [pe_verifying_key pe] (sealed_fields resp ts) (dres_decision_signature_key_id resp)
      (dres_decision_signature resp) = Ok ()" by (simp add: vk)
  then show ?thesis using ts \<open>dres_issued_at resp = Some ts\<close> by (simp add: verify_decision_valid_iff pe')
qed

end

end
