(* ===== verification/Startup.thy ===== *)
theory Startup
  imports Identity_Safety Policy_Engine
begin

section \<open>The entry points (\<open>main.rs\<close> of the three services)\<close>

text \<open>
  A process reads its variables, opens what it needs and then serves. What it asks of the system is the
  record \<open>host\<close>: the environment, the reader of socket addresses, and whether a database, an address or a
  socket path is available. \<open>process::exit(1)\<close> is an error, one per message that the source prints; an
  \<open>expect\<close> that fails is a panic. Printing and tracing have no effect on the result. A service starts exactly
  when the outcome is \<open>Ok\<close>, with the state it serves from.
\<close>

subsection \<open>The environment\<close>

record 'a host =
  host_env :: "string \<rightharpoonup> string"
  host_parse_addr :: "string \<Rightarrow> 'a option"
  host_connect :: "string \<Rightarrow> bool"
  host_bind :: "'a \<Rightarrow> bool"
  host_bind_socket :: "string \<Rightarrow> bool"

datatype 'io startup_exit =
    MissingVariable string
  | KeyNotHexadecimal
  | KeyRefused identity_verify_error
  | AssertionSealerNotOpened identity_seal_error
  | AuditSealerNotOpened audit_seal_error
  | DecisionSealerNotOpened decision_seal_error
  | IdentityStoreUnreachable
  | AuditStoreUnreachable
  | AddressUnavailable
  | SocketUnavailable string
  | PdpNotLoaded "'io pdp_load_error"

definition require_env :: "'a host \<Rightarrow> string \<Rightarrow> (string, 'io startup_exit) outcome" where
  "require_env h var = ok_or (MissingVariable var) (host_env h var)"

definition env_or :: "'a host \<Rightarrow> string \<Rightarrow> string \<Rightarrow> string" where
  "env_or h var fallback = (case host_env h var of Some v \<Rightarrow> v | None \<Rightarrow> fallback)"

text \<open>\<open>str::parse\<close> into an \<open>i64\<close>: an optional sign, at least one digit, a value in range.\<close>

definition parse_i64 :: "string \<Rightarrow> int option" where
  "parse_i64 s =
     (case (parse_dec s :: (int, unit) outcome) of
        Ok n \<Rightarrow> if - (2 ^ 63) \<le> n \<and> n < 2 ^ 63 then Some n else None
      | _ \<Rightarrow> None)"

definition env_i64_or :: "'a host \<Rightarrow> string \<Rightarrow> int \<Rightarrow> int" where
  "env_i64_or h var fallback =
     (case Option.bind (host_env h var) parse_i64 of Some v \<Rightarrow> v | None \<Rightarrow> fallback)"

definition parse_addr_or_panic :: "'a host \<Rightarrow> string \<Rightarrow> ('a, 'e) outcome" where
  "parse_addr_or_panic h s = (case host_parse_addr h s of Some a \<Rightarrow> Ok a | None \<Rightarrow> Panic)"

definition require_available :: "'e \<Rightarrow> bool \<Rightarrow> (unit, 'e) outcome" where
  "require_available e available = (if available then Ok () else Err e)"

text \<open>The settings the three services pass to \<open>open\<close>.\<close>

definition service_hsm_settings :: "string \<Rightarrow> string \<Rightarrow> string \<Rightarrow> hsm_settings" where
  "service_hsm_settings module_path pin key_label =
     \<lparr>set_module_path = module_path, set_slot_id = None, set_pin = pin, set_pool_size = 4,
      set_acquire_timeout = 5, set_key_label = key_label\<rparr>"

definition hsm_module :: "'a host \<Rightarrow> string" where
  "hsm_module h = env_or h ''ZS_HSM_MODULE'' ''/usr/lib/softhsm/libsofthsm2.so''"

subsection \<open>\<open>identity-provider\<close>\<close>

record ('a, 't) idp_service =
  svc_verifying_key :: accepted_verifying_key
  svc_grpc_addr :: 'a
  svc_http_addr :: 'a
  svc_config :: app_config
  svc_assertion_sealer :: "'t sealer"
  svc_audit_sealer :: "'t sealer"

text \<open>The two pools are opened one after the other on the same module.\<close>

definition idp_main ::
  "'x zs_ext_scheme \<Rightarrow> 't pkcs11 \<Rightarrow> 'a host \<Rightarrow> 't \<Rightarrow> (('a, 't) idp_service, 'io startup_exit) outcome" where
  "idp_main X P h t =
     and_then (require_env h ''ZS_IDP_VERIFYING_KEY_HEX'') (\<lambda>key_hex.
     and_then (require_env h ''ZS_IDP_VERIFYING_KEY_ID'') (\<lambda>key_id.
     and_then (ok_or KeyNotHexadecimal (hex_decode key_hex)) (\<lambda>raw.
     and_then (map_err KeyRefused (identity_accept_verifying_key IDENTITY_SUITE_V1 key_id raw)) (\<lambda>verifying_key.
     and_then (parse_addr_or_panic h (env_or h ''ZS_IDP_ADDR'' ''127.0.0.1:50062'')) (\<lambda>grpc_addr.
     and_then (parse_addr_or_panic h (env_or h ''ZS_IDP_HTTP_ADDR'' ''127.0.0.1:50063'')) (\<lambda>http_addr.
     and_then (require_env h ''ZS_IDP_IDENTITY_DATABASE_URL'') (\<lambda>identity_database_url.
     and_then (require_env h ''ZS_IDP_AUDIT_DATABASE_URL'') (\<lambda>audit_database_url.
     and_then (require_env h ''SOFTHSM2_PIN'') (\<lambda>pin.
     and_then (require_env h ''ZS_IDP_RP_ID'') (\<lambda>rp_id.
     and_then (require_env h ''ZS_IDP_ORIGIN'') (\<lambda>origin.
     and_then (require_env h ''ZS_IDP_ASSERTION_AUDIENCE'') (\<lambda>audience.
     and_then (map_err AssertionSealerNotOpened (assertion_sealer_open X P []
       (service_hsm_settings (hsm_module h) pin
          (env_or h ''ZS_IDP_ASSERTION_HSM_KEY_LABEL'' ''zs-identity-assertion-v1'')) t)) (\<lambda>assertion_sealer.
     and_then (map_err AuditSealerNotOpened (audit_sealer_open X P []
       (service_hsm_settings (hsm_module h) pin (env_or h ''ZS_IDP_AUDIT_HSM_KEY_LABEL'' ''zs-audit-seal-v1''))
       (pool_pkcs11 (sl_pool assertion_sealer)))) (\<lambda>audit_sealer.
     and_then (require_available IdentityStoreUnreachable (host_connect h identity_database_url)) (\<lambda>_.
     and_then (require_available AuditStoreUnreachable (host_connect h audit_database_url)) (\<lambda>_.
     and_then (require_available AddressUnavailable (host_bind h http_addr)) (\<lambda>_.
       Ok \<lparr>svc_verifying_key = verifying_key, svc_grpc_addr = grpc_addr, svc_http_addr = http_addr,
           svc_config =
             \<lparr>app_rp_id = rp_id, app_origin = origin,
              app_authority_domain = env_or h ''ZS_IDP_AUTHORITY_DOMAIN'' ''identity-provider'',
              app_audience = audience,
              app_challenge_ttl_seconds = env_i64_or h ''ZS_IDP_CHALLENGE_TTL_SECONDS'' 120,
              app_assertion_ttl_seconds = env_i64_or h ''ZS_IDP_ASSERTION_TTL_SECONDS'' 120\<rparr>,
           svc_assertion_sealer = assertion_sealer, svc_audit_sealer = audit_sealer\<rparr>)))))))))))))))))"

subsection \<open>\<open>audit-sealer\<close>\<close>

definition audit_sealer_main ::
  "'x zs_ext_scheme \<Rightarrow> 't pkcs11 \<Rightarrow> 'a host \<Rightarrow> 't \<Rightarrow> ('t sealer, 'io startup_exit) outcome" where
  "audit_sealer_main X P h t =
     and_then (require_env h ''SOFTHSM2_PIN'') (\<lambda>pin.
     and_then (require_env h ''ZS_AUDIT_SEALER_SOCKET'') (\<lambda>socket_path.
     and_then (map_err AuditSealerNotOpened (audit_sealer_open X P []
       (service_hsm_settings (hsm_module h) pin
          (env_or h ''ZS_AUDIT_SEALER_HSM_KEY_LABEL'' ''zs-audit-seal-v1'')) t)) (\<lambda>sealer.
     and_then (require_available (SocketUnavailable socket_path) (host_bind_socket h socket_path)) (\<lambda>_.
       Ok sealer))))"

subsection \<open>\<open>policy-engine\<close>\<close>

text \<open>
  The files are those found under the two paths of the environment. \<open>serve\<close> builds the engine with an
  \<open>expect\<close> before it listens.
\<close>

definition policy_engine_main ::
  "'x zs_ext_scheme \<Rightarrow> 't pkcs11 \<Rightarrow> ('s, 'p, 'e, 'es, 'c, 'r) cedar \<Rightarrow> (string \<Rightarrow> (string, 'io) outcome) \<Rightarrow>
     (string \<Rightarrow> (('io dir_entry, 'io) outcome list, 'io) outcome) \<Rightarrow> 'a host \<Rightarrow> 't \<Rightarrow>
     (('s, 'p, 't) policy_engine \<times> 'a, 'io startup_exit) outcome" where
  "policy_engine_main X P C read_file read_dir h t =
     and_then (map_err PdpNotLoaded (pdp_load X C
       (read_file (env_or h ''ZS_POLICY_ENGINE_SCHEMA'' ''contracts/cedar/schema.cedarschema.json''))
       (read_dir (env_or h ''ZS_POLICY_ENGINE_POLICIES_DIR'' ''policies/access'')))) (\<lambda>pdp.
     and_then (require_env h ''SOFTHSM2_PIN'') (\<lambda>pin.
     and_then (map_err DecisionSealerNotOpened (decision_sealer_open X P []
       (service_hsm_settings (hsm_module h) pin
          (env_or h ''ZS_POLICY_ENGINE_HSM_KEY_LABEL'' ''zs-decision-seal-v1'')) t)) (\<lambda>sealer.
     and_then (parse_addr_or_panic h (env_or h ''ZS_POLICY_ENGINE_ADDR'' ''127.0.0.1:50061'')) (\<lambda>addr.
     and_then (expect (policy_engine_new pdp sealer)) (\<lambda>engine.
       Ok (engine, addr))))))"

section \<open>What a service has when it starts\<close>

lemma env_simps [outcome_simps]:
  "require_env h var = Ok v \<longleftrightarrow> host_env h var = Some v"
  "parse_addr_or_panic h s = Ok a \<longleftrightarrow> host_parse_addr h s = Some a"
  "require_available e b = Ok u \<longleftrightarrow> b"
  by (auto simp: require_env_def parse_addr_or_panic_def require_available_def outcome_simps split: option.splits)

text \<open>An opened sealer holds the key of its label: it signs with it and publishes its identifier.\<close>

lemma sealer_open_holds:
  "assertion_sealer_open X P wakes s t = Ok sl \<Longrightarrow> \<exists>pk. sealer_holds X \<lparr>sk_label = set_key_label s, sk_public = pk\<rparr> sl"
  "audit_sealer_open X P wakes s t = Ok sl \<Longrightarrow> \<exists>pk. sealer_holds X \<lparr>sk_label = set_key_label s, sk_public = pk\<rparr> sl"
  by (auto simp: assertion_sealer_open_def audit_sealer_open_def Let_def sealer_holds_def KeyRef_new_def outcome_simps
      split: prod.splits)

lemma idp_main_Ok:
  assumes "idp_main X P h t = Ok svc"
  obtains ipk apk where
    "sealer_holds X \<lparr>sk_label = env_or h ''ZS_IDP_ASSERTION_HSM_KEY_LABEL'' ''zs-identity-assertion-v1'',
       sk_public = ipk\<rparr> (svc_assertion_sealer svc)"
    "sealer_holds X \<lparr>sk_label = env_or h ''ZS_IDP_AUDIT_HSM_KEY_LABEL'' ''zs-audit-seal-v1'',
       sk_public = apk\<rparr> (svc_audit_sealer svc)"
proof -
  from assms obtain pin t' where
    "assertion_sealer_open X P [] (service_hsm_settings (hsm_module h) pin
       (env_or h ''ZS_IDP_ASSERTION_HSM_KEY_LABEL'' ''zs-identity-assertion-v1'')) t = Ok (svc_assertion_sealer svc)"
    "audit_sealer_open X P [] (service_hsm_settings (hsm_module h) pin
       (env_or h ''ZS_IDP_AUDIT_HSM_KEY_LABEL'' ''zs-audit-seal-v1'')) t' = Ok (svc_audit_sealer svc)"
    by (auto simp: idp_main_def outcome_simps)
  from sealer_open_holds(1) [OF this(1)] sealer_open_holds(2) [OF this(2)] that show ?thesis
    by (auto simp: service_hsm_settings_def)
qed

text \<open>The world of a service that has just started, over the tables it finds.\<close>

definition start_world ::
  "('a, 't) idp_service \<Rightarrow> database \<Rightarrow> u64 option \<Rightarrow> (nat \<Rightarrow> bytes option) \<Rightarrow> string \<Rightarrow> 't idp_world" where
  "start_world svc db clock random uuid =
     \<lparr>db_challenges = db_challenges db, db_authenticators = db_authenticators db, db_events = db_events db,
      db_now = db_now db, db_identity_link = db_identity_link db, db_audit_link = db_audit_link db,
      w_assertion_sealer = svc_assertion_sealer svc, w_audit_sealer = svc_audit_sealer svc, w_clock = clock,
      w_random = random, w_uuid = uuid, w_wakes = []\<rparr>"

definition idp_required_variables :: "string list" where
  "idp_required_variables =
     [''ZS_IDP_VERIFYING_KEY_HEX'', ''ZS_IDP_VERIFYING_KEY_ID'', ''ZS_IDP_IDENTITY_DATABASE_URL'',
      ''ZS_IDP_AUDIT_DATABASE_URL'', ''SOFTHSM2_PIN'', ''ZS_IDP_RP_ID'', ''ZS_IDP_ORIGIN'',
      ''ZS_IDP_ASSERTION_AUDIENCE'']"

lemma idp_main_required:
  assumes "idp_main X P h t = Ok svc"
  shows "list_all (\<lambda>v. host_env h v \<noteq> None) idp_required_variables"
    and "length (avk_raw (svc_verifying_key svc)) = 65"
  using assms by (auto simp: idp_main_def idp_required_variables_def identity_accept_verifying_key_def outcome_simps
      split: if_splits)

lemma start_world_inv:
  assumes "tables_wf db" "domain_rows d db = []"
    and "sealer_holds X ik (svc_assertion_sealer svc)" "sealer_holds X ak (svc_audit_sealer svc)"
  shows "idp_inv X ak ik d (start_world svc db c r u)"
  using assms by (simp add: idp_inv_def tables_wf_def chain_inv_def stored_chain_def domain_rows_def start_world_def)

section \<open>A token that refuses a second login\<close>

text \<open>
  PKCS#11 logs an application in, not a session: once a session of the application is logged in, \<open>C_Login\<close> of
  another one answers \<open>CKR_USER_ALREADY_LOGGED_IN\<close>. The pool logs every session in and takes that
  answer for a failure.
\<close>

definition relogin_refused :: "'t pkcs11 \<Rightarrow> ('t \<Rightarrow> bool) \<Rightarrow> bool" where
  "relogin_refused P logged \<longleftrightarrow>
     (\<forall>s pin t u t'. pk_login P s pin t = (Ok u, t') \<longrightarrow> logged t') \<and>
     (\<forall>slot t s t'. pk_open_rw_session P slot t = (Ok s, t') \<longrightarrow> logged t \<longrightarrow> logged t') \<and>
     (\<forall>s pin t. logged t \<longrightarrow> fst (pk_login P s pin t) = Err OtherRv)"

lemma open_sessions_relogin:
  assumes "relogin_refused P logged" "logged t"
  shows "fst (open_sessions P slot pin (Suc n) opened t) \<noteq> Ok ss"
proof (cases "pk_open_rw_session P slot t")
  case (Pair r t')
  show ?thesis
  proof (cases r)
    case (Ok s)
    with Pair assms have "fst (pk_login P s pin t') = Err OtherRv" unfolding relogin_refused_def by blast
    with Pair Ok show ?thesis by (cases "pk_login P s pin t'") simp
  qed (use Pair in simp_all)
qed

lemma open_sessions_twice:
  assumes "relogin_refused P logged"
  shows "fst (open_sessions P slot pin (Suc (Suc n)) opened t) \<noteq> Ok ss"
proof (cases "pk_open_rw_session P slot t")
  case (Pair r t')
  show ?thesis
  proof (cases r)
    case (Ok s)
    show ?thesis
    proof (cases "pk_login P s pin t'")
      case login: (Pair r' t'')
      show ?thesis
      proof (cases r')
        case (Ok u)
        with login assms have "logged t''" unfolding relogin_refused_def by blast
        with open_sessions_relogin [OF assms this, of slot pin n "opened @ [s]" ss] Pair login Ok \<open>r = outcome.Ok s\<close>
        show ?thesis by (simp del: open_sessions.simps add: open_sessions.simps(2) [of P slot pin "Suc n"])
      qed (use Pair login \<open>r = outcome.Ok s\<close> in simp_all)
    qed
  qed (use Pair in simp_all)
qed

lemma session_pool_open_relogin:
  assumes "relogin_refused P logged" "2 \<le> cfg_pool_size config"
  shows "fst (session_pool_open P config t) \<noteq> Ok pool"
proof
  assume "fst (session_pool_open P config t) = Ok pool"
  then have "session_pool_open P config t = (Ok pool, snd (session_pool_open P config t))" by (simp add: prod_eq_iff)
  then obtain slot t' ss t'' where "open_sessions P slot (cfg_pin config) (cfg_pool_size config) [] t' = (Ok ss, t'')"
    unfolding session_pool_open_def act_bind_eq_Ok
    by (elim exE conjE) (simp only: act_lift_eq act_bind_eq_Ok Pair_inject outcome.distinct split: if_splits; blast)
  moreover obtain n where "cfg_pool_size config = Suc (Suc n)"
    using assms(2) by (metis add_2_eq_Suc le_Suc_ex)
  ultimately show False using open_sessions_twice [OF assms(1), of slot "cfg_pin config" n "[]" t' ss] by simp
qed

lemma sealer_open_relogin:
  assumes "relogin_refused P logged" "2 \<le> set_pool_size s"
  shows "assertion_sealer_open X P wakes s t \<noteq> Ok sl" "audit_sealer_open X P wakes s t \<noteq> Ok sl"
    "decision_sealer_open X P wakes s t \<noteq> Ok dl"
  using session_pool_open_relogin [OF assms(1), of "hsm_config_of s" t] assms(2)
  by (auto simp: assertion_sealer_open_def audit_sealer_open_def decision_sealer_open_def Let_def hsm_config_of_def
      outcome_simps)

lemma service_settings_size: "2 \<le> set_pool_size (service_hsm_settings m pin l)"
  by (simp add: service_hsm_settings_def)

lemmas service_not_opened = sealer_open_relogin [OF _ service_settings_size]

section \<open>A module that is initialised once\<close>

text \<open>
  \<open>C_Initialize\<close> answers \<open>CKR_CRYPTOKI_ALREADY_INITIALIZED\<close> to a process that has initialised the module, until
  \<open>C_Finalize\<close>, which none of the other calls performs.
\<close>

definition initialized_once :: "'t pkcs11 \<Rightarrow> ('t \<Rightarrow> bool) \<Rightarrow> bool" where
  "initialized_once P inited \<longleftrightarrow>
     (\<forall>t u t'. pk_initialize P t = (Ok u, t') \<longrightarrow> \<not> inited t \<and> inited t') \<and>
     (\<forall>path t. inited t \<longrightarrow> inited (snd (pk_new P path t))) \<and>
     (\<forall>t. inited t \<longrightarrow> inited (snd (pk_slots P t))) \<and>
     (\<forall>slot t. inited t \<longrightarrow> inited (snd (pk_max_session_count P slot t))) \<and>
     (\<forall>slot t. inited t \<longrightarrow> inited (snd (pk_mechanisms P slot t))) \<and>
     (\<forall>slot t. inited t \<longrightarrow> inited (snd (pk_open_rw_session P slot t))) \<and>
     (\<forall>s pin t. inited t \<longrightarrow> inited (snd (pk_login P s pin t))) \<and>
     (\<forall>s cls l t. inited t \<longrightarrow> inited (snd (pk_find_objects P s cls l t))) \<and>
     (\<forall>s h t. inited t \<longrightarrow> inited (snd (pk_get_attributes P s h t))) \<and>
     (\<forall>s t. inited t \<longrightarrow> inited (pk_close P s t))"

lemma initialized_onceD:
  assumes "initialized_once P inited" "inited t"
  shows "pk_initialize P t \<noteq> (Ok u, t')"
    and "pk_new P path t = (r1, t') \<Longrightarrow> inited t'"
    and "pk_slots P t = (r2, t') \<Longrightarrow> inited t'"
    and "pk_max_session_count P slot t = (r3, t') \<Longrightarrow> inited t'"
    and "pk_mechanisms P slot t = (r4, t') \<Longrightarrow> inited t'"
    and "pk_open_rw_session P slot t = (r5, t') \<Longrightarrow> inited t'"
    and "pk_login P s pin t = (r1, t') \<Longrightarrow> inited t'"
    and "pk_find_objects P s cls l t = (r6, t') \<Longrightarrow> inited t'"
    and "pk_get_attributes P s h t = (r7, t') \<Longrightarrow> inited t'"
    and "inited (pk_close P s t)"
  using assms unfolding initialized_once_def by (metis snd_conv)+

lemma initialized_once_first: "initialized_once P inited \<Longrightarrow> pk_initialize P t = (Ok u, t') \<Longrightarrow> inited t'"
  unfolding initialized_once_def by metis

lemma open_sessions_inited:
  assumes "initialized_once P inited" "inited t" "open_sessions P slot pin n opened t = (Ok ss, t')"
  shows "inited t'"
  using assms(2,3)
proof (induction n arbitrary: opened t)
  case (Suc n)
  from Suc.prems(2) obtain s t1 u t2 where opened: "pk_open_rw_session P slot t = (Ok s, t1)"
    and login: "pk_login P s pin t1 = (Ok u, t2)" and rest: "open_sessions P slot pin n (opened @ [s]) t2 = (Ok ss, t')"
    by (auto split: prod.splits outcome.splits)
  have "inited t1" using initialized_onceD(6) [OF assms(1) Suc.prems(1) opened] .
  then have "inited t2" using initialized_onceD(7) [OF assms(1) _ login] by simp
  then show ?case using Suc.IH rest by blast
qed simp

lemma session_pool_open_inited:
  assumes once: "initialized_once P inited" and run: "session_pool_open P config t = (Ok pool, t')"
  shows "inited (pool_pkcs11 pool)" and "\<not> inited t"
proof -
  from run obtain u t1 u' t2 slot t3 lim t4 u'' t5 ss t6 where
    new: "pk_new P (cfg_module_path config) t = (Ok u, t1)" and init: "pk_initialize P t1 = (Ok u', t2)"
    and slot: "resolve_slot P (cfg_slot_id config) t2 = (Ok slot, t3)"
    and lim: "pk_max_session_count P slot t3 = (Ok lim, t4)"
    and mech: "ensure_mechanism_supported P slot EcdsaP256Sha256 t4 = (Ok u'', t5)"
    and opened: "open_sessions P slot (cfg_pin config) (cfg_pool_size config) [] t5 = (Ok ss, t6)"
    and pool: "pool_pkcs11 pool = t6"
    unfolding session_pool_open_def act_bind_eq_Ok act_map_err_eq_Ok
    by (elim exE conjE)
      (simp only: act_lift_eq act_bind_eq_Ok Pair_inject outcome.distinct simp_thms split: if_splits; force)
  have "inited t2" using initialized_once_first [OF once init] .
  moreover have "inited t3" if "inited t2"
    using slot that initialized_onceD(3) [OF once that]
    by (auto simp: resolve_slot_def outcome_simps)
  moreover have "inited t4" if "inited t3" using initialized_onceD(4) [OF once that lim] .
  moreover have "inited t5" if "inited t4"
    using mech that initialized_onceD(5) [OF once that]
    by (auto simp: ensure_mechanism_supported_def outcome_simps split: if_splits)
  ultimately show "inited (pool_pkcs11 pool)" using open_sessions_inited [OF once _ opened] pool by simp
  show "\<not> inited t"
    using initialized_onceD(2) [OF once _ new] initialized_onceD(1) [OF once, of t1] init by blast
qed

lemma public_key_inited:
  assumes once: "initialized_once P inited" and "inited (pool_pkcs11 p)" "public_key P wakes key p = (Ok pk, p')"
  shows "inited (pool_pkcs11 p')"
  using assms(3) by (rule public_key_Ok) (use initialized_onceD(8,9) [OF once] assms(2) in blast)

text \<open>An opened sealer leaves the module initialised, and none opens on a module that is.\<close>

lemma assertion_sealer_open_inited:
  assumes "initialized_once P inited" "assertion_sealer_open X P wakes s t = Ok sl"
  shows "inited (pool_pkcs11 (sl_pool sl))"
proof -
  from assms(2) obtain pool where pool: "fst (session_pool_open P (hsm_config_of s) t) = Ok pool"
    by (auto simp: assertion_sealer_open_def Let_def outcome_simps)
  obtain r p' where run: "public_key P wakes (KeyRef_new (set_key_label s)) pool = (r, p')" by fastforce
  with assms(2) pool obtain pk where "r = Ok pk" "sl_pool sl = p'"
    by (auto simp: assertion_sealer_open_def Let_def outcome_simps)
  with pool run show ?thesis
    using public_key_inited [OF assms(1)] session_pool_open_inited(1) [OF assms(1)] by (metis prod.collapse)
qed

lemma audit_sealer_open_inited:
  assumes "initialized_once P inited" "inited t"
  shows "audit_sealer_open X P wakes s t \<noteq> Ok sl"
proof
  assume "audit_sealer_open X P wakes s t = Ok sl"
  then obtain pool where "fst (session_pool_open P (hsm_config_of s) t) = Ok pool"
    by (auto simp: audit_sealer_open_def Let_def outcome_simps split: prod.splits)
  then show False using session_pool_open_inited(2) [OF assms(1)] assms(2) by (metis prod.collapse)
qed

lemma idp_main_initialized_once: "initialized_once P inited \<Longrightarrow> idp_main X P h t \<noteq> Ok svc"
  by (auto simp: idp_main_def outcome_simps dest: assertion_sealer_open_inited audit_sealer_open_inited)

end
