(* ===== verification/Reference_Runs.thy ===== *)
theory Reference_Runs
  imports Audit_Sealer Policy_Engine Webauthn
begin

section \<open>Reference runs\<close>

text \<open>
  Concrete inputs on the reference libraries and the reference token of \<open>Signing\<close>: claims, audit
  events, a request to the sealing service, two ceremonies, a decision point on a small stand-in for
  the Cedar engine. They show that the hypotheses of the properties hold together; each run is
  evaluated by the kernel.
\<close>

fun is_ok :: "('a, 'e) outcome \<Rightarrow> bool" where
  "is_ok (Ok x) = True"
| "is_ok _ = False"

lemma is_okE:
  assumes "is_ok (fst p)"
  obtains x s where "p = (Ok x, s)"
  using assms by (cases p; cases "fst p") auto

definition ref_keys :: "accepted_verifying_key list" where
  "ref_keys = [\<lparr>avk_key_id = sl_key_id ref_sealer, avk_raw = ref_public_key\<rparr>]"

lemma ref_keys_find:
  "find (\<lambda>k. avk_key_id k = sl_key_id ref_sealer) ref_keys =
     Some \<lparr>avk_key_id = sl_key_id ref_sealer, avk_raw = ref_public_key\<rparr>"
  by (simp add: ref_keys_def)

subsection \<open>An assertion\<close>

definition ref_claims :: assertion_claims where
  "ref_claims =
     \<lparr>ac_authority_domain = ''idp'', ac_subject_id = ''s1'', ac_aal = Aal2,
      ac_auth_method = ''webauthn'', ac_audience = ''broker'', ac_issued_at = ''2026-08-01T10:00:00Z'',
      ac_expires_at = ''2026-08-01T10:05:00Z'',
      ac_audit_event_id = ''0198e6c1-0000-7000-8000-000000000000''\<rparr>"

definition ref_identity_policy :: identity_acceptance_policy where
  "ref_identity_policy =
     \<lparr>iap_accepted_suites = [IDENTITY_SUITE_V1], iap_now = ''2026-08-01T10:01:00Z'',
      iap_expected_authority_domain = ''idp''\<rparr>"

lemma ref_assertion_size:
  "case fst (assertion_seal ref_ext ref_pkcs11 [] ref_claims ref_sealer) of
     Ok bs \<Rightarrow> length bs \<le> IDENTITY_MAX_BYTES | _ \<Rightarrow> False"
  by code_simp

lemma ref_assertion_run:
  "\<exists>bs sl. assertion_seal ref_ext ref_pkcs11 [] ref_claims ref_sealer = (Ok bs, sl) \<and> length bs \<le> IDENTITY_MAX_BYTES"
  using ref_assertion_size by (cases "assertion_seal ref_ext ref_pkcs11 [] ref_claims ref_sealer")
    (auto split: outcome.splits)

lemma ref_window:
  "as_bytes (ac_issued_at ref_claims) \<le> as_bytes (iap_now ref_identity_policy)"
  "as_bytes (iap_now ref_identity_policy) < as_bytes (ac_expires_at ref_claims)"
  by code_simp+

lemma ref_assertion_seal: "\<exists>bs. assertion_seal X ref_pkcs11 [] c ref_sealer = (Ok bs, ref_sealer)"
proof -
  have msg: "identity_signed_message X (identity_unsigned_document c) =
      (Ok (identity_message X (identity_wire_of c [])) :: (bytes, identity_seal_error) outcome)"
    unfolding identity_unsigned_document_wire [of c "[]"] by (rule identity_message_eq)
  have full: "\<exists>bs. canonical_bytes X (JObject (map_insert ''signatures'' (JArray [component_json k])
        (identity_unsigned_document c))) = (Ok bs :: (bytes, identity_seal_error) outcome)" for k
    unfolding canonical_bytes_eq by (simp add: identity_unsigned_document_def component_json_def)
  show ?thesis
    using full by (simp add: assertion_seal_def Let_def act_bind_def act_lift_def msg act_map_err_def with_pool_def
        ref_sign_digest)
qed

subsection \<open>An audit event\<close>

definition ref_request :: seal_request where
  "ref_request =
     \<lparr>sr_event_id = ''0198e6c1-0000-7000-8000-000000000000'', sr_sequence = 0,
      sr_prev_hash = replicate 32 0, sr_occurred_at = Some \<lparr>pt_seconds = 1777000000, pt_nanos = 0\<rparr>,
      sr_authority_domain = ''broker'', sr_event_type = ''quorum.operation'',
      sr_actor = Some \<lparr>pa_subject_id = ''s1'', pa_kind = ''human'', pa_aal = None, pa_auth_method = None\<rparr>,
      sr_target = None, sr_outcome = ''success'', sr_context = None, sr_decision = None\<rparr>"

definition ref_audit_policy :: audit_acceptance_policy where
  "ref_audit_policy =
     \<lparr>aap_accepted_suites = [AUDIT_SUITE_V1], aap_expected_authority_domain = ''broker''\<rparr>"

definition ref_event :: audit_event_fields where
  "ref_event =
     \<lparr>ev_event_id = ''0198e6c1-0000-7000-8000-000000000000'', ev_sequence = 0,
      ev_prev_hash = replicate 32 0, ev_occurred_at = ''2026-04-24T03:06:40Z'',
      ev_authority_domain = ''broker'', ev_event_type = QuorumOperation,
      ev_actor = \<lparr>actor_subject_id = ''s1'', actor_kind_of = Human, actor_aal = None, actor_auth_method = None\<rparr>,
      ev_target = None, ev_outcome = OutcomeSuccess, ev_context = None, ev_decision = None\<rparr>"

lemma ref_day: "civil_from_days 20567 = (2026, 4, 24)"
  by code_simp

lemma ref_instant: "rfc3339_from_seconds 1777000000 = ''2026-04-24T03:06:40Z''"
  by (simp add: rfc3339_from_seconds_def ref_day fmt_two fmt_four char_of_def bit_0)

lemma ref_request_fields: "fields_from_request ref_request = Ok ref_event"
  by (simp add: fields_from_request_def ref_request_def ref_event_def event_type_from_str_def
      outcome_from_str_def array32_def Let_def ref_instant actor_from_proto_def actor_kind_from_str_def
      field_result_def SubjectId_new_def EventId_new_def AuthorityDomain_new_def bounded_ascii_new_def ascii_byte_ok_def uuid_new_def Sequence_new_def
      Timestamp_new_def timestamp_valid_def is_ascii_hexdigit_def is_ascii_digit_def)

lemma ref_event_size: "is_ok (validate_size ref_ext (audit_unsigned_document ref_event) (sl_key_id ref_sealer))"
  by code_simp

text \<open>Sealing on the reference token succeeds for every event that passes the guards.\<close>

lemma ref_audit_seal:
  assumes "validate_decision_coupling (ev_event_type e) (ev_decision e) = Ok ()"
    and "is_ok (validate_size X (audit_unsigned_document e) (sl_key_id ref_sealer))"
  shows "\<exists>bs. audit_seal X ref_pkcs11 [] e ref_sealer = (Ok bs, ref_sealer)"
proof -
  obtain u where size: "validate_size X (audit_unsigned_document e) (sl_key_id ref_sealer) = Ok u"
    using assms(2) by (cases "validate_size X (audit_unsigned_document e) (sl_key_id ref_sealer)") auto
  have msg: "audit_signed_message X AUDIT_DOMAIN_PREFIX_V1 (audit_unsigned_document e) =
      (Ok (audit_message X (audit_wire_of e [])) :: (bytes, audit_seal_error) outcome)"
    unfolding audit_unsigned_document_wire [of e "[]"] by (rule audit_message_eq)
  have full: "\<exists>bs. canonical_bytes X (JObject (map_insert ''signature''
        (signature_json AUDIT_SUITE_V1 [audit_component k raw]) (audit_unsigned_document e))) =
      (Ok bs :: (bytes, audit_seal_error) outcome)" for k raw
    unfolding audit_full_document_wire audit_canonical by simp
  have pool: "ref_sealer\<lparr>sl_pool := sl_pool ref_sealer\<rparr> = ref_sealer" by simp
  show ?thesis
    using full [of "sl_key_id ref_sealer"]
    by (simp add: audit_seal_def Let_def act_bind_def act_lift_def assms(1) size msg act_map_err_def with_pool_def
        ref_sign_digest pool)
qed

lemma ref_event_run: "\<exists>bs. audit_seal ref_ext ref_pkcs11 [] ref_event ref_sealer = (Ok bs, ref_sealer)"
  by (rule ref_audit_seal) (simp add: ref_event_def validate_decision_coupling_def requires_decision_def,
      rule ref_event_size)

lemma ref_request_run: "\<exists>resp. sealer_service_seal ref_ext ref_pkcs11 [] ref_request ref_sealer = (Ok resp, ref_sealer)"
  using ref_event_run by (auto simp: sealer_service_seal_def ref_request_fields act_bind_def act_lift_def
      act_map_err_def act_return_def)

text \<open>The chain of one event, as it is read back after verification.\<close>

definition ref_sealed :: bytes where
  "ref_sealed = (case fst (audit_seal ref_ext ref_pkcs11 [] ref_event ref_sealer) of Ok bs \<Rightarrow> bs)"

definition ref_entry :: chain_entry where
  "ref_entry = \<lparr>ce_authority_domain = ''broker'', ce_sequence = 0, ce_prev_hash = CHAIN_ROOT,
     ce_sealed_bytes = ref_sealed\<rparr>"

lemma ref_sealed_run: "audit_seal ref_ext ref_pkcs11 [] ref_event ref_sealer = (Ok ref_sealed, ref_sealer)"
  using ref_event_run by (auto simp: ref_sealed_def)

lemma ref_sealed_verifies:
  "audit_seal_verify ref_ext ref_keys ref_sealed ref_audit_policy =
     Ok \<lparr>ve_event_id = ev_event_id ref_event, ve_sequence = 0, ve_prev_hash = CHAIN_ROOT,
         ve_occurred_at = ev_occurred_at ref_event, ve_authority_domain = ''broker'',
         ve_event_type = QuorumOperation\<rparr>"
  using ref_token.audit_seal_verifies [OF ref_sealed_run _ ref_keys_find, of ref_audit_policy]
  by (simp add: ref_sealer_def ref_event_def audit_event_typed_def ref_audit_policy_def CHAIN_ROOT_def)

lemma ref_chain_verifies: "verify_chain ref_ext [ref_entry] = Ok ()"
  by (simp add: verify_chain_def verify_entry_def ref_entry_def)

subsection \<open>Two ceremonies\<close>

text \<open>
  A security key that registers with the format \<open>none\<close> and signs with EdDSA. The CBOR and COSE readers
  know the two documents of the run; base64url is read as the bytes themselves.
\<close>

definition ref_rp_id :: string where
  "ref_rp_id = ''example.org''"

definition ref_auth_data :: "u8 \<Rightarrow> u8 \<Rightarrow> bytes" where
  "ref_auth_data flags n = ref_digest (as_bytes ref_rp_id) @ [flags, 0, 0, 0, n]"

definition ref_registration_auth_data :: bytes where
  "ref_registration_auth_data = ref_auth_data 0x41 1 @ replicate 16 7 @ [0, 1] @ [9] @ [0xA5]"

definition ref_wext :: webauthn_ext where
  "ref_wext =
     \<lparr>ext_to_vec = json_write, ext_from_slice = json_read, ext_sha256 = ref_digest,
      ext_p256_verify = ext_p256_verify ref_ext, ext_ed25519_verify = (\<lambda>pk m sig. sig = pk @ ref_digest m),
      ext_b64url_decode = (\<lambda>s. Some (as_bytes s)),
      ext_cbor_decode = (\<lambda>bs. case bs of
          [] \<Rightarrow> None
        | b # bs' \<Rightarrow> Some (if b = 0xA3 then CMap [(CText ''fmt'', CText ''none''), (CText ''attStmt'', CMap []),
                                (CText ''authData'', CBytes ref_registration_auth_data)] else CMap [], 1)),
      ext_cose_key = (\<lambda>bs. if bs = [0xA5]
        then Some \<lparr>ck_kty = KtyOKP, ck_params = [(LabelInt (-1), CInteger 6), (LabelInt (-2), CBytes (replicate 32 5))]\<rparr>
        else None)\<rparr>"

definition ref_client_data :: "string \<Rightarrow> bytes" where
  "ref_client_data ceremony = json_write (JObject
     [(''type'', JString ceremony), (''challenge'', JString ''c1''), (''origin'', JString ''https:example'')])"

definition ref_registration :: registration_input where
  "ref_registration =
     \<lparr>ri_client_data_json = ref_client_data ''webauthn.create'', ri_attestation_object = [0xA3],
      ri_expected_origin = ''https:example'', ri_expected_rp_id = ref_rp_id,
      ri_expected_challenge = as_bytes ''c1'', ri_policy = PolicyAny\<rparr>"

lemma ref_registration_run: "is_ok (verify_registration_ceremony ref_wext ref_registration)"
  by code_simp

definition ref_credential :: registered_credential where
  "ref_credential =
     \<lparr>rc_subject_id = ''s1'', rc_credential_id = [9], rc_public_key_algorithm = EdDsa,
      rc_public_key_raw = replicate 32 5, rc_counter_supported = True, rc_stored_sign_count = 1,
      rc_revoked = False\<rparr>"

definition ref_authentication :: authentication_input where
  "ref_authentication =
     \<lparr>ai_client_data_json = ref_client_data ''webauthn.get'', ai_authenticator_data = ref_auth_data 0x05 2,
      ai_signature = replicate 32 5 @ ref_digest (ref_auth_data 0x05 2 @ ref_digest (ref_client_data ''webauthn.get'')),
      ai_expected_origin = ''https:example'', ai_expected_rp_id = ref_rp_id,
      ai_expected_challenge = as_bytes ''c1'', ai_credential = ref_credential\<rparr>"

lemma ref_authentication_run: "is_ok (verify_authentication_ceremony ref_wext ref_authentication)"
  by code_simp

subsection \<open>A decision\<close>

text \<open>
  The stand-in for the Cedar engine keeps what it is given and allows a principal authenticated at
  \<open>AAL3\<close>; the annotation of its only policy is the stable identifier.
\<close>

type_synonym ref_entity = "entity_uid \<times> (string \<rightharpoonup> restricted_expression)"

definition ref_cedar ::
  "(string, string, ref_entity, ref_entity list, (string \<times> restricted_expression) list,
    entity_uid \<times> entity_uid \<times> entity_uid) cedar" where
  "ref_cedar =
     \<lparr>cedar_schema_from_json_str = Ok, cedar_parse_policies = Ok, cedar_parse_type_name = Ok,
      cedar_new_record = (\<lambda>kvs. Ok (RRecord kvs)), cedar_entity_new = (\<lambda>uid attrs. Ok (uid, attrs)),
      cedar_context_from_pairs = Ok, cedar_entities_from_entities = (\<lambda>es schema. Ok es),
      cedar_request_new = (\<lambda>p a r c schema. Ok (p, a, r)),
      cedar_is_authorized = (\<lambda>q policies es.
        \<lparr>cr_decision = (if snd (es ! 0) ''aal'' = Some (RString ''AAL3'') then CedarAllow else CedarDeny),
         cr_reasons = [''policy0'']\<rparr>),
      cedar_annotation = (\<lambda>policies i key. if i = ''policy0'' \<and> key = ''id'' then Some ''db-connect'' else None)\<rparr>"

lemma ref_cedar_returns: "cedar_returns ref_cedar"
  by (simp add: cedar_returns_def ref_cedar_def)

definition ref_time :: proto_timestamp where
  "ref_time = \<lparr>pt_seconds = 1777000000, pt_nanos = 0\<rparr>"

definition ref_decision_request :: decision_request where
  "ref_decision_request =
     \<lparr>dr_request_id = ''r1'',
      dr_principal = Some \<lparr>pr_subject_id = ''s1'', pr_aal = 3, pr_auth_method = ''webauthn'',
        pr_authenticated_at = Some ref_time, pr_roles = [''dba''], pr_authority_domain = ''corp''\<rparr>,
      dr_action = Some \<lparr>am_verb = ''db.connect''\<rparr>,
      dr_resource = Some \<lparr>rs_type = ''Database'', rs_id = ''db1'', rs_authority_domain = ''corp'',
        rs_attributes = [(''environment'', ''production'')]\<rparr>,
      dr_context = Some \<lparr>cx_requested_at = Some ref_time, cx_source_network = ''10.0.0.0'',
        cx_posture = Some \<lparr>dp_managed = True, dp_disk_encrypted = True, dp_agent_version = ''2'',
          dp_evaluated_at = Some ref_time\<rparr>,
        cx_ticket_ref = ''T1'', cx_justification = ''j'',
        cx_approvals = [\<lparr>ap_approver_id = ''s2'', ap_approved_at = Some ref_time, ap_signature = []\<rparr>]\<rparr>,
      dr_policy_version = []\<rparr>"

definition ref_dir :: "(unit dir_entry, unit) outcome list" where
  "ref_dir =
     [Ok \<lparr>dn_file_name = ''b.cedar'', dn_utf8 = True, dn_contents = Ok ''permit''\<rparr>,
      Ok \<lparr>dn_file_name = ''a.cedar'', dn_utf8 = True, dn_contents = Ok ''forbid''\<rparr>]"

definition ref_pdp :: "(string, string) pdp" where
  "ref_pdp = (case pdp_load ref_ext ref_cedar (Ok ''schema'') (Ok ref_dir) of Ok p \<Rightarrow> p)"

lemma ref_pdp_load: "pdp_load ref_ext ref_cedar (Ok ''schema'') (Ok ref_dir) = Ok ref_pdp"
proof -
  have "is_ok (pdp_load ref_ext ref_cedar (Ok ''schema'') (Ok ref_dir))"
    by code_simp
  then show ?thesis
    by (cases "pdp_load ref_ext ref_cedar (Ok ''schema'') (Ok ref_dir)") (simp_all add: ref_pdp_def)
qed

lemma ref_decision_request_typed: "request_typed ref_decision_request"
  by (simp add: request_typed_def ref_decision_request_def time_ok_def i64_ok_def ref_time_def)

lemma ref_translate:
  "\<exists>q es. translate ref_cedar ref_decision_request schema = Ok (q, es) \<and>
     cr_decision (cedar_is_authorized ref_cedar q policies es) = CedarAllow"
  by (simp add: translate_def ref_decision_request_def ref_cedar_def entity_uid_new_def principal_entity_def
      database_entity_def build_context_def approval_record_def auth_level_to_str_def)

lemma ref_decide_run:
  "\<exists>resp. pdp_decide ref_ext ref_cedar ref_pdp ref_decision_request =
     (Ok resp :: (decision_response, status) outcome)"
  by (rule pdp_decide_Ok [OF ref_cedar_returns ref_decision_request_typed])

definition ref_decision_sealer :: "ref_token decision_sealer" where
  "ref_decision_sealer =
     \<lparr>sl_pool = sl_pool ref_sealer, sl_key = sl_key ref_sealer, sl_key_id = sl_key_id ref_sealer,
      ds_public_key_sec1 = ref_public_key\<rparr>"

lemma ref_decision_seal:
  "\<exists>sig. decision_seal ref_ext ref_pkcs11 [] fs ref_decision_sealer =
     (Ok (sig, sl_key_id ref_sealer), ref_decision_sealer)"
  by (simp add: decision_seal_def decision_message_eq act_bind_def act_lift_def act_map_err_def with_pool_def
      ref_sign_digest act_return_def ref_decision_sealer_def)

definition ref_engine :: "(string, string, ref_token) policy_engine" where
  "ref_engine =
     \<lparr>pe_pdp = ref_pdp, pe_sealer = ref_decision_sealer,
      pe_verifying_key = \<lparr>avk_key_id = sl_key_id ref_sealer, avk_raw = ref_public_key\<rparr>\<rparr>"

lemma ref_engine_new: "policy_engine_new ref_pdp ref_decision_sealer = Ok ref_engine"
  by (simp add: policy_engine_new_Ok ref_engine_def ref_decision_sealer_def ref_public_key_def)

lemma ref_engine_run:
  "\<exists>resp. policy_engine_decide ref_ext ref_cedar ref_pkcs11 [] j (Some 1777000000) ref_decision_request ref_engine =
     (Ok resp, ref_engine)"
proof -
  obtain r0 where r0: "pdp_decide ref_ext ref_cedar ref_pdp ref_decision_request =
      (Ok r0 :: (decision_response, status) outcome)" using ref_decide_run by blast
  have now: "rfc3339_now (Some 1777000000) = (Ok (rfc3339_from_seconds 1777000000) :: (string, status) outcome)"
    by (simp add: rfc3339_now_def)
  obtain fs where fs: "decision_fields_of r0 (rfc3339_from_seconds 1777000000) = Ok fs"
    using decision_fields_of_seconds [of r0 ref_time] by (simp add: ref_time_def min_seconds_def max_seconds_def)
  have inv: "request_time_from_rfc3339 (rfc3339_from_seconds 1777000000) = (Ok 1777000000 :: (int, status) outcome)"
    using rfc3339_fields [of 1777000000, where 'e = status] by (simp add: min_seconds_def max_seconds_def)
  obtain sig where "decision_seal ref_ext ref_pkcs11 [] fs ref_decision_sealer =
     (Ok (sig, sl_key_id ref_sealer), ref_decision_sealer)" using ref_decision_seal by blast
  then show ?thesis
    by (simp add: policy_engine_decide_def act_bind_def act_lift_def act_return_def with_sealer_def blocking_seal_def
        ref_engine_def r0 now fs inv)
qed

end
