(* ===== verification/Identity_Runs.thy ===== *)
theory Identity_Runs
  imports Identity_Safety Reference_Runs
begin

section \<open>A reference run of the identity provider\<close>

text \<open>
  A world with one pending challenge and one registered security key, on the reference libraries and the
  reference token, and the authentication of the holder of the key; a second world in which the key is
  registered. Both requests succeed, so the hypotheses of the properties hold together.
\<close>

definition ref_iext :: idp_ext where
  "ref_iext =
     \<lparr>ext_to_vec = json_write, ext_from_slice = json_read, ext_sha256 = ref_digest,
      ext_p256_verify = ext_p256_verify ref_ext, ext_ed25519_verify = ext_ed25519_verify ref_wext,
      ext_b64url_decode = (\<lambda>s. Some (as_bytes s)), ext_cbor_decode = ext_cbor_decode ref_wext,
      ext_cose_key = ext_cose_key ref_wext, ext_b64url_encode = map char_of_u8\<rparr>"

definition ref_config :: app_config where
  "ref_config =
     \<lparr>app_rp_id = ref_rp_id, app_origin = ''https:example'', app_authority_domain = ''idp'',
      app_audience = ''broker'', app_challenge_ttl_seconds = 120, app_assertion_ttl_seconds = 120\<rparr>"

definition ref_challenge :: string where
  "ref_challenge = replicate 32 CHR ''c''"

definition ref_idp_client_data :: "string \<Rightarrow> bytes" where
  "ref_idp_client_data ceremony = json_write (JObject
     [(''type'', JString ceremony), (''challenge'', JString ref_challenge), (''origin'', JString ''https:example'')])"

definition ref_auth_request :: authentication_verify_request where
  "ref_auth_request =
     \<lparr>avr_credential_id = map char_of_u8 [9],
      avr_client_data_json = map char_of_u8 (ref_idp_client_data ''webauthn.get''),
      avr_authenticator_data = map char_of_u8 (ref_auth_data 0x05 2),
      avr_signature = map char_of_u8 (replicate 32 5 @
        ref_digest (ref_auth_data 0x05 2 @ ref_digest (ref_idp_client_data ''webauthn.get'')))\<rparr>"

definition ref_world :: "ref_token idp_world" where
  "ref_world =
     \<lparr>db_challenges = [\<lparr>ch_challenge = as_bytes ref_challenge, ch_subject_id = ''s1'',
        ch_ceremony_kind = ''authentication'', ch_expires_at = 120000000, ch_used_at = None\<rparr>],
      db_authenticators = [\<lparr>at_credential_id = [9], at_subject_id = ''s1'', at_suite = PROOF_SUITE_V1,
        at_algorithm = ''eddsa'', at_public_key = replicate 32 5, at_sign_count = 1, at_aaguid = replicate 16 7,
        at_attestation_format = ''none'', at_counter_supported = True, at_revoked_at = None\<rparr>],
      db_events = [], db_now = 0, db_identity_link = Up, db_audit_link = Up,
      w_assertion_sealer = ref_sealer, w_audit_sealer = ref_sealer, w_clock = Some 0,
      w_random = (\<lambda>n. Some (replicate n 7)), w_uuid = ''0198e6c1-0000-7000-8000-000000000000'', w_wakes = []\<rparr>"

text \<open>The libraries and the token satisfy the interface the suites rely on.\<close>

lemma ref_idp_key: "signing_key ref_iext ref_pkcs11 ref_label ref_public_key"
proof (intro signing_key.intro zs_libraries.intro signing_key_axioms.intro)
  show "serde_json (ext_to_vec ref_iext) (ext_from_slice ref_iext)"
    by (simp add: ref_iext_def json_text.serde_json_axioms)
next
  fix m show "length (ext_sha256 ref_iext m) = 32" by (simp add: ref_iext_def)
next
  fix s t h t' m raw t''
  assume "pk_sign ref_pkcs11 s Ck_Ecdsa h (ext_sha256 ref_iext m) t' = (Ok raw, t'')"
  then show "length raw = 64 \<and> ext_p256_verify ref_iext ref_public_key m raw"
    by (auto simp: ref_pkcs11_def ref_ext_def ref_iext_def split: if_splits)
qed

definition ref_sealing_key :: sealing_key where
  "ref_sealing_key = \<lparr>sk_label = ref_label, sk_public = ref_public_key\<rparr>"

lemma ref_world_inv: "idp_inv ref_iext ref_sealing_key ref_sealing_key ''idp'' ref_world"
  by (simp add: idp_inv_def tables_wf_def chain_inv_def stored_chain_def domain_rows_def ref_world_def sealer_holds_def
      ref_sealing_key_def ref_sealer_def key_id_from_public_key_def sha256_def ref_ext_def ref_iext_def)

subsection \<open>The steps of the run\<close>

lemma run_step: "run_handler p w = (Ok x, w') \<Longrightarrow> run_handler (await p k) w = run_handler (k x) w'"
  by (simp add: run_await)

lemma run_pure_step: "r = Ok x \<Longrightarrow> run_handler (await (pure_step r) k) w = run_handler (k x) w"
  by (rule run_step) (simp add: pure_step_def)

lemma run_field_step: "r = Ok x \<Longrightarrow> run_handler (await (field_step r) k) w = run_handler (k x) w"
  unfolding field_step_def by (rule run_pure_step) simp

lemma run_query_step: "m w = (Ok x, w') \<Longrightarrow> run_handler (await (query m) k) w = run_handler (k x) w'"
  by (rule run_step) (simp add: query_def run_atomic act_map_err_def)

lemma run_clock_step: "f (w_clock w) = Ok x \<Longrightarrow> run_handler (await (read_clock f) k) w = run_handler (k x) w"
  by (rule run_step) (simp add: read_clock_def run_atomic)

lemma run_uuid_step: "run_handler (await uuid_now_v7 k) w = run_handler (k (w_uuid w)) w"
  by (rule run_step) (simp add: uuid_now_v7_def run_atomic)

definition ref_auth_claims :: authentication_claims where
  "ref_auth_claims =
     \<lparr>cl_subject_id = ''s1'', cl_credential_id = [9], cl_aal = AuthAal2, cl_method = ''webauthn/device-bound'',
      cl_new_sign_count = 2\<rparr>"

definition ref_row :: authenticator_row where
  "ref_row =
     \<lparr>aw_subject_id = ''s1'', aw_credential_id = [9], aw_algorithm = EdDsa, aw_public_key = replicate 32 5,
      aw_counter_supported = True, aw_sign_count = 1, aw_revoked = False\<rparr>"

definition ref_world1 :: "ref_token idp_world" where
  "ref_world1 = ref_world\<lparr>db_challenges := map (\<lambda>r. r\<lparr>ch_used_at := Some 0\<rparr>) (db_challenges ref_world)\<rparr>"

definition ref_world2 :: "ref_token idp_world" where
  "ref_world2 = ref_world1\<lparr>db_authenticators := map (\<lambda>r. r\<lparr>at_sign_count := 2\<rparr>) (db_authenticators ref_world)\<rparr>"

lemma ref_presented:
  "presented_challenge_bytes ref_iext (ref_idp_client_data ''webauthn.get'') = Ok (as_bytes ref_challenge)"
  by code_simp

lemma ref_ceremony:
  "verify_authentication_ceremony ref_iext
     \<lparr>ai_client_data_json = ref_idp_client_data ''webauthn.get'', ai_authenticator_data = ref_auth_data 0x05 2,
      ai_signature = replicate 32 5 @ ref_digest (ref_auth_data 0x05 2 @ ref_digest (ref_idp_client_data ''webauthn.get'')),
      ai_expected_origin = app_origin ref_config, ai_expected_rp_id = app_rp_id ref_config,
      ai_expected_challenge = as_bytes ref_challenge, ai_credential = credential_of_row ref_row\<rparr> = Ok ref_auth_claims"
  by code_simp

lemma ref_consume:
  "consume_challenge (as_bytes ref_challenge) ''authentication'' ref_world =
     (Ok (Some \<lparr>cc_subject_id = ''s1'', cc_ceremony_kind = ''authentication''\<rparr>), ref_world1)"
  by (simp add: consume_challenge_def ref_world_def ref_world1_def consumable_row_def)

lemma ref_find: "find_authenticator [9] ref_world1 = (Ok (Some ref_row), ref_world1)"
  by (simp add: find_authenticator_def ref_world_def ref_world1_def algorithm_from_column_def ref_row_def)

lemma ref_advance: "advance_sign_count [9] 2 ref_world1 = (Ok True, ref_world2)"
  by (simp add: advance_sign_count_def ref_world_def ref_world1_def ref_world2_def behind_row_def)

lemma ref_b64:
  "b64_decode ref_iext f (avr_credential_id ref_auth_request) = Ok [9]"
  "b64_decode ref_iext f (avr_client_data_json ref_auth_request) = Ok (ref_idp_client_data ''webauthn.get'')"
  "b64_decode ref_iext f (avr_authenticator_data ref_auth_request) = Ok (ref_auth_data 0x05 2)"
  "b64_decode ref_iext f (avr_signature ref_auth_request) =
     Ok (replicate 32 5 @ ref_digest (ref_auth_data 0x05 2 @ ref_digest (ref_idp_client_data ''webauthn.get'')))"
  by (simp_all add: b64_decode_def ref_iext_def ref_auth_request_def del: map_append)

lemma ref_accept: "identity_assertion_challenge (as_bytes ref_challenge) = Ok (as_bytes ref_challenge)"
  by (simp add: identity_assertion_challenge_def accept_challenge_def CHALLENGE_LEN_def ref_challenge_def)

lemma ref_refused_ceremony:
  "map_err f (verify_authentication_ceremony ref_iext
     \<lparr>ai_client_data_json = ref_idp_client_data ''webauthn.get'', ai_authenticator_data = ref_auth_data 0x05 2,
      ai_signature = replicate 32 5 @ ref_digest (ref_auth_data 0x05 2 @ ref_digest (ref_idp_client_data ''webauthn.get'')),
      ai_expected_origin = app_origin ref_config, ai_expected_rp_id = app_rp_id ref_config,
      ai_expected_challenge = as_bytes ref_challenge, ai_credential = credential_of_row ref_row\<rparr>) = Ok ref_auth_claims"
  unfolding ref_ceremony by simp

lemma ref_run_ceremony:
  "run_handler (authentication_verify ref_iext ref_pkcs11 ref_config ref_auth_request) ref_world =
     run_handler (issue_assertion ref_iext ref_pkcs11 ref_config ref_auth_claims) ref_world2"
proof -
  have "rc_credential_id (credential_of_row ref_row) = [9]" "cl_new_sign_count ref_auth_claims = 2"
    by (simp_all add: credential_of_row_def ref_row_def ref_auth_claims_def)
  then have advance: "advance_sign_count (rc_credential_id (credential_of_row ref_row)) (cl_new_sign_count ref_auth_claims)
      ref_world1 = (Ok True, ref_world2)" by (simp add: ref_advance)
  show ?thesis
    unfolding authentication_verify_def
    by (simp only: run_pure_step [OF ref_b64(1)] run_pure_step [OF ref_b64(2)] run_pure_step [OF ref_b64(3)]
        run_pure_step [OF ref_b64(4)] run_pure_step [OF ref_presented]
        run_query_step [of "consume_challenge (as_bytes ref_challenge) ''authentication''", OF ref_consume]
        run_pure_step [OF ok_or.simps(2)] run_query_step [of "find_authenticator [9]", OF ref_find] run_pure_step [OF ref_accept]
        run_pure_step [OF ref_refused_ceremony] run_query_step [of "advance_sign_count (rc_credential_id (credential_of_row ref_row)) (cl_new_sign_count ref_auth_claims)", OF advance] not_True_eq_False if_False)
qed

subsection \<open>The assertion and its event\<close>

definition ref_uuid :: string where
  "ref_uuid = ''0198e6c1-0000-7000-8000-000000000000''"

definition ref_auth_assertion_claims :: assertion_claims where
  "ref_auth_assertion_claims =
     \<lparr>ac_authority_domain = ''idp'', ac_subject_id = ''s1'', ac_aal = Aal2, ac_auth_method = ''webauthn/device-bound'',
      ac_audience = ''broker'', ac_issued_at = ''1970-01-01T00:00:00Z'', ac_expires_at = ''1970-01-01T00:02:00Z'',
      ac_audit_event_id = ref_uuid\<rparr>"

definition ref_assertion_bytes :: bytes where
  "ref_assertion_bytes =
     (case fst (assertion_seal ref_iext ref_pkcs11 [] ref_auth_assertion_claims ref_sealer) of Ok bs \<Rightarrow> bs)"

definition ref_assertion_hex :: string where
  "ref_assertion_hex = ''7b2261616c223a2241414c32222c2261756469656e6365223a2262726f6b6572''"

lemma ref_assertion_hex: "hex_encode (ref_digest ref_assertion_bytes) = ref_assertion_hex"
  by code_simp

definition ref_auth_event :: audit_event_fields where
  "ref_auth_event =
     \<lparr>ev_event_id = ref_uuid, ev_sequence = 0, ev_prev_hash = CHAIN_ROOT, ev_occurred_at = ''1970-01-01T00:00:00Z'',
      ev_authority_domain = ''idp'', ev_event_type = AuthenticationSucceeded,
      ev_actor = \<lparr>actor_subject_id = ''s1'', actor_kind_of = Human, actor_aal = None, actor_auth_method = None\<rparr>,
      ev_target = Some \<lparr>target_type = ''identity_assertion'', target_id = ref_assertion_hex\<rparr>,
      ev_outcome = OutcomeSuccess, ev_context = None, ev_decision = None\<rparr>"

lemma ref_auth_event_size:
  "is_ok (validate_size ref_iext (audit_unsigned_document ref_auth_event) (sl_key_id ref_sealer))"
  by code_simp

lemma ref_assertion_bytes_size: "length ref_assertion_bytes \<le> IDENTITY_MAX_BYTES"
  by code_simp

lemma ref_assertion_bytes_seal:
  "assertion_seal ref_iext ref_pkcs11 [] ref_auth_assertion_claims ref_sealer = (Ok ref_assertion_bytes, ref_sealer)"
  using ref_assertion_seal [of ref_iext ref_auth_assertion_claims] by (auto simp: ref_assertion_bytes_def)

lemma ref_auth_event_seal: "\<exists>bs. audit_seal ref_iext ref_pkcs11 [] ref_auth_event ref_sealer = (Ok bs, ref_sealer)"
  by (rule ref_audit_seal [OF _ ref_auth_event_size])
    (simp add: ref_auth_event_def validate_decision_coupling_def requires_decision_def)

lemma ref_clock:
  "idp_rfc3339_now (w_clock ref_world2) = (Ok ''1970-01-01T00:00:00Z'' :: (string, api_error) outcome)"
  "rfc3339_now_and_after (app_assertion_ttl_seconds ref_config) (w_clock ref_world2) =
     (Ok (''1970-01-01T00:00:00Z'', ''1970-01-01T00:02:00Z'') :: (string \<times> string, api_error) outcome)"
  by code_simp+

lemma ref_fields:
  "SubjectId_new ''s1'' = Ok ''s1''" "AuthMethod_new ''webauthn/device-bound'' = Ok ''webauthn/device-bound''"
  "Audience_new ''broker'' = Ok ''broker''" "Timestamp_new ''1970-01-01T00:00:00Z'' = Ok ''1970-01-01T00:00:00Z''"
  "Timestamp_new ''1970-01-01T00:02:00Z'' = Ok ''1970-01-01T00:02:00Z''" "EventId_new ref_uuid = Ok ref_uuid"
  "AuthorityDomain_new ''idp'' = Ok ''idp''" "Sequence_new 0 = Ok 0"
  "ShortText_new ''identity_assertion'' = Ok ''identity_assertion''" "ShortText_new ref_assertion_hex = Ok ref_assertion_hex"
  by code_simp+

lemma ref_head:
  "audit_chain_head ref_iext ''idp'' ref_world2 =
     (Ok \<lparr>hd_next_sequence = 0, hd_prev_hash = CHAIN_ROOT\<rparr>, ref_world2)"
  by (simp add: audit_chain_head_def ref_world2_def ref_world1_def ref_world_def)

definition ref_stored_row :: "bytes \<Rightarrow> events_row" where
  "ref_stored_row bs =
     \<lparr>er_event_id = ref_uuid, er_sequence = 0, er_occurred_at = ''1970-01-01T00:00:00Z'', er_authority_domain = ''idp'',
      er_event_type = ''authentication.succeeded'', er_actor = actor_json ''s1'', er_outcome = ''success'',
      er_prev_hash = hex_encode CHAIN_ROOT, er_signature = event_signature_json bs, er_sealed_bytes = bs\<rparr>"

lemma ref_append:
  "audit_append ref_uuid 0 ''1970-01-01T00:00:00Z'' ''idp'' ''authentication.succeeded'' (actor_json ''s1'') ''success''
     (idp_hex_encode CHAIN_ROOT) (event_signature_json bs) bs ref_world2 =
     (Ok (), ref_world2\<lparr>db_events := [ref_stored_row bs]\<rparr>)"
proof -
  have "length (hex_encode CHAIN_ROOT) = 64" "list_all is_lower_hexdigit (hex_encode CHAIN_ROOT)"
    by code_simp+
  then show ?thesis
    by (simp add: audit_append_def ref_world2_def ref_world1_def ref_world_def ref_stored_row_def)
qed

lemma run_seal_steps:
  "assertion_seal X P (w_wakes w) c (w_assertion_sealer w) = (Ok bs, sl) \<Longrightarrow>
     run_handler (await (spawn_assertion_seal X P c) k) w = run_handler (k bs) (w\<lparr>w_assertion_sealer := sl\<rparr>)"
  "audit_seal X P (w_wakes w) e (w_audit_sealer w) = (Ok bs, sl) \<Longrightarrow>
     run_handler (await (spawn_audit_seal X P e) k') w = run_handler (k' bs) (w\<lparr>w_audit_sealer := sl\<rparr>)"
  by (rule run_step; simp add: spawn_assertion_seal_def spawn_audit_seal_def run_atomic)+

lemma ref_world2_sealers:
  "w_wakes ref_world2 = []" "w_assertion_sealer ref_world2 = ref_sealer" "w_audit_sealer ref_world2 = ref_sealer"
  "ref_world2\<lparr>w_assertion_sealer := ref_sealer\<rparr> = ref_world2" "ref_world2\<lparr>w_audit_sealer := ref_sealer\<rparr> = ref_world2"
  "w_uuid ref_world2 = ref_uuid"
  by (simp_all add: ref_world2_def ref_world1_def ref_world_def ref_uuid_def)

lemma ref_config_fields:
  "app_authority_domain ref_config = ''idp''" "app_audience ref_config = ''broker''"
  by (simp_all add: ref_config_def)

lemma run_seal_and_append:
  assumes "audit_chain_head X (app_authority_domain cfg) w = (Ok \<lparr>hd_next_sequence = n, hd_prev_hash = p\<rparr>, w)"
    and "run_handler (case explicit of Some (ident, _, _) \<Rightarrow> pure_step (Ok ident) | None \<Rightarrow> uuid_now_v7) w = (Ok i, w)"
    and "traverse_option audit_target_of explicit = Ok target"
    and "EventId_new i = Ok i" and "Sequence_new n = Ok n"
    and "idp_rfc3339_now (w_clock w) = (Ok now :: (string, api_error) outcome)" and "Timestamp_new now = Ok now"
    and "AuthorityDomain_new (app_authority_domain cfg) = Ok (app_authority_domain cfg)"
    and "SubjectId_new subject = Ok subject"
    and "audit_seal X P (w_wakes w)
       \<lparr>ev_event_id = i, ev_sequence = n, ev_prev_hash = p, ev_occurred_at = now,
        ev_authority_domain = app_authority_domain cfg, ev_event_type = ty,
        ev_actor = \<lparr>actor_subject_id = subject, actor_kind_of = Human, actor_aal = None, actor_auth_method = None\<rparr>,
        ev_target = target, ev_outcome = res, ev_context = map_option justification_context justification,
        ev_decision = None\<rparr> (w_audit_sealer w) = (Ok bs, sl)"
    and "w\<lparr>w_audit_sealer := sl\<rparr> = w"
    and "audit_append i n now (app_authority_domain cfg) (event_type_str ty) (actor_json subject)
       (outcome_str res) (idp_hex_encode p) (event_signature_json bs) bs w = (Ok (), w')"
  shows "run_handler (seal_and_append_audit_event X P cfg ty subject explicit justification res) w = (Ok (), w')"
  unfolding seal_and_append_audit_event_def
  by (simp only: run_query_step [of "audit_chain_head X (app_authority_domain cfg)", OF assms(1)] run_step [OF assms(2)]
      run_pure_step [OF assms(3)] run_field_step [OF assms(4)] chain_head.simps run_field_step [OF assms(5)]
      run_clock_step [of idp_rfc3339_now, OF assms(6)] run_field_step [OF assms(7)] run_field_step [OF assms(8)]
      run_field_step [OF assms(9)] run_seal_steps(2) [OF assms(10)] assms(11)
      run_query_step [of "audit_append i n now (app_authority_domain cfg) (event_type_str ty)
        (actor_json subject) (outcome_str res) (idp_hex_encode p) (event_signature_json bs) bs", OF assms(12)]
      run_pure act_lift_def)

lemma ref_run_event:
  "\<exists>bs. run_handler (seal_and_append_audit_event ref_iext ref_pkcs11 ref_config AuthenticationSucceeded ''s1''
      (Some (ref_uuid, ''identity_assertion'', ref_assertion_hex)) None OutcomeSuccess) ref_world2 =
     (Ok (), ref_world2\<lparr>db_events := [ref_stored_row bs]\<rparr>)"
proof -
  obtain bs where bs: "audit_seal ref_iext ref_pkcs11 (w_wakes ref_world2) ref_auth_event (w_audit_sealer ref_world2) =
      (Ok bs, ref_sealer)" using ref_auth_event_seal by (auto simp: ref_world2_sealers)
  have target: "traverse_option audit_target_of (Some (ref_uuid, ''identity_assertion'', ref_assertion_hex)) =
      Ok (Some \<lparr>target_type = ''identity_assertion'', target_id = ref_assertion_hex\<rparr>)"
    by (simp add: audit_target_of_def ref_fields)
  show ?thesis
    by (rule exI [of _ bs], rule run_seal_and_append
        [where p = CHAIN_ROOT and bs = bs,
          OF _ _ target ref_fields(6) ref_fields(8) ref_clock(1) ref_fields(4) _ ref_fields(1) _ ref_world2_sealers(5)])
      (use bs in \<open>simp_all only: ref_config_fields ref_head ref_fields ref_auth_event_def
        option.case prod.case run_pure act_lift_def event_type_str.simps outcome_str.simps option.map\<close>,
        rule ref_append)
qed

lemma ref_run_assertion:
  "\<exists>bs. run_handler (issue_assertion ref_iext ref_pkcs11 ref_config ref_auth_claims) ref_world2 =
     (Ok (b64_encode ref_iext ref_assertion_bytes), ref_world2\<lparr>db_events := [ref_stored_row bs]\<rparr>)"
proof -
  obtain bs where event: "run_handler (seal_and_append_audit_event ref_iext ref_pkcs11 ref_config AuthenticationSucceeded ''s1''
      (Some (ref_uuid, ''identity_assertion'', ref_assertion_hex)) None OutcomeSuccess) ref_world2 =
     (Ok (), ref_world2\<lparr>db_events := [ref_stored_row bs]\<rparr>)" using ref_run_event by blast
  have seal: "assertion_seal ref_iext ref_pkcs11 (w_wakes ref_world2) ref_auth_assertion_claims
      (w_assertion_sealer ref_world2) = (Ok ref_assertion_bytes, ref_sealer)"
    by (simp add: ref_world2_sealers ref_assertion_bytes_seal)
  have hex: "idp_hex_encode (sealed_assertion_digest ref_iext ref_assertion_bytes) = ref_assertion_hex"
    using ref_assertion_hex by (simp add: sealed_assertion_digest_def sha256_def ref_iext_def)
  have claims: "cl_subject_id ref_auth_claims = ''s1''" "cl_method ref_auth_claims = ''webauthn/device-bound''"
    "assurance_level_of (cl_aal ref_auth_claims) = Aal2" by (simp_all add: ref_auth_claims_def)
  show ?thesis
    unfolding issue_assertion_def ref_config_fields claims
    by (rule exI [of _ bs])
      (simp only: run_uuid_step ref_world2_sealers prod.case
        run_clock_step [of "rfc3339_now_and_after (app_assertion_ttl_seconds ref_config)", OF ref_clock(2)]
        run_field_step [OF ref_fields(1)] run_field_step [OF ref_fields(2)] run_field_step [OF ref_fields(3)]
        run_field_step [OF ref_fields(4)] run_field_step [OF ref_fields(5)] run_field_step [OF ref_fields(6)]
        run_seal_steps(1) [OF seal [unfolded ref_auth_assertion_claims_def]] hex run_step [OF event] run_pure act_lift_def)
qed

text \<open>The whole request, served alone.\<close>

lemma ref_run_authentication:
  "\<exists>bs. run_handler (router ref_iext ref_pkcs11 ref_config (PostAuthenticationVerify ref_auth_request)) ref_world =
     (Ok (AssertionReply (b64_encode ref_iext ref_assertion_bytes)), ref_world2\<lparr>db_events := [ref_stored_row bs]\<rparr>)"
proof -
  obtain bs where "run_handler (authentication_verify ref_iext ref_pkcs11 ref_config ref_auth_request) ref_world =
     (Ok (b64_encode ref_iext ref_assertion_bytes), ref_world2\<lparr>db_events := [ref_stored_row bs]\<rparr>)"
    using ref_run_assertion unfolding ref_run_ceremony by blast
  then show ?thesis by (auto simp: reply_with_def run_step run_pure act_lift_def)
qed

lemma ref_execution:
  "\<exists>bs. idp_steps ref_iext ref_pkcs11 ref_config (ref_world, [])
     (ref_world2\<lparr>db_events := [ref_stored_row bs]\<rparr>,
      [(PostAuthenticationVerify ref_auth_request, Done (Ok (AssertionReply (b64_encode ref_iext ref_assertion_bytes))))])"
  using ref_run_authentication
    process_steps_serve [of "router ref_iext ref_pkcs11 ref_config" "outside_step (app_authority_domain ref_config)"
      ref_world "[]" "PostAuthenticationVerify ref_auth_request"]
  by auto

subsection \<open>A registration\<close>

definition ref_reg_world :: "ref_token idp_world" where
  "ref_reg_world = ref_world\<lparr>db_authenticators := [],
     db_challenges := map (\<lambda>r. r\<lparr>ch_ceremony_kind := ''registration''\<rparr>) (db_challenges ref_world)\<rparr>"

definition ref_reg_request :: registration_verify_request where
  "ref_reg_request =
     \<lparr>rvr_client_data_json = map char_of_u8 (ref_idp_client_data ''webauthn.create''),
      rvr_attestation_object = map char_of_u8 [0xA3]\<rparr>"

definition ref_reg_outcome :: registration_outcome where
  "ref_reg_outcome =
     \<lparr>ro_credential_id = [9], ro_sign_count = 1, ro_attestation_format = ''none'', ro_aaguid = replicate 16 7,
      ro_public_key_algorithm = EdDsa, ro_public_key_raw = replicate 32 5\<rparr>"

definition ref_reg_world1 :: "ref_token idp_world" where
  "ref_reg_world1 = ref_reg_world\<lparr>db_challenges := map (\<lambda>r. r\<lparr>ch_used_at := Some 0\<rparr>) (db_challenges ref_reg_world)\<rparr>"

definition ref_reg_world2 :: "ref_token idp_world" where
  "ref_reg_world2 = ref_reg_world1\<lparr>db_authenticators := db_authenticators ref_world\<rparr>"

lemma ref_reg_world_inv: "idp_inv ref_iext ref_sealing_key ref_sealing_key ''idp'' ref_reg_world"
  by (simp add: idp_inv_def tables_wf_def chain_inv_def stored_chain_def domain_rows_def ref_reg_world_def ref_world_def
      sealer_holds_def ref_sealing_key_def ref_sealer_def key_id_from_public_key_def sha256_def ref_ext_def ref_iext_def)

lemma ref_reg_ceremony:
  "verify_registration_ceremony ref_iext
     \<lparr>ri_client_data_json = ref_idp_client_data ''webauthn.create'', ri_attestation_object = [0xA3],
      ri_expected_origin = app_origin ref_config, ri_expected_rp_id = app_rp_id ref_config,
      ri_expected_challenge = as_bytes ref_challenge, ri_policy = PolicyAny\<rparr> = Ok ref_reg_outcome"
  by code_simp


lemma ref_reg_refused_ceremony:
  "map_err f (verify_registration_ceremony ref_iext
     \<lparr>ri_client_data_json = ref_idp_client_data ''webauthn.create'', ri_attestation_object = [0xA3],
      ri_expected_origin = app_origin ref_config, ri_expected_rp_id = app_rp_id ref_config,
      ri_expected_challenge = as_bytes ref_challenge, ri_policy = PolicyAny\<rparr>) = Ok ref_reg_outcome"
  unfolding ref_reg_ceremony by simp

lemma ref_reg_presented:
  "presented_challenge_bytes ref_iext (ref_idp_client_data ''webauthn.create'') = Ok (as_bytes ref_challenge)"
  by code_simp

lemma ref_reg_b64:
  "b64_decode ref_iext f (rvr_client_data_json ref_reg_request) = Ok (ref_idp_client_data ''webauthn.create'')"
  "b64_decode ref_iext f (rvr_attestation_object ref_reg_request) = Ok [0xA3]"
  by (simp_all add: b64_decode_def ref_iext_def ref_reg_request_def)

lemma ref_reg_consume:
  "consume_challenge (as_bytes ref_challenge) ''registration'' ref_reg_world =
     (Ok (Some \<lparr>cc_subject_id = ''s1'', cc_ceremony_kind = ''registration''\<rparr>), ref_reg_world1)"
  by (simp add: consume_challenge_def ref_reg_world_def ref_world_def ref_reg_world1_def consumable_row_def)

lemma ref_reg_insert:
  "insert_authenticator ''s1'' [9] EdDsa (replicate 32 5) 1 (replicate 16 7) ''none'' True ref_reg_world1 =
     (Ok (), ref_reg_world2)"
  by (simp add: insert_authenticator_def ref_reg_world_def ref_world_def ref_reg_world1_def ref_reg_world2_def)

definition ref_reg_event :: audit_event_fields where
  "ref_reg_event = ref_auth_event\<lparr>ev_event_type := AuthenticatorRegistered, ev_target := None\<rparr>"

lemma ref_reg_event_seal: "\<exists>bs. audit_seal ref_iext ref_pkcs11 [] ref_reg_event ref_sealer = (Ok bs, ref_sealer)"
proof (rule ref_audit_seal)
  show "is_ok (validate_size ref_iext (audit_unsigned_document ref_reg_event) (sl_key_id ref_sealer))"
    by code_simp
qed (simp add: ref_reg_event_def ref_auth_event_def validate_decision_coupling_def requires_decision_def)

lemma ref_reg_world2_fields:
  "w_wakes ref_reg_world2 = []" "w_audit_sealer ref_reg_world2 = ref_sealer" "w_uuid ref_reg_world2 = ref_uuid"
  "w_clock ref_reg_world2 = w_clock ref_world2" "ref_reg_world2\<lparr>w_audit_sealer := ref_sealer\<rparr> = ref_reg_world2"
  "audit_chain_head ref_iext ''idp'' ref_reg_world2 =
     (Ok \<lparr>hd_next_sequence = 0, hd_prev_hash = CHAIN_ROOT\<rparr>, ref_reg_world2)"
  by (simp_all add: ref_reg_world2_def ref_reg_world1_def ref_reg_world_def ref_world2_def ref_world1_def ref_world_def
      ref_uuid_def audit_chain_head_def)

definition ref_reg_row :: "bytes \<Rightarrow> events_row" where
  "ref_reg_row bs = ref_stored_row bs\<lparr>er_event_type := ''authenticator.registered''\<rparr>"

lemma ref_reg_append:
  "audit_append ref_uuid 0 ''1970-01-01T00:00:00Z'' ''idp'' ''authenticator.registered'' (actor_json ''s1'') ''success''
     (idp_hex_encode CHAIN_ROOT) (event_signature_json bs) bs ref_reg_world2 =
     (Ok (), ref_reg_world2\<lparr>db_events := [ref_reg_row bs]\<rparr>)"
proof -
  have "length (hex_encode CHAIN_ROOT) = 64" "list_all is_lower_hexdigit (hex_encode CHAIN_ROOT)"
    by code_simp+
  then show ?thesis
    by (simp add: audit_append_def ref_reg_world2_def ref_reg_world1_def ref_reg_world_def ref_world_def
        ref_reg_row_def ref_stored_row_def)
qed

lemma ref_run_reg_event:
  "\<exists>bs. run_handler (seal_and_append_audit_event ref_iext ref_pkcs11 ref_config AuthenticatorRegistered ''s1''
      None None OutcomeSuccess) ref_reg_world2 = (Ok (), ref_reg_world2\<lparr>db_events := [ref_reg_row bs]\<rparr>)"
proof -
  obtain bs where bs: "audit_seal ref_iext ref_pkcs11 (w_wakes ref_reg_world2) ref_reg_event
      (w_audit_sealer ref_reg_world2) = (Ok bs, ref_sealer)"
    using ref_reg_event_seal by (auto simp: ref_reg_world2_fields)
  have clock: "idp_rfc3339_now (w_clock ref_reg_world2) = (Ok ''1970-01-01T00:00:00Z'' :: (string, api_error) outcome)"
    unfolding ref_reg_world2_fields by (rule ref_clock)
  have uuid: "run_handler uuid_now_v7 ref_reg_world2 = (Ok ref_uuid, ref_reg_world2)"
    by (simp add: uuid_now_v7_def run_atomic ref_reg_world2_fields)
  show ?thesis
    by (rule exI [of _ bs], rule run_seal_and_append
        [where p = CHAIN_ROOT and bs = bs and target = None,
          OF _ _ _ ref_fields(6) ref_fields(8) clock ref_fields(4) _ ref_fields(1) _ ref_reg_world2_fields(5)])
      (use bs in \<open>simp_all only: ref_config_fields ref_reg_world2_fields ref_fields ref_reg_event_def
        ref_auth_event_def audit_event_fields.update_convs traverse_option.simps
        option.case uuid act_lift_def event_type_str.simps outcome_str.simps option.map\<close>,
        rule ref_reg_append)
qed

lemma ref_run_registration:
  "\<exists>bs. run_handler (registration_verify ref_iext ref_pkcs11 ref_config ref_reg_request) ref_reg_world =
     (Ok (b64_encode ref_iext [9]), ref_reg_world2\<lparr>db_events := [ref_reg_row bs]\<rparr>)"
proof -
  obtain bs where event: "run_handler (seal_and_append_audit_event ref_iext ref_pkcs11 ref_config AuthenticatorRegistered
      ''s1'' None None OutcomeSuccess) ref_reg_world2 = (Ok (), ref_reg_world2\<lparr>db_events := [ref_reg_row bs]\<rparr>)"
    using ref_run_reg_event by blast
  have fields: "ro_credential_id ref_reg_outcome = [9]" "ro_public_key_algorithm ref_reg_outcome = EdDsa"
    "ro_public_key_raw ref_reg_outcome = replicate 32 5" "ro_aaguid ref_reg_outcome = replicate 16 7"
    "ro_attestation_format ref_reg_outcome = ''none''" "ro_sign_count ref_reg_outcome = 1" "(1 :: u32) \<noteq> 0 \<longleftrightarrow> True"
    by (simp_all add: ref_reg_outcome_def)
  show ?thesis
    unfolding registration_verify_def
    by (rule exI [of _ bs])
      (simp only: run_pure_step [OF ref_reg_b64(1)] run_pure_step [OF ref_reg_b64(2)] run_pure_step [OF ref_reg_presented]
        run_query_step [of "consume_challenge (as_bytes ref_challenge) ''registration''", OF ref_reg_consume]
        run_pure_step [OF ok_or.simps(2)] run_pure_step [OF ref_accept] run_pure_step [OF ref_reg_refused_ceremony]
        consumed_challenge.simps fields
        run_query_step [of "insert_authenticator ''s1'' [9] EdDsa (replicate 32 5) 1 (replicate 16 7) ''none'' True", OF ref_reg_insert]
        run_step [OF event] run_pure act_lift_def)
qed

lemma ref_reg_execution:
  "\<exists>bs. idp_steps ref_iext ref_pkcs11 ref_config (ref_reg_world, [])
     (ref_reg_world2\<lparr>db_events := [ref_reg_row bs]\<rparr>,
      [(PostRegistrationVerify ref_reg_request, Done (Ok (RegistrationReply (b64_encode ref_iext [9]))))])"
proof -
  obtain bs where "run_handler (registration_verify ref_iext ref_pkcs11 ref_config ref_reg_request) ref_reg_world =
     (Ok (b64_encode ref_iext [9]), ref_reg_world2\<lparr>db_events := [ref_reg_row bs]\<rparr>)"
    using ref_run_registration by blast
  then have "run_handler (router ref_iext ref_pkcs11 ref_config (PostRegistrationVerify ref_reg_request)) ref_reg_world =
     (Ok (RegistrationReply (b64_encode ref_iext [9])), ref_reg_world2\<lparr>db_events := [ref_reg_row bs]\<rparr>)"
    by (auto simp: reply_with_def run_step run_pure act_lift_def)
  with process_steps_serve [of "router ref_iext ref_pkcs11 ref_config" "outside_step (app_authority_domain ref_config)"
      ref_reg_world "[]" "PostRegistrationVerify ref_reg_request"]
  show ?thesis by auto
qed

subsection \<open>Hypotheses that the runs share\<close>

lemma ref_seals: "signing_key ref_iext ref_pkcs11 (sk_label ref_sealing_key) (sk_public ref_sealing_key)"
  using ref_idp_key by (simp add: ref_sealing_key_def)

lemma ref_invs:
  "idp_inv ref_iext ref_sealing_key ref_sealing_key (app_authority_domain ref_config) ref_world"
  "idp_inv ref_iext ref_sealing_key ref_sealing_key (app_authority_domain ref_config) ref_reg_world"
  using ref_world_inv ref_reg_world_inv by (simp_all add: ref_config_def)

lemma ref_config_ttl: "app_assertion_ttl_seconds ref_config = 120"
  by (simp add: ref_config_def)

subsection \<open>An authenticator that does not count\<close>

definition ref_passkey_world :: "ref_token idp_world" where
  "ref_passkey_world = ref_world\<lparr>db_authenticators :=
     map (\<lambda>r. r\<lparr>at_sign_count := 0, at_counter_supported := False\<rparr>) (db_authenticators ref_world)\<rparr>"

definition ref_passkey_signature :: bytes where
  "ref_passkey_signature = replicate 32 5 @
     ref_digest (ref_auth_data 0x05 0 @ ref_digest (ref_idp_client_data ''webauthn.get''))"

definition ref_passkey_request :: authentication_verify_request where
  "ref_passkey_request = ref_auth_request\<lparr>avr_authenticator_data := map char_of_u8 (ref_auth_data 0x05 0),
     avr_signature := map char_of_u8 ref_passkey_signature\<rparr>"

definition ref_passkey_input :: authentication_input where
  "ref_passkey_input =
     \<lparr>ai_client_data_json = ref_idp_client_data ''webauthn.get'', ai_authenticator_data = ref_auth_data 0x05 0,
      ai_signature = ref_passkey_signature, ai_expected_origin = app_origin ref_config,
      ai_expected_rp_id = app_rp_id ref_config, ai_expected_challenge = as_bytes ref_challenge,
      ai_credential = credential_of_row (ref_row\<lparr>aw_counter_supported := False, aw_sign_count := 0\<rparr>)\<rparr>"

definition ref_passkey_claims :: authentication_claims where
  "ref_passkey_claims = ref_auth_claims\<lparr>cl_method := ''webauthn/synced-or-unknown'', cl_new_sign_count := 0\<rparr>"

lemma ref_passkey_ceremony:
  "verify_authentication_ceremony ref_iext ref_passkey_input = Ok ref_passkey_claims"
  "cl_new_sign_count ref_passkey_claims = 0"
  by code_simp+

lemma ref_passkey_inv:
  "idp_inv ref_iext ref_sealing_key ref_sealing_key (app_authority_domain ref_config) ref_passkey_world"
  using ref_world_inv
  by (simp add: idp_inv_def tables_wf_def chain_inv_def stored_chain_def domain_rows_def ref_passkey_world_def
      ref_world_def ref_config_def)

lemma ref_passkey_data:
  "b64_decode ref_iext f (avr_authenticator_data ref_passkey_request) = Ok (ai_authenticator_data ref_passkey_input)"
  by (simp add: b64_decode_def ref_iext_def ref_passkey_request_def ref_passkey_input_def)

end
