(* ===== verification/Startup_Runs.thy ===== *)
theory Startup_Runs
  imports Startup Identity_Runs
begin

section \<open>A reference start\<close>

text \<open>
  An environment in which the identity provider starts on the reference token with both labels naming the key of
  the token, and a token that follows PKCS#11 on logins.
\<close>

definition ref_variables :: "(string \<times> string) list" where
  "ref_variables =
     [(''ZS_IDP_VERIFYING_KEY_HEX'', hex_encode ref_public_key), (''ZS_IDP_VERIFYING_KEY_ID'', ''k1''),
      (''ZS_IDP_IDENTITY_DATABASE_URL'', ''identity''), (''ZS_IDP_AUDIT_DATABASE_URL'', ''audit''),
      (''SOFTHSM2_PIN'', ref_pin), (''ZS_IDP_RP_ID'', ref_rp_id), (''ZS_IDP_ORIGIN'', ''https:example''),
      (''ZS_IDP_ASSERTION_AUDIENCE'', ''broker''), (''ZS_IDP_AUTHORITY_DOMAIN'', ''idp''),
      (''ZS_IDP_ASSERTION_TTL_SECONDS'', ''two minutes''),
      (''ZS_IDP_ASSERTION_HSM_KEY_LABEL'', ref_label), (''ZS_IDP_AUDIT_HSM_KEY_LABEL'', ref_label)]"

definition ref_host :: "string host" where
  "ref_host =
     \<lparr>host_env = map_of ref_variables, host_parse_addr = Some, host_connect = (\<lambda>url. True),
      host_bind = (\<lambda>addr. True), host_bind_socket = (\<lambda>path. True)\<rparr>"

definition ref_fresh_token :: ref_token where
  "ref_fresh_token = \<lparr>rt_next = 0, rt_open = []\<rparr>"

definition ref_database :: database where
  "ref_database =
     \<lparr>db_challenges = [], db_authenticators = [], db_events = [], db_now = 0, db_identity_link = Up, db_audit_link = Up\<rparr>"

definition ref_service :: "(string, ref_token) idp_service" where
  "ref_service = (case (idp_main ref_iext ref_pkcs11 ref_host ref_fresh_token ::
     ((string, ref_token) idp_service, unit startup_exit) outcome) of Ok svc \<Rightarrow> svc)"

lemma ref_start:
  "idp_main ref_iext ref_pkcs11 ref_host ref_fresh_token =
     (Ok ref_service :: ((string, ref_token) idp_service, unit startup_exit) outcome)"
proof -
  have "is_ok (idp_main ref_iext ref_pkcs11 ref_host ref_fresh_token ::
     ((string, ref_token) idp_service, unit startup_exit) outcome)" by code_simp
  then show ?thesis unfolding ref_service_def
    by (cases "idp_main ref_iext ref_pkcs11 ref_host ref_fresh_token ::
     ((string, ref_token) idp_service, unit startup_exit) outcome") simp_all
qed

definition ref_strict_pkcs11 :: "ref_token pkcs11" where
  "ref_strict_pkcs11 = ref_pkcs11\<lparr>pk_login := (\<lambda>s pin t.
     if 100 \<le> rt_next t then (Err OtherRv, t)
     else if pin = ref_pin then (Ok (), t\<lparr>rt_next := rt_next t + 100\<rparr>) else (Err PinIncorrect, t))\<rparr>"

lemma ref_strict_relogin: "relogin_refused ref_strict_pkcs11 (\<lambda>t. 100 \<le> rt_next t)"
  by (auto simp: relogin_refused_def ref_strict_pkcs11_def ref_pkcs11_def split: if_splits)

text \<open>One session can still be opened there.\<close>

lemma ref_strict_one_session:
  "is_ok (fst (session_pool_open ref_strict_pkcs11
     (hsm_config_of (service_hsm_settings ''m'' ref_pin ref_label)\<lparr>cfg_pool_size := 1\<rparr>) ref_fresh_token))"
  by code_simp

text \<open>A module that is initialised once, and a service that opens its only sealer there.\<close>

definition ref_once_pkcs11 :: "ref_token pkcs11" where
  "ref_once_pkcs11 = ref_pkcs11\<lparr>pk_initialize := (\<lambda>t.
     if 100 \<le> rt_next t then (Err OtherRv, t) else (Ok (), t\<lparr>rt_next := rt_next t + 100\<rparr>))\<rparr>"

lemma ref_initialized_once: "initialized_once ref_once_pkcs11 (\<lambda>t. 100 \<le> rt_next t)"
  by (auto simp: initialized_once_def ref_once_pkcs11_def ref_pkcs11_def split: if_splits)

lemma ref_once_opens:
  "is_ok (audit_sealer_open ref_iext ref_once_pkcs11 [] (service_hsm_settings ''m'' ref_pin ref_label) ref_fresh_token)"
  by code_simp

end
