(* ===== verification/Spec2Isabelle.thy ===== *)
theory Spec2Isabelle
  imports Startup_Runs
begin

text \<open>
  Verification of the Rust core of \<open>zero-secret\<close>.

  \<^bold>\<open>The program.\<close> \<open>zero-secret\<close> replaces durable secrets by short-lived, signed statements. Its Rust
  core has five parts. \<open>src/crates/zs-hsm\<close> keeps a pool of PKCS#11 sessions and signs digests on a
  token. \<open>src/crates/zs-crypto\<close> defines one signature suite per kind of statement (identity
  assertions, audit events, policy decisions), each with its own domain prefix, a canonical JSON or
  typed encoding, a sealer that signs through the pool and a verifier. \<open>src/crates/zs-webauthn\<close>
  verifies registration and authentication ceremonies and recovery quorums;
  \<open>src/crates/zs-audit\<close> links sealed events into chains, one per authority domain;
  \<open>src/crates/zs-policy\<close> evaluates a decision request with a policy engine and binds the decision
  to the request and to the policy corpus. Three services expose them: \<open>src/apps/audit-sealer\<close>
  (sealing of events for a collector), \<open>src/apps/policy-engine\<close> (sealed decisions and their
  verification) and \<open>src/apps/identity-provider\<close> (ceremonies over HTTP, verification of assertions).

  \<^bold>\<open>The model.\<close> A call that may fail returns an \<open>outcome\<close> (\<open>Ok\<close>, \<open>Err\<close>, \<open>Panic\<close>; theory \<open>Prelude\<close>); a call
  that changes state is an \<open>action\<close>, the outcome with the state it leaves. Integers keep their width
  (\<open>u8\<close>, \<open>u16\<close>, \<open>u32\<close>, \<open>u64\<close> words). A Rust \<open>String\<close> is the list of its UTF-8 bytes, as characters.
  Code outside the repository is an argument: the record \<open>zs_ext\<close> holds SHA-256, ECDSA and Ed25519
  verification and the JSON library, \<open>webauthn_ext\<close> adds CBOR, COSE and base64url, \<open>pkcs11\<close> is
  the token driver, \<open>cedar\<close> the policy engine. What a proof needs of them is stated by the locales
  \<open>serde_json\<close> (reading back what was written), \<open>zs_libraries\<close> (that, and the length of a digest) and
  \<open>signing_key\<close> (the token signs with the key that the verifier knows), each interpreted on concrete
  functions so that the witnesses evaluate. The traits of the program are locales too: \<open>challenge_store\<close>,
  \<open>sign_counter_store\<close> (\<open>zs-webauthn/src/store.rs\<close>) and \<open>audit_chain_store\<close> (\<open>zs-audit/src/sink.rs\<close>),
  interpreted on the store of the identity provider.

  \<^item> \<open>Prelude\<close>, \<open>Json\<close>, \<open>Json_Text\<close>: outcomes, actions, bytes and words; JSON values and the parts of
    \<open>serde\<close> that the suites use; a writer and a reader of JSON text with the proof that they satisfy
    the interface of the library.
  \<^item> \<open>Common\<close> (\<open>zs-crypto/src/common.rs\<close>): validated fields, hexadecimal, key identifiers,
    recursive canonicalisation; canonical bytes are equal exactly for documents equal up to the
    order of their keys.
  \<^item> \<open>Hsm_Pool\<close> (\<open>zs-hsm/src/pool.rs\<close>, \<open>signer.rs\<close>): opening a pool, acquiring with its wait loop, signing,
    reading a public key, releasing on drop; threads sharing a pool are the step relation
    \<open>pool_step\<close>, whose reachable states keep every session in exactly one place. \<open>Signing\<close>: the
    settings, keys and signature components that the three sealing suites share.
  \<^item> \<open>Identity_Assertion\<close>, \<open>Audit_Seal\<close>, \<open>Decision_Seal\<close>, \<open>Decision_Binding\<close>, \<open>Authenticator_Proof\<close> (the
    files of the same names in \<open>zs-crypto/src\<close>): sealing and verification with every refusal; what is
    sealed verifies, what verifies was signed over exactly the fields it reports.
  \<^item> \<open>Audit_Chain\<close> (\<open>zs-audit/src/record.rs\<close>, \<open>chain.rs\<close>): records and \<open>verify_chain\<close>, with the
    specification \<open>linked\<close> that has neither loop nor hash map.
  \<^item> \<open>Webauthn\<close> (\<open>zs-webauthn/src\<close>): client data, COSE keys, both ceremonies, quorum.
  \<^item> \<open>Calendar\<close>: the conversion between epoch seconds and RFC 3339 text that the services carry.
  \<^item> \<open>Audit_Sealer\<close>, \<open>Pdp\<close>, \<open>Policy_Engine\<close> (\<open>apps/audit-sealer/src/lib.rs\<close>,
    \<open>zs-policy/src/pdp.rs\<close>, \<open>apps/policy-engine/src/lib.rs\<close>): validation of a sealing request,
    loading of a corpus and decision with every denial, the calls of the services.
  \<^item> \<open>Timestamp_Order\<close>: the order of RFC 3339 texts by their bytes is the order of the instants.
  \<^item> \<open>Handlers\<close>: an \<open>async\<close> handler as a datatype of steps, a process serving any number of them with an
    environment as the step relation \<open>process_step\<close>, and the rules of rely and guarantee (locale
    \<open>rely_guarantee\<close>) that carry a property of each handler to every interleaving.
  \<^item> \<open>Identity_Store\<close> (\<open>apps/identity-provider/src/store.rs\<close>, \<open>deploy/migrations\<close>): the tables, one
    definition per statement, refused queries and lost replies; the contracts of the store traits.
  \<^item> \<open>Identity_Provider\<close> (\<open>lib.rs\<close>, \<open>httpapi.rs\<close>): the four handlers, the audit event of each, the errors, the
    verification of an assertion. \<open>Identity_Safety\<close>: the invariant of tables and sealers, and what a granted
    request leaves behind, for every interleaving. \<open>Identity_Runs\<close>: concrete requests of the service.
  \<^item> \<open>Startup\<close> (\<open>main.rs\<close> of the three services): the variables, keys, pools, stores and sockets a service needs
    before it serves; \<open>Startup_Runs\<close>: a start on the reference token, tokens that log in once or initialise once.
  \<^item> \<open>Reference_Runs\<close>: concrete values of the parameters and concrete runs, for the witnesses.

  \<^bold>\<open>The properties.\<close> This theory states the properties that span the parts: sealing and verification
  agree and bind every field; histories are tamper evident; decisions bind request and corpus and fail
  closed; ceremonies are accepted exactly under their evidence; under any interleaving the identity provider
  grants only what the evidence and the audit log support, never twice for one challenge, and answers
  every request, from the start of the process on; sessions are exclusive and a failed signature loses
  one; encodings are injective and bounded; verifiers answer every input without panic.

  \<^bold>\<open>Bounds.\<close> There is no fuel in the modelled code: the wait loop of the pool runs on the explicit schedule
  of the wake-ups it receives (\<open>wakes\<close>), and every other loop recurses on its data. \<open>json_depth\<close> up to 127
  is the recursion limit of the JSON reader; the lengths bounded by \<open>2\<^sup>6\<^sup>4\<close> are those a 64-bit
  counter can number. A handler of the identity provider takes at most twelve steps. A validity given in
  seconds converts exactly to the interval of the database below \<open>2\<^sup>5\<^sup>3\<close>. Additions that could overflow
  wrap, as in a release build.

  \<^bold>\<open>Not modelled.\<close> The transports that carry the calls (sockets, gRPC and HTTP framing, the
  runtimes, whose creation is taken to succeed), the crates that include generated protocol code (their messages are records here), the fuzz targets, the Go services,
  the browser console and the Cedar and Rego policy texts. Concurrency of the token driver itself is
  the driver's; a sealing call is one step of the service that makes it. The identity provider is taken to be
  the only author of the events of its own domain. Whether the database coerces the text parameters of
  an insertion to its column types is left to the state of the connection.
\<close>

section \<open>The identity provider\<close>



text \<open>
  C2. The audit log at every moment. As long as the service is the author of its domain, the events of
  that domain form, in every reachable state, a log that \<open>verify_chain\<close> accepts; each of them verifies
  under the key of the service and says what its columns say; and the log only ever grows.
\<close>

theorem audit_log_always_verifies:
  assumes "signing_key X P (sk_label ak) (sk_public ak)" and "idp_inv X ak ik (app_authority_domain cfg) w0"
    and "idp_steps X P cfg (w0, []) (w, hs)" and "stored_chain (app_authority_domain cfg) w \<noteq> []"
  shows "verify_chain X (stored_chain (app_authority_domain cfg) w) = Ok () \<and>
    (\<forall>r \<in> set (domain_rows (app_authority_domain cfg) w). event_authentic X ak (app_authority_domain cfg) r) \<and>
    (\<exists>more. db_events w = db_events w0 @ more)"
proof -
  let ?d = "app_authority_domain cfg"
  have inv: "idp_inv X ak ik ?d w" and grows: "db_evolves w0 w"
    using idp_reachable(1,2) [OF assms(1-3)] by blast+
  have "linked X (in_domain d (stored_chain ?d w))" for d
    using inv by (simp add: in_domain_stored_chain idp_inv_def chain_inv_def linked_def)
  then show ?thesis using inv grows assms(4) by (simp add: verify_chain_iff idp_inv_def db_evolves_def)
qed

theorem audit_log_always_verifies_witness:
  "\<exists>w hs. idp_steps ref_iext ref_pkcs11 ref_config (ref_world, []) (w, hs) \<and> length (db_events w) = 1 \<and>
    verify_chain ref_iext (stored_chain ''idp'' w) = Ok ()"
proof -
  obtain bs0 hs where run: "idp_steps ref_iext ref_pkcs11 ref_config (ref_world, [])
     (ref_world2\<lparr>db_events := [ref_stored_row bs0]\<rparr>, hs)" using ref_execution by blast
  have "stored_chain (app_authority_domain ref_config) (ref_world2\<lparr>db_events := [ref_stored_row bs0]\<rparr>) \<noteq> []"
    by (simp add: stored_chain_def domain_rows_def ref_stored_row_def ref_config_def)
  from audit_log_always_verifies [OF ref_seals ref_invs(1) run this] run show ?thesis
    unfolding ref_config_fields by (intro exI conjI) (assumption | simp)+
qed

text \<open>
  C3. A challenge serves once. From the moment it is used, no request that arrives with it succeeds,
  whatever the other requests, the refused queries and the lost replies in between.
\<close>

theorem challenge_used_once:
  assumes "signing_key X P (sk_label ak) (sk_public ak)" and "idp_inv X ak ik (app_authority_domain cfg) w0"
    and "idp_steps X P cfg (w0, []) (w, hs)" and "spent w c"
    and "idp_steps X P cfg (w, hs) (w', hs')"
    and "length hs \<le> i" and "i < length hs'" and "hs' ! i = (q, p)" and "presents X q c"
  shows "p \<noteq> Done (Ok reply)"
  using idp_no_replay [OF assms(1-7)] assms(8,9) by blast

theorem challenge_used_once_witness:
  "\<exists>w hs w' r. idp_steps ref_iext ref_pkcs11 ref_config (ref_world, []) (w, hs) \<and> spent w (as_bytes ref_challenge) \<and>
    idp_steps ref_iext ref_pkcs11 ref_config (w, hs) (w', hs @ [(PostAuthenticationVerify ref_auth_request, Done r)]) \<and>
    (\<forall>reply. r \<noteq> Ok reply)"
proof -
  obtain bs0 hs where run: "idp_steps ref_iext ref_pkcs11 ref_config (ref_world, [])
     (ref_world2\<lparr>db_events := [ref_stored_row bs0]\<rparr>, hs)" using ref_execution by blast
  let ?w = "ref_world2\<lparr>db_events := [ref_stored_row bs0]\<rparr>"
  have spent: "spent ?w (as_bytes ref_challenge)"
    by (simp add: spent_def ref_world2_def ref_world1_def ref_world_def)
  have presents: "presents ref_iext (PostAuthenticationVerify ref_auth_request) (as_bytes ref_challenge)"
    using ref_b64(2) ref_presented by auto
  note again = process_steps_serve [of "router ref_iext ref_pkcs11 ref_config"
      "outside_step (app_authority_domain ref_config)" ?w hs "PostAuthenticationVerify ref_auth_request"]
  have "fst (run_handler (router ref_iext ref_pkcs11 ref_config (PostAuthenticationVerify ref_auth_request)) ?w) \<noteq>
      Ok reply" for reply
    using challenge_used_once [OF ref_seals ref_invs(1) run spent again _ _ nth_append_length presents]
    by (simp del: router.simps)
  with run spent again show ?thesis by blast
qed

text \<open>
  C4. A registration that the service grants rests on a ceremony accepted for a registration challenge of
  the table, now used; the credential of the reply is in the table for the subject of that challenge with the key of the
  ceremony, and the event of the registration is in the audit log.
\<close>

theorem registration_reply_sound:
  assumes "signing_key X P (sk_label ak) (sk_public ak)" and "idp_inv X ak ik (app_authority_domain cfg) w0"
    and "idp_steps X P cfg (w0, []) (w, hs)" and "(PostRegistrationVerify req, Done (Ok reply)) \<in> set hs"
  shows "\<exists>s. reply = RegistrationReply s \<and> registration_accepted X P ak cfg req s w"
  using idp_reachable(3) [OF assms] by simp

theorem registration_reply_sound_witness:
  "\<exists>w hs. idp_steps ref_iext ref_pkcs11 ref_config (ref_reg_world, []) (w, hs) \<and>
    registration_accepted ref_iext ref_pkcs11 ref_sealing_key ref_config ref_reg_request (b64_encode ref_iext [9]) w"
proof -
  obtain bs0 where run: "idp_steps ref_iext ref_pkcs11 ref_config (ref_reg_world, [])
     (ref_reg_world2\<lparr>db_events := [ref_reg_row bs0]\<rparr>,
      [(PostRegistrationVerify ref_reg_request, Done (Ok (RegistrationReply (b64_encode ref_iext [9]))))])"
    using ref_reg_execution by blast
  from registration_reply_sound [OF ref_seals ref_invs(2) run list.set_intros(1)] run show ?thesis by blast
qed



section \<open>Sealing and verification\<close>

text \<open>
  C6. What the sealing service answers to a request is accepted by the verification of
  \<open>audit-seal/v1\<close> under the key of the service, and the verified event carries the identifier, the
  position, the link, the domain, the type and the instant that the request asked for.
\<close>

theorem sealed_event_verifies:
  assumes "signing_key X P label pk"
    and "sealer_service_seal X P wakes req sl = (Ok resp, sl')" and "sr_occurred_at req = Some t"
    and "sl_key sl = \<lparr>key_ref_label = label\<rparr>"
    and "find (\<lambda>k. avk_key_id k = sl_key_id sl) keys = Some \<lparr>avk_key_id = sl_key_id sl, avk_raw = pk\<rparr>"
    and "AUDIT_SUITE_V1 \<in> set (aap_accepted_suites policy)"
    and "sr_authority_domain req = aap_expected_authority_domain policy"
  shows "\<exists>event_type. event_type_from_contract_str (sr_event_type req) = Some event_type \<and>
    audit_seal_verify X keys (sres_sealed_bytes resp) policy =
      Ok \<lparr>ve_event_id = sr_event_id req, ve_sequence = sr_sequence req, ve_prev_hash = sr_prev_hash req,
          ve_occurred_at = rfc3339_from_seconds (pt_seconds t),
          ve_authority_domain = sr_authority_domain req, ve_event_type = event_type\<rparr>"
  using assms by (rule signing_key.sealer_service_verifies)

theorem sealed_event_verifies_witness:
  "\<exists>resp. sealer_service_seal ref_ext ref_pkcs11 [] ref_request ref_sealer = (Ok resp, ref_sealer) \<and>
    (\<exists>event_type. event_type_from_contract_str (sr_event_type ref_request) = Some event_type \<and>
      audit_seal_verify ref_ext ref_keys (sres_sealed_bytes resp) ref_audit_policy =
        Ok \<lparr>ve_event_id = sr_event_id ref_request, ve_sequence = sr_sequence ref_request,
            ve_prev_hash = sr_prev_hash ref_request, ve_occurred_at = rfc3339_from_seconds 1777000000,
            ve_authority_domain = sr_authority_domain ref_request, ve_event_type = event_type\<rparr>)"
proof -
  obtain resp where run: "sealer_service_seal ref_ext ref_pkcs11 [] ref_request ref_sealer = (Ok resp, ref_sealer)"
    using ref_request_run by blast
  have "sr_occurred_at ref_request = Some \<lparr>pt_seconds = 1777000000, pt_nanos = 0\<rparr>" by (simp add: ref_request_def)
  from sealed_event_verifies [OF ref_token.signing_key_axioms run this _ ref_keys_find, of ref_audit_policy] run
  show ?thesis by (auto simp: ref_sealer_def ref_audit_policy_def ref_request_def)
qed

text \<open>
  C7. An audit event that verification accepts is, byte for byte, the canonical form of a document
  of the suite, within the size bound, signed by an accepted key over exactly the fields it
  reports, for the expected domain, with a decision exactly when its type requires one; the fields
  returned are those of the document.
\<close>

theorem accepted_event_sound:
  assumes "audit_seal_verify X keys bs policy = Ok v"
  shows "\<exists>doc event_type prev_hash. length bs \<le> AUDIT_MAX_BYTES \<and>
    bs = ext_to_vec X (sort_json (audit_full_document doc)) \<and>
    audit_doc_accepted X keys policy doc event_type prev_hash \<and>
    v = audit_verified_of doc event_type prev_hash"
  using assms by (elim audit_seal_verify_Ok) blast

theorem accepted_event_sound_witness:
  "\<exists>v doc event_type prev_hash. audit_seal_verify ref_ext ref_keys ref_sealed ref_audit_policy = Ok v \<and>
    length ref_sealed \<le> AUDIT_MAX_BYTES \<and>
    ref_sealed = ext_to_vec ref_ext (sort_json (audit_full_document doc)) \<and>
    audit_doc_accepted ref_ext ref_keys ref_audit_policy doc event_type prev_hash \<and>
    v = audit_verified_of doc event_type prev_hash"
  using accepted_event_sound [OF ref_sealed_verifies] ref_sealed_verifies by blast

text \<open>
  C8. Tamper evidence. Take two event logs that \<open>verify_chain\<close> accepts and whose entries report what
  the verification of their seals returned. If a domain ends with the same sealed bytes in both,
  then the whole history of the domain is the same in both, or two different byte strings with the
  same SHA-256 digest have been found.
\<close>

definition sealed_view ::
  "'x zs_ext_scheme \<Rightarrow> accepted_verifying_key list \<Rightarrow> audit_acceptance_policy \<Rightarrow> bytes \<Rightarrow> (u64 \<times> bytes) option" where
  "sealed_view X keys policy bs =
     (case audit_seal_verify X keys bs policy of Ok v \<Rightarrow> Some (ve_sequence v, ve_prev_hash v) | _ \<Rightarrow> None)"

theorem audit_history_tamper_evident:
  assumes "verify_chain X es = Ok ()" "verify_chain X fs = Ok ()"
    and "list_all (authentic (sealed_view X keys policy)) es" "list_all (authentic (sealed_view X keys policy)) fs"
    and "in_domain d es \<noteq> []" "in_domain d fs \<noteq> []"
    and "length (in_domain d es) \<le> 2 ^ 64" "length (in_domain d fs) \<le> 2 ^ 64"
    and "ce_sealed_bytes (last (in_domain d es)) = ce_sealed_bytes (last (in_domain d fs))"
  shows "map ce_sealed_bytes (in_domain d es) = map ce_sealed_bytes (in_domain d fs) \<or>
    (\<exists>m m'. m \<noteq> m' \<and> ext_sha256 X m = ext_sha256 X m')"
proof -
  let ?es = "in_domain d es" and ?fs = "in_domain d fs"
  have l: "linked X ?es" "linked X ?fs" using assms(1,2) by (simp_all add: verify_chain_iff)
  have a: "list_all (authentic (sealed_view X keys policy)) ?es" "list_all (authentic (sealed_view X keys policy)) ?fs"
    using assms(3,4) by (simp_all add: in_domain_def list_all_iff)
  have "length ?es = length ?fs" using history_same_length [OF l a assms(5-9)] .
  from history_unique [OF this l a assms(5,9)] show ?thesis .
qed

theorem audit_history_tamper_evident_witness:
  "verify_chain ref_ext [ref_entry] = Ok () \<and>
    (map ce_sealed_bytes (in_domain ''broker'' [ref_entry]) = map ce_sealed_bytes (in_domain ''broker'' [ref_entry]) \<or>
     (\<exists>m m'. m \<noteq> m' \<and> ext_sha256 ref_ext m = ext_sha256 ref_ext m'))"
  using audit_history_tamper_evident [OF ref_chain_verifies ref_chain_verifies, of ref_keys ref_audit_policy "''broker''"]
    ref_chain_verifies
  by (simp add: authentic_def sealed_view_def ref_entry_def ref_sealed_verifies in_domain_def)

text \<open>
  C9. The loop of \<open>verify_chain\<close>, with its index and its hash map of last events, accepts a log exactly
  when the log is not empty and the events of every domain, taken alone, start at the root with
  sequence 0 and are numbered and linked without a gap.
\<close>

theorem verify_chain_spec:
  "verify_chain X es = Ok () \<longleftrightarrow> es \<noteq> [] \<and> (\<forall>d. linked X (in_domain d es))"
  by (rule verify_chain_iff)

text \<open>
  C10. An assertion that a sealer issues is accepted by \<open>verify\<close>, with the fields of the claims, by
  everyone who knows the key of the sealer, expects its domain and asks within the validity window;
  the size bound of verification is a hypothesis because sealing does not enforce it.
\<close>

theorem issued_assertion_verifies:
  assumes "signing_key X P label pk"
    and "assertion_seal X P wakes claims sl = (Ok bs, sl')"
    and "sl_key sl = \<lparr>key_ref_label = label\<rparr>"
    and "find (\<lambda>k. avk_key_id k = sl_key_id sl) keys = Some \<lparr>avk_key_id = sl_key_id sl, avk_raw = pk\<rparr>"
    and "IDENTITY_SUITE_V1 \<in> set (iap_accepted_suites policy)"
    and "ac_authority_domain claims = iap_expected_authority_domain policy"
    and "as_bytes (ac_issued_at claims) \<le> as_bytes (iap_now policy)"
    and "as_bytes (iap_now policy) < as_bytes (ac_expires_at claims)"
    and "length bs \<le> IDENTITY_MAX_BYTES"
  shows "identity_assertion_verify X keys bs policy =
    Ok \<lparr>va_subject_id = ac_subject_id claims, va_aal = assurance_level_as_str (ac_aal claims),
        va_auth_method = ac_auth_method claims, va_audience = ac_audience claims,
        va_issued_at = ac_issued_at claims, va_expires_at = ac_expires_at claims,
        va_audit_event_id = ac_audit_event_id claims\<rparr>"
  using assms by (rule signing_key.assertion_seal_verify)

theorem issued_assertion_verifies_witness:
  "\<exists>bs sl. assertion_seal ref_ext ref_pkcs11 [] ref_claims ref_sealer = (Ok bs, sl) \<and>
    identity_assertion_verify ref_ext ref_keys bs ref_identity_policy =
      Ok \<lparr>va_subject_id = ''s1'', va_aal = ''AAL2'', va_auth_method = ''webauthn'', va_audience = ''broker'',
          va_issued_at = ''2026-08-01T10:00:00Z'', va_expires_at = ''2026-08-01T10:05:00Z'',
          va_audit_event_id = ''0198e6c1-0000-7000-8000-000000000000''\<rparr>"
proof -
  obtain bs sl where run: "assertion_seal ref_ext ref_pkcs11 [] ref_claims ref_sealer = (Ok bs, sl)"
    and size: "length bs \<le> IDENTITY_MAX_BYTES" using ref_assertion_run by blast
  have "identity_assertion_verify ref_ext ref_keys bs ref_identity_policy =
      Ok \<lparr>va_subject_id = ac_subject_id ref_claims, va_aal = assurance_level_as_str (ac_aal ref_claims),
        va_auth_method = ac_auth_method ref_claims, va_audience = ac_audience ref_claims,
        va_issued_at = ac_issued_at ref_claims, va_expires_at = ac_expires_at ref_claims,
        va_audit_event_id = ac_audit_event_id ref_claims\<rparr>"
    by (rule issued_assertion_verifies [OF ref_token.signing_key_axioms run _ ref_keys_find _ _ ref_window size])
      (simp_all add: ref_sealer_def ref_identity_policy_def ref_claims_def)
  with run show ?thesis by (auto simp: ref_claims_def)
qed



section \<open>Decisions\<close>

text \<open>
  C12. A response that the policy engine returns is accepted by its own \<open>VerifyDecision\<close>, for an
  engine built by \<open>new\<close> on a sealer whose key is the token's.
\<close>

theorem policy_decision_round_trip:
  assumes "signing_key X P label pk"
    and "policy_engine_new pdp sl = Ok pe" and "sl_key sl = \<lparr>key_ref_label = label\<rparr>"
    and "ds_public_key_sec1 sl = pk" and "sl_key_id sl = key_id_from_public_key X pk"
    and "policy_engine_decide X C P wakes join_error clock req pe = (Ok resp, pe')"
  shows "policy_engine_verify_decision X \<lparr>vdr_decision = Some resp\<rparr> pe' =
    Ok \<lparr>vds_valid = True, vds_reason = ''''\<rparr>"
  using assms(2-) by (intro signing_key.policy_engine_round_trip [OF assms(1) assms(6)]) (simp_all add: policy_engine_new_Ok)

theorem policy_decision_round_trip_witness:
  "\<exists>resp. policy_engine_decide ref_ext ref_cedar ref_pkcs11 [] ''j'' (Some 1777000000) ref_decision_request ref_engine =
      (Ok resp, ref_engine) \<and>
    policy_engine_verify_decision ref_ext \<lparr>vdr_decision = Some resp\<rparr> ref_engine =
      Ok \<lparr>vds_valid = True, vds_reason = ''''\<rparr>"
proof -
  obtain resp where run: "policy_engine_decide ref_ext ref_cedar ref_pkcs11 [] ''j'' (Some 1777000000)
      ref_decision_request ref_engine = (Ok resp, ref_engine)" using ref_engine_run by blast
  from policy_decision_round_trip [OF ref_token.signing_key_axioms ref_engine_new _ _ _ this] run
  show ?thesis by (simp add: ref_decision_sealer_def ref_sealer_def)
qed

text \<open>
  C13. Two responses that \<open>VerifyDecision\<close> accepts under the same signature agree on every sealed
  field (effect, reasons, hash, version, time to live, constraints, instant), or the signature
  verifier accepts one signature for two different messages.
\<close>

theorem decision_signature_binds:
  assumes "zs_libraries X"
    and "policy_engine_verify_decision X \<lparr>vdr_decision = Some r\<rparr> pe = Ok \<lparr>vds_valid = True, vds_reason = ''''\<rparr>"
    and "policy_engine_verify_decision X \<lparr>vdr_decision = Some r'\<rparr> pe = Ok \<lparr>vds_valid = True, vds_reason = ''''\<rparr>"
    and "dres_decision_signature r = dres_decision_signature r'"
  shows "(\<exists>ts ts'. dres_issued_at r = Some ts \<and> dres_issued_at r' = Some ts' \<and>
      sealed_fields r ts = sealed_fields r' ts') \<or>
    (\<exists>pk m m' sig. m \<noteq> m' \<and> ext_p256_verify X pk m sig \<and> ext_p256_verify X pk m' sig)"
proof -
  from assms(2,3) obtain ts ts' where ts: "dres_issued_at r = Some ts" "dres_issued_at r' = Some ts'"
    and v: "ext_p256_verify X (avk_raw (pe_verifying_key pe)) (decision_message X (sealed_fields r ts)) (dres_decision_signature r)"
      "ext_p256_verify X (avk_raw (pe_verifying_key pe)) (decision_message X (sealed_fields r' ts')) (dres_decision_signature r')"
    by (auto simp: verify_decision_valid_iff decision_seal_verify_Ok split: if_splits)
  show ?thesis
  proof (cases "sealed_fields r ts = sealed_fields r' ts'")
    case True
    with ts show ?thesis by blast
  next
    case False
    then have "decision_message X (sealed_fields r ts) \<noteq> decision_message X (sealed_fields r' ts')"
      by (simp add: zs_libraries.decision_message_inj [OF assms(1)])
    with v assms(4) show ?thesis by metis
  qed
qed

theorem decision_signature_binds_witness:
  "\<exists>resp ts. dres_issued_at resp = Some ts \<and>
    ((\<exists>ts ts'. dres_issued_at resp = Some ts \<and> dres_issued_at resp = Some ts' \<and>
      sealed_fields resp ts = sealed_fields resp ts') \<or>
    (\<exists>pk m m' sig. m \<noteq> m' \<and> ext_p256_verify ref_ext pk m sig \<and> ext_p256_verify ref_ext pk m' sig))"
proof -
  obtain resp where run: "policy_engine_decide ref_ext ref_cedar ref_pkcs11 [] ''j'' (Some 1777000000)
      ref_decision_request ref_engine = (Ok resp, ref_engine)" using ref_engine_run by blast
  have valid: "policy_engine_verify_decision ref_ext \<lparr>vdr_decision = Some resp\<rparr> ref_engine =
      Ok \<lparr>vds_valid = True, vds_reason = ''''\<rparr>"
    by (rule ref_token.policy_engine_round_trip [OF run])
      (simp_all add: ref_engine_def ref_decision_sealer_def ref_sealer_def)
  then obtain ts where "dres_issued_at resp = Some ts" by (auto simp: verify_decision_valid_iff)
  with decision_signature_binds [OF ref_token.zs_libraries_axioms valid valid refl] show ?thesis by blast
qed

text \<open>
  C14. The decision point fails closed: it answers ALLOW exactly when the version asked for is the one
  it serves (or none is asked), the whole request translates and Cedar allows it; a request that
  translates is complete; and every other answer is DENY, under the version it serves.
\<close>

theorem decision_point_fails_closed:
  assumes "pdp_decide X C pdp r = Ok resp"
  shows "(dres_effect resp = effect_as_i32 EffectAllow \<longleftrightarrow>
      version_served pdp r \<and> request_complete r \<and> (\<exists>q es. translate C r (pdp_schema pdp) = Ok (q, es) \<and>
        cr_decision (cedar_is_authorized C q (pdp_policies pdp) es) = CedarAllow)) \<and>
    dres_effect resp \<in> {effect_as_i32 EffectAllow, effect_as_i32 EffectDeny} \<and>
    dres_policy_version resp = pdp_policy_version pdp"
  using pdp_decide_allow_iff [OF assms] pdp_decide_fields(1) [OF assms] translate_Ok [of C r "pdp_schema pdp"] by auto

theorem decision_point_fails_closed_witness:
  "\<exists>resp. pdp_decide ref_ext ref_cedar ref_pdp ref_decision_request =
      (Ok resp :: (decision_response, status) outcome) \<and> dres_effect resp = effect_as_i32 EffectAllow"
proof -
  obtain resp where r: "pdp_decide ref_ext ref_cedar ref_pdp ref_decision_request =
      (Ok resp :: (decision_response, status) outcome)" using ref_decide_run by blast
  have "version_served ref_pdp ref_decision_request" by (simp add: version_served_def ref_decision_request_def)
  moreover obtain q es where t: "translate ref_cedar ref_decision_request (pdp_schema ref_pdp) = Ok (q, es)"
    "cr_decision (cedar_is_authorized ref_cedar q (pdp_policies ref_pdp) es) = CedarAllow" using ref_translate by blast
  moreover have "request_complete ref_decision_request" by (rule translate_Ok [OF t(1)])
  ultimately show ?thesis using decision_point_fails_closed [OF r] r by blast
qed



text \<open>
  C16. The policy version a loaded decision point reports binds what it was loaded from: equal
  versions mean the same schema text and the same policy files, or a collision of SHA-256. The files
  are those of the directory with the extension \<open>cedar\<close>, and their sizes are below \<open>2\<^sup>6\<^sup>4\<close>.
\<close>

abbreviation corpus_of :: "(string \<times> string) list \<Rightarrow> corpus_file list" where
  "corpus_of files \<equiv> map (\<lambda>(n, c). \<lparr>cf_relative_path = n, cf_contents = c\<rparr>) files"

theorem policy_version_binds_corpus:
  assumes "pdp_load X C (Ok schema) (Ok entries) = Ok p" "pdp_load X D (Ok schema') (Ok entries') = Ok q"
    and "pdp_policy_version p = pdp_policy_version q"
    and "read_cedar_files entries = Ok files" "read_cedar_files entries' = Ok files'"
    and "corpus_sized schema CEDAR_ENGINE_VERSION (corpus_of files)"
    and "corpus_sized schema' CEDAR_ENGINE_VERSION (corpus_of files')"
  shows "(schema = schema' \<and> mset files = mset files') \<or> (\<exists>m m'. m \<noteq> m' \<and> ext_sha256 X m = ext_sha256 X m')"
  using assms by (rule pdp_load_version_binds)

theorem policy_version_binds_corpus_witness:
  "\<exists>files. read_cedar_files ref_dir = Ok files \<and> length files = 2 \<and>
    ((''schema'' = ''schema'' \<and> mset files = mset files) \<or>
     (\<exists>m m'. m \<noteq> m' \<and> ext_sha256 ref_ext m = ext_sha256 ref_ext m'))"
proof -
  let ?files = "[(''b.cedar'', ''permit''), (''a.cedar'', ''forbid'')]"
  have files: "read_cedar_files ref_dir = Ok ?files"
    by (simp add: ref_dir_def path_extension_def Let_def)
  have "corpus_sized ''schema'' CEDAR_ENGINE_VERSION (corpus_of ?files)"
    by (simp add: corpus_sized_def CEDAR_ENGINE_VERSION_def)
  from policy_version_binds_corpus [OF ref_pdp_load ref_pdp_load refl files files this this]
  show ?thesis by (intro exI [of _ ?files]) (simp add: files)
qed

text \<open>
  C17. Loading does not depend on the order in which the file system lists the policies: any
  permutation of a directory that loads gives the same decision point, as long as no two policy files
  have the same name.
\<close>

theorem policy_load_order_independent:
  assumes "pdp_load X C schema_file (Ok (map Ok fs)) = Ok p" and "mset fs = mset gs"
    and "distinct (map corpus_name (filter is_cedar_file fs))"
  shows "pdp_load X C schema_file (Ok (map Ok gs)) = Ok p"
  using assms by (rule pdp_load_order)

theorem policy_load_order_independent_witness:
  "pdp_load ref_ext ref_cedar (Ok ''schema'') (Ok (rev ref_dir)) = Ok ref_pdp"
proof -
  let ?a = "\<lparr>dn_file_name = ''a.cedar'', dn_utf8 = True, dn_contents = Ok ''forbid''\<rparr> :: unit dir_entry"
  let ?b = "\<lparr>dn_file_name = ''b.cedar'', dn_utf8 = True, dn_contents = Ok ''permit''\<rparr> :: unit dir_entry"
  have dir: "ref_dir = map Ok [?b, ?a]" "rev ref_dir = map Ok [?a, ?b]" by (simp_all add: ref_dir_def)
  have "distinct (map corpus_name (filter is_cedar_file [?b, ?a]))"
    by (simp add: corpus_name_def)
  moreover have "mset [?b, ?a] = mset [?a, ?b]" by simp
  ultimately show ?thesis
    using policy_load_order_independent [OF ref_pdp_load [unfolded dir(1)], of "[?a, ?b]"] unfolding dir(2) by blast
qed

text \<open>
  C18. The decision point answers every well-typed request: neither the binding of the request nor its
  translation panics, when the operations of the Cedar engine return.
\<close>

theorem decision_point_answers:
  assumes "cedar_returns C" "request_typed r"
  shows "\<exists>resp. pdp_decide X C pdp r = (Ok resp :: (decision_response, status) outcome) \<and>
    dres_decision_signature resp = [] \<and> dres_issued_at resp = None"
proof -
  obtain resp where "pdp_decide X C pdp r = (Ok resp :: (decision_response, status) outcome)"
    using pdp_decide_Ok [OF assms] by blast
  then show ?thesis using pdp_decide_fields(3, 4) by blast
qed

theorem decision_point_answers_witness:
  "\<exists>resp. pdp_decide ref_ext ref_cedar ref_pdp ref_decision_request =
      (Ok resp :: (decision_response, status) outcome) \<and>
    dres_decision_signature resp = [] \<and> dres_issued_at resp = None"
  by (rule decision_point_answers [OF ref_cedar_returns ref_decision_request_typed])

text \<open>
  C19. \<open>VerifyDecision\<close> answers every message, and reports valid exactly for a response with an
  instant between the years 0 and 9999 whose signature is the engine's on the sealed fields.
\<close>

theorem verify_decision_exact:
  "(\<exists>resp. policy_engine_verify_decision X req pe = Ok resp) \<and>
   (policy_engine_verify_decision X req pe = Ok \<lparr>vds_valid = True, vds_reason = reason\<rparr> \<longleftrightarrow>
     reason = '''' \<and> (\<exists>r ts. vdr_decision req = Some r \<and> dres_issued_at r = Some ts \<and>
       min_seconds \<le> pt_seconds ts \<and> pt_seconds ts \<le> max_seconds \<and>
       dres_decision_signature r \<noteq> [] \<and> dres_decision_signature_key_id r \<noteq> [] \<and>
       dres_decision_signature_key_id r = avk_key_id (pe_verifying_key pe) \<and>
       ext_p256_verify X (avk_raw (pe_verifying_key pe)) (decision_message X (sealed_fields r ts))
         (dres_decision_signature r)))"
proof -
  have single: "decision_seal_verify X [k] f key_id sig = Ok () \<longleftrightarrow>
      sig \<noteq> [] \<and> key_id \<noteq> [] \<and> key_id = avk_key_id k \<and> ext_p256_verify X (avk_raw k) (decision_message X f) sig"
    for k f key_id sig by (auto simp: decision_seal_verify_Ok)
  show ?thesis using verify_decision_Ok [of X req pe] unfolding verify_decision_valid_iff single by blast
qed

section \<open>WebAuthn ceremonies\<close>

text \<open>
  C20. An authentication ceremony is accepted exactly when the credential is not revoked, the client
  data are those of a \<open>webauthn.get\<close> for the expected origin and challenge, the authenticator data
  are for the relying party with the user present and a counter that grows when the credential has
  one, and the stored key signs them; the claims returned are determined by the input.
\<close>

theorem authentication_exact:
  "verify_authentication_ceremony X input = Ok claims \<longleftrightarrow> assertion_valid X input \<and> claims = claims_of input"
  by (rule verify_authentication_iff)

text \<open>
  C21. Replay. Once the counter of an accepted assertion is stored, the same assertion is refused as
  a counter regression when the credential supports counters, whatever the rest of the input.
\<close>

theorem assertion_replay_refused:
  assumes "verify_authentication_ceremony X input = Ok claims"
    and "rc_counter_supported (ai_credential input)"
    and "replayed = input\<lparr>ai_credential := (ai_credential input)\<lparr>rc_stored_sign_count := cl_new_sign_count claims\<rparr>\<rparr>"
  shows "verify_authentication_ceremony X replayed = Err SignCounterRegression"
proof -
  have v: "assertion_valid X input" "cl_new_sign_count claims = input_sign_count input"
    using assms(1) by (auto simp: verify_authentication_iff claims_of_def Let_def)
  have same: "ai_credential replayed =
      (ai_credential input)\<lparr>rc_stored_sign_count := input_sign_count input\<rparr>"
    "ai_client_data_json replayed = ai_client_data_json input"
    "ai_authenticator_data replayed = ai_authenticator_data input"
    "ai_expected_origin replayed = ai_expected_origin input" "ai_expected_rp_id replayed = ai_expected_rp_id input"
    "ai_expected_challenge replayed = ai_expected_challenge input"
    using assms(3) v(2) by simp_all
  show ?thesis
    using v(1) assms(2) unfolding verify_authentication_ceremony_def same assertion_valid_def Let_def
    by (auto simp: parse_assertion_auth_data_eq rp_id_hash_def proof_sha256_def input_flags_def input_sign_count_def)
qed

theorem assertion_replay_refused_witness:
  "\<exists>claims. verify_authentication_ceremony ref_wext ref_authentication = Ok claims \<and>
    verify_authentication_ceremony ref_wext (ref_authentication\<lparr>ai_credential :=
      (ai_credential ref_authentication)\<lparr>rc_stored_sign_count := cl_new_sign_count claims\<rparr>\<rparr>) = Err SignCounterRegression"
proof -
  obtain claims where run: "verify_authentication_ceremony ref_wext ref_authentication = Ok claims"
    using ref_authentication_run by (cases "verify_authentication_ceremony ref_wext ref_authentication") auto
  have "rc_counter_supported (ai_credential ref_authentication)"
    by (simp add: ref_authentication_def ref_credential_def)
  from assertion_replay_refused [OF run this refl] run show ?thesis by blast
qed

text \<open>
  C22. A registration that is accepted rests on evidence: client data of a \<open>webauthn.create\<close> for the
  expected origin and challenge, an attestation object within the bound, authenticator data for the
  relying party with the user present and an attested credential, a key the suite accepts, and for
  the format \<open>packed\<close> a signature by that key; with the policy \<open>Required\<close> the format is never
  \<open>none\<close>. What is returned is what the evidence holds.
\<close>

theorem registration_sound:
  assumes "verify_registration_ceremony X input = Ok r"
  shows "\<exists>m auth_data parsed cred key.
    registration_evidence X input m (ro_attestation_format r) auth_data parsed cred key \<and>
    r = \<lparr>ro_credential_id = acd_credential_id cred, ro_sign_count = pad_sign_count parsed,
         ro_attestation_format = ro_attestation_format r, ro_aaguid = acd_aaguid cred,
         ro_public_key_algorithm = pkm_algorithm key, ro_public_key_raw = pkm_raw key\<rparr>"
  using assms by (elim verify_registration_Ok) (simp, blast)

theorem registration_sound_witness:
  "\<exists>r m auth_data parsed cred key. verify_registration_ceremony ref_wext ref_registration = Ok r \<and>
    registration_evidence ref_wext ref_registration m (ro_attestation_format r) auth_data parsed cred key \<and>
    ro_credential_id r = acd_credential_id cred"
proof -
  obtain r where run: "verify_registration_ceremony ref_wext ref_registration = Ok r"
    using ref_registration_run by (cases "verify_registration_ceremony ref_wext ref_registration") auto
  from registration_sound [OF run] run show ?thesis by (metis registration_outcome.select_convs(1))
qed

text \<open>
  C23. The key a registration returns can be used: an authentication with a credential that stores it
  is never refused for a malformed key.
\<close>

theorem registered_key_usable:
  assumes "verify_registration_ceremony X reg = Ok r"
    and "rc_public_key_algorithm (ai_credential input) = ro_public_key_algorithm r"
    and "rc_public_key_raw (ai_credential input) = ro_public_key_raw r"
  shows "verify_authentication_ceremony X input \<noteq> Err MalformedRegisteredKey"
proof -
  from assms(1) obtain m fmt auth_data parsed cred key where
    "registration_evidence X reg m fmt auth_data parsed cred key"
    and key: "ro_public_key_algorithm r = pkm_algorithm key" "ro_public_key_raw r = pkm_raw key"
    by (elim verify_registration_Ok) auto
  then have "extract_public_key_material X (acd_public_key_cbor cred) = Ok key"
    by (simp add: registration_evidence_def)
  from extract_accepted [OF this] key assms(2,3)
  have acc: "accept_key PROOF_SUITE_V1 \<lparr>pkm_algorithm = rc_public_key_algorithm (ai_credential input),
      pkm_raw = rc_public_key_raw (ai_credential input)\<rparr> = Ok \<lparr>ak_algorithm = pkm_algorithm key, ak_raw = pkm_raw key\<rparr>"
    by (cases key) simp
  show ?thesis
    by (auto simp: verify_authentication_ceremony_def Let_def acc outcome_simps parse_assertion_auth_data_eq
        split: if_splits)
qed

theorem registered_key_usable_witness:
  "\<exists>r. verify_registration_ceremony ref_wext ref_registration = Ok r \<and>
    verify_authentication_ceremony ref_wext (ref_authentication\<lparr>ai_credential :=
      ref_credential\<lparr>rc_public_key_algorithm := ro_public_key_algorithm r, rc_public_key_raw := ro_public_key_raw r\<rparr>\<rparr>) \<noteq>
        Err MalformedRegisteredKey"
proof -
  obtain r where run: "verify_registration_ceremony ref_wext ref_registration = Ok r"
    using ref_registration_run by (cases "verify_registration_ceremony ref_wext ref_registration") auto
  from registered_key_usable [OF run, of "ref_authentication\<lparr>ai_credential :=
      ref_credential\<lparr>rc_public_key_algorithm := ro_public_key_algorithm r, rc_public_key_raw := ro_public_key_raw r\<rparr>\<rparr>"] run
  show ?thesis by simp
qed

text \<open>
  C24. The recovery quorum is reached exactly when the threshold is at least two and at least as many
  different credentials approved; repeated approvals by one credential count once.
\<close>

theorem quorum_exact:
  "verify_quorum approvals threshold = Ok r \<longleftrightarrow>
     2 \<le> threshold \<and> threshold \<le> card (approval_credential_id ` set approvals) \<and>
     r = \<lparr>rv_approving_credential_ids = remdups (map approval_credential_id approvals)\<rparr>"
  by (rule verify_quorum_Ok)

section \<open>The session pool\<close>





text \<open>
  C27. A failed key lookup costs \<open>sign_digest\<close> the session it had taken: the call returns the error and
  the pool is one session smaller, while \<open>public_key\<close> on the same failure gives the session back. As many
  signatures under an absent key as the pool has sessions drain it: then no signature is made under any key.
\<close>

theorem sign_digest_loses_session:
  assumes "pool_sessions p = s # g"
    and "find_key P s key PRIVATE_KEY (p\<lparr>pool_sessions := g\<rparr>) = (Err e, p1)"
    and "find_key P s key PUBLIC_KEY (p\<lparr>pool_sessions := g\<rparr>) = (Err e', p2)"
  shows "fst (sign_digest P wakes key mech digest p) = Err e \<and>
    pool_sessions (snd (sign_digest P wakes key mech digest p)) = g \<and>
    fst (public_key P wakes key p) = Err e' \<and> pool_sessions (snd (public_key P wakes key p)) = g @ [s] \<and>
    ((\<forall>s q. \<exists>e. fst (find_key P s key PRIVATE_KEY q) = Err e) \<longrightarrow> length reqs = length (pool_sessions p) \<longrightarrow>
     list_all (\<lambda>w. fst w = []) wakes' \<longrightarrow>
     fst (sign_digest P wakes' key' mech' digest' (sign_requests P key reqs p)) = Err PoolExhausted)"
  using sign_digest_lost_key [OF assms(1,2)] public_key_lost_key [OF assms(1,3)]
  by (simp add: sign_digest_exhausted sign_requests_drain)

theorem sign_digest_loses_session_witness:
  "pool_sessions (snd (sign_digest ref_pkcs11 [] \<lparr>key_ref_label = ''absent''\<rparr> EcdsaP256Sha256 [] (sl_pool ref_sealer))) = [] \<and>
   fst (sign_digest ref_pkcs11 [] (sl_key ref_sealer) EcdsaP256Sha256 [1]
     (sign_requests ref_pkcs11 \<lparr>key_ref_label = ''absent''\<rparr> [([], EcdsaP256Sha256, [])] (sl_pool ref_sealer))) = Err PoolExhausted"
proof -
  have absent: "\<exists>e. fst (find_key ref_pkcs11 s \<lparr>key_ref_label = ''absent''\<rparr> cls q) = Err e" for s cls q
    by (simp add: find_key_def on_token_def ref_pkcs11_def ref_label_def act_bind_def act_lift_def)
  have lookup: "find_key ref_pkcs11 0 \<lparr>key_ref_label = ''absent''\<rparr> cls (sl_pool ref_sealer\<lparr>pool_sessions := []\<rparr>) =
      (Err (KeyNotFound ''absent''), sl_pool ref_sealer\<lparr>pool_sessions := []\<rparr>)" for cls
    by (simp add: find_key_def on_token_def ref_pkcs11_def ref_sealer_def ref_label_def act_bind_def act_lift_def)
  from sign_digest_loses_session [OF _ lookup lookup] absent show ?thesis by (simp add: ref_sealer_def)
qed

section \<open>Shared bricks\<close>


text \<open>
  C29. Canonical bytes are exact: two documents within the reader's depth have the same canonical
  bytes exactly when they have the same contents up to the order of object entries.
\<close>

theorem canonical_form_exact:
  assumes "zs_libraries X" "json_wf v" "json_wf w" "json_depth v \<le> 127" "json_depth w \<le> 127"
  shows "(canonical_bytes X v :: (bytes, status) outcome) = canonical_bytes X w \<longleftrightarrow> json_perm v w"
  using assms(2-) by (rule zs_libraries.canonical_bytes_eq_iff_perm [OF assms(1)])

theorem canonical_form_exact_witness:
  "(canonical_bytes ref_ext (JObject [(''a'', JNull), (''b'', JBool True)]) :: (bytes, status) outcome) =
     canonical_bytes ref_ext (JObject [(''b'', JBool True), (''a'', JNull)]) \<longleftrightarrow>
   json_perm (JObject [(''a'', JNull), (''b'', JBool True)]) (JObject [(''b'', JBool True), (''a'', JNull)])"
  by (rule canonical_form_exact [OF ref_token.zs_libraries_axioms]) simp_all

text \<open>
  C30. The size guard of \<open>audit-seal/v1\<close>: every event that is sealed fits the bound that verification
  enforces, because the placeholder of the guard has exactly the size of the signature.
\<close>

theorem sealed_event_within_bound:
  assumes "signing_key X P label pk" "audit_seal X P wakes e sl = (Ok bs, sl')"
    and "sl_key sl = \<lparr>key_ref_label = label\<rparr>"
  shows "length bs \<le> AUDIT_MAX_BYTES"
  using assms(2,3) by (rule signing_key.audit_seal_size [OF assms(1)])

theorem sealed_event_within_bound_witness:
  "audit_seal ref_ext ref_pkcs11 [] ref_event ref_sealer = (Ok ref_sealed, ref_sealer) \<and>
   length ref_sealed \<le> AUDIT_MAX_BYTES"
  using sealed_event_within_bound [OF ref_token.signing_key_axioms ref_sealed_run] ref_sealed_run
  by (simp add: ref_sealer_def)

text \<open>
  C31. The functions that read untrusted bytes or messages never panic: the three verifications, both
  ceremonies (when the CBOR reader stays within its input), the verification of a chain and the
  conversion of a sealing request.
\<close>

theorem verifiers_never_panic:
  "audit_seal_verify X keys bs audit_policy \<noteq> Panic \<and> identity_assertion_verify X keys bs identity_policy \<noteq> Panic \<and>
   decision_seal_verify X keys fs key_id sig \<noteq> Panic \<and> verify_authentication_ceremony W input \<noteq> Panic \<and>
   (cbor_reader_ok W \<longrightarrow> verify_registration_ceremony W registration \<noteq> Panic) \<and>
   verify_chain X es \<noteq> Panic \<and> fields_from_request req \<noteq> Panic"
  using verify_registration_ceremony_not_Panic [of W registration]
  by (simp add: audit_seal_verify_not_Panic identity_assertion_verify_not_Panic decision_seal_verify_not_Panic
      verify_authentication_not_Panic verify_chain_not_Panic fields_from_request_not_Panic)

theorem verifiers_never_panic_witness:
  "verify_registration_ceremony ref_wext ref_registration \<noteq> Panic \<and>
   audit_seal_verify ref_ext ref_keys ref_sealed ref_audit_policy \<noteq> Panic"
proof -
  have "cbor_reader_ok ref_wext" by (auto simp: cbor_reader_ok_def ref_wext_def split: list.splits)
  then show ?thesis using verifiers_never_panic by blast
qed



section \<open>Timestamps\<close>

text \<open>
  C33. The conversions of the services are inverse: the seconds read back from the form of an instant
  are that instant, and days and civil dates correspond.
\<close>

theorem timestamp_round_trip:
  assumes "min_seconds \<le> s" "s \<le> max_seconds" and "civil_from_days z = (y, m, d)"
  shows "request_time_from_rfc3339 (rfc3339_from_seconds s) = (Ok s :: (int, status) outcome) \<and>
    days_from_civil y m d = z \<and> 1 \<le> m \<and> m \<le> 12 \<and> 1 \<le> d \<and> d \<le> 31"
  using rfc3339_fields [OF assms(1,2), where 'e = status] days_from_civil_from_days [OF assms(3)]
    civil_bounds [OF assms(3)] by blast

theorem timestamp_round_trip_witness:
  "request_time_from_rfc3339 (rfc3339_from_seconds 1777000000) = (Ok 1777000000 :: (int, status) outcome) \<and>
   days_from_civil 2026 4 24 = 20567"
  using timestamp_round_trip [OF _ _ ref_day, of 1777000000] by (simp add: min_seconds_def max_seconds_def)

text \<open>
  C34. The comparison of timestamps by their bytes, which every validity window relies on, is the order of
  the instants, and two instants have the same form exactly when they are equal.
\<close>

theorem timestamp_order_exact:
  assumes "min_seconds \<le> s" "s \<le> max_seconds" "min_seconds \<le> t" "t \<le> max_seconds"
  shows "(as_bytes (rfc3339_from_seconds s) < as_bytes (rfc3339_from_seconds t) \<longleftrightarrow> s < t) \<and>
    (as_bytes (rfc3339_from_seconds s) \<le> as_bytes (rfc3339_from_seconds t) \<longleftrightarrow> s \<le> t) \<and>
    (rfc3339_from_seconds s = rfc3339_from_seconds t \<longleftrightarrow> s = t)"
  using rfc3339_less_iff(1) [OF assms] rfc3339_less_iff(2) [OF assms] rfc3339_less_iff(1) [OF assms(3,4,1,2)]
  by (metis less_irrefl linorder_neqE)

theorem timestamp_order_exact_witness:
  "as_bytes (rfc3339_from_seconds 1777000000) < as_bytes (rfc3339_from_seconds 1777000001)"
  using timestamp_order_exact [of 1777000000 1777000001] by (simp add: min_seconds_def max_seconds_def)

section \<open>Logs\<close>

text \<open>
  C35. A refused log is refused at its first faulty event: everything before it is linked in every
  domain, and the error is the one of that event against the last event of its domain.
\<close>

theorem chain_error_localised:
  assumes "verify_chain X es = Err err" "es \<noteq> []"
  shows "\<exists>gs e hs. es = gs @ e # hs \<and> (\<forall>d. linked X (in_domain d gs)) \<and>
    verify_entry X (length gs) (last_view gs (ce_authority_domain e)) e = Err err"
proof -
  obtain gs e hs where parts: "es = gs @ e # hs" "\<And>d. linked X (in_domain d gs)"
    "verify_entry X (length gs) (last_view gs (ce_authority_domain e)) e = Err err"
    using verify_chain_Err [OF assms] by metis
  then show ?thesis by (intro exI [of _ gs] exI [of _ e] exI [of _ hs]) simp
qed

theorem chain_error_localised_witness:
  "\<exists>gs e hs. [ref_entry\<lparr>ce_sequence := 4\<rparr>] = gs @ e # hs \<and> (\<forall>d. linked ref_ext (in_domain d gs)) \<and>
    verify_entry ref_ext (length gs) (last_view gs (ce_authority_domain e)) e = Err (FirstSequenceNotZero ''broker'' 4)"
  by (rule chain_error_localised) (simp_all add: verify_chain_def verify_entry_def ref_entry_def)

text \<open>
  C36. The audit store keeps the contract of \<open>AuditChainStore\<close>: an event sealed behind a head is added only
  while that head is the end of the chain, so that of all the requests that read the same head at most one adds
  its event.
\<close>

theorem audit_store_no_fork:
  assumes "chain_inv X d v" and "head_known X (stored_chain d v) h" and "hd_next_sequence h \<le> MAX_SAFE_INTEGER"
    and "audit_append e (hd_next_sequence h) t d y a u (hex_encode (hd_prev_hash h)) g b v = (Ok (), v')"
    and "db_evolves v' w" and "chain_inv X d w"
  shows "h = chain_tip X (stored_chain d v) \<and>
    audit_append e' (hd_next_sequence h) t' d y' a' u' (hex_encode (hd_prev_hash h)) g' b' w \<noteq> (Ok (), w')"
proof -
  let ?row = "\<lambda>e t y a u g b. \<lparr>er_event_id = e, er_sequence = 0, er_occurred_at = t, er_authority_domain = d,
    er_event_type = y, er_actor = a, er_outcome = u, er_prev_hash = '''', er_signature = g, er_sealed_bytes = b\<rparr>"
  have linked: "append_linked d h (?row e t y a u g b) s =
      audit_append e (hd_next_sequence h) t d y a u (hex_encode (hd_prev_hash h)) g b s" for e t y a u g b s
    using assms(3) by (simp add: append_linked_def linorder_not_less [symmetric])
  have "db_evolves v v'" using audit_append_keeps [of v e] assms(4) by (metis keeps_tables_def snd_conv)
  from chains.no_fork [OF assms(1,2) _ this assms(5,6), where r = "?row e t y a u g b" and r' = "?row e' t' y' a' u' g' b'"]
  show ?thesis using assms(4) unfolding linked by blast
qed

theorem audit_store_no_fork_witness:
  "\<exists>b w. audit_append ref_uuid 0 ''1970-01-01T00:00:00Z'' ''idp'' ''authentication.succeeded'' (actor_json ''s1'') ''success''
      (hex_encode CHAIN_ROOT) (event_signature_json b) b ref_world2 = (Ok (), w) \<and>
    audit_append ''other'' 0 ''1970-01-01T00:00:01Z'' ''idp'' ''authentication.failed'' (actor_json ''s2'') ''denied''
      (hex_encode CHAIN_ROOT) (event_signature_json []) [] w \<noteq> (Ok (), w)"
proof -
  obtain b hs where run: "idp_steps ref_iext ref_pkcs11 ref_config (ref_world, [])
     (ref_world2\<lparr>db_events := [ref_stored_row b]\<rparr>, hs)" using ref_execution by blast
  let ?w = "ref_world2\<lparr>db_events := [ref_stored_row b]\<rparr>" and ?h = "\<lparr>hd_next_sequence = 0, hd_prev_hash = CHAIN_ROOT\<rparr>"
  have empty: "stored_chain ''idp'' ref_world2 = []"
    by (simp add: stored_chain_def domain_rows_def ref_world2_def ref_world1_def ref_world_def)
  then have head: "chain_inv ref_iext ''idp'' ref_world2" "head_known ref_iext (stored_chain ''idp'' ref_world2) ?h"
    by (simp_all add: chain_inv_def linked_def head_known_def chain_tip_def)
  have chain: "chain_inv ref_iext ''idp'' ?w"
    using idp_reachable(1) [OF ref_seals ref_invs(1) run] by (simp add: idp_inv_def ref_config_def)
  have first: "audit_append ref_uuid (hd_next_sequence ?h) ''1970-01-01T00:00:00Z'' ''idp'' ''authentication.succeeded''
      (actor_json ''s1'') ''success'' (hex_encode (hd_prev_hash ?h)) (event_signature_json b) b ref_world2 = (Ok (), ?w)"
    using ref_append [of b] by simp
  have "hd_next_sequence ?h \<le> MAX_SAFE_INTEGER" by simp
  from audit_store_no_fork [OF head this first db_evolves_refl chain] first show ?thesis
    unfolding chain_head.simps by blast
qed

section \<open>Answers of the services\<close>



text \<open>
  C38. An authenticator that never counts cannot authenticate: the ceremony accepts its assertion, and
  no request that carries it is ever granted, because the counter of the table must move.
\<close>

theorem zero_counter_never_granted:
  assumes "signing_key X P (sk_label ak) (sk_public ak)" and "idp_inv X ak ik (app_authority_domain cfg) w0"
    and "idp_steps X P cfg (w0, []) (w, hs)"
    and "b64_decode X ''authenticator_data'' (avr_authenticator_data req) = Ok (ai_authenticator_data input)"
    and "verify_authentication_ceremony X input = Ok claims" and "cl_new_sign_count claims = 0"
  shows "(PostAuthenticationVerify req, Done (Ok reply)) \<notin> set hs"
proof
  assume "(PostAuthenticationVerify req, Done (Ok reply)) \<in> set hs"
  from idp_reachable(3) [OF assms(1-3) this] obtain claims' where "authentication_accepted X cfg req claims' w" by auto
  then show False using assms(4-6)
    by (auto simp: authentication_accepted_def verify_authentication_iff claims_of_def input_sign_count_def Let_def)
qed

theorem zero_counter_never_granted_witness:
  "is_ok (verify_authentication_ceremony ref_iext ref_passkey_input) \<and>
   (\<exists>w r. idp_steps ref_iext ref_pkcs11 ref_config (ref_passkey_world, [])
      (w, [(PostAuthenticationVerify ref_passkey_request, Done r)]) \<and> (\<forall>reply. r \<noteq> Ok reply))"
proof -
  note run = process_steps_serve [of "router ref_iext ref_pkcs11 ref_config"
      "outside_step (app_authority_domain ref_config)" ref_passkey_world "[]" "PostAuthenticationVerify ref_passkey_request"]
  have "fst (run_handler (router ref_iext ref_pkcs11 ref_config (PostAuthenticationVerify ref_passkey_request))
      ref_passkey_world) \<noteq> Ok reply" for reply
    using zero_counter_never_granted [OF ref_seals ref_passkey_inv run ref_passkey_data ref_passkey_ceremony(1,2),
        of reply] by (auto simp del: router.simps)
  moreover have "is_ok (verify_authentication_ceremony ref_iext ref_passkey_input)" by (simp add: ref_passkey_ceremony(1))
  ultimately show ?thesis using run [unfolded append_Nil] by blast
qed

text \<open>
  C39. The verification entry answers every request, while the clock is within the years that
  the format expresses: valid exactly when the suite accepts the assertion, with an empty reason exactly
  then, and with no claim at all otherwise.
\<close>

theorem verify_assertion_contract:
  assumes "min_seconds \<le> sint secs" and "sint secs \<le> max_seconds"
  shows "\<exists>resp. assertion_verifier_verify_assertion X key (Some secs) req = Ok resp \<and>
    (vas_valid resp \<longleftrightarrow> is_ok (identity_assertion_verify X [key] (var_assertion req)
       \<lparr>iap_accepted_suites = IDP_ACCEPTED_SUITES, iap_now = rfc3339_from_seconds (sint secs),
        iap_expected_authority_domain = var_expected_authority_domain req\<rparr>)) \<and>
    (vas_valid resp \<longleftrightarrow> vas_reason resp = '''') \<and>
    (vas_valid resp \<or> vas_subject_id resp = '''' \<and> vas_aal resp = '''' \<and> vas_auth_method resp = '''' \<and>
       vas_audit_event_id resp = '''')"
proof -
  let ?v = "identity_assertion_verify X [key] (var_assertion req)
    \<lparr>iap_accepted_suites = IDP_ACCEPTED_SUITES, iap_now = rfc3339_from_seconds (sint secs),
     iap_expected_authority_domain = var_expected_authority_domain req\<rparr>"
  show ?thesis
    unfolding verify_assertion_now [OF assms]
    using identity_assertion_verify_not_Panic verify_error_reason_nonempty by (cases ?v) auto
qed

theorem verify_assertion_contract_witness:
  "\<exists>resp. assertion_verifier_verify_assertion ref_iext (verifying_key_of ref_iext ref_sealing_key) (Some 0)
      \<lparr>var_assertion = [], var_expected_authority_domain = ''idp''\<rparr> = Ok resp \<and>
    \<not> vas_valid resp \<and> vas_reason resp \<noteq> '''' \<and> vas_subject_id resp = '''' \<and> vas_audit_event_id resp = ''''"
proof -
  have "\<not> is_ok (identity_assertion_verify ref_iext [verifying_key_of ref_iext ref_sealing_key] []
      \<lparr>iap_accepted_suites = IDP_ACCEPTED_SUITES, iap_now = rfc3339_from_seconds 0, iap_expected_authority_domain = ''idp''\<rparr>)"
    by code_simp
  with verify_assertion_contract [of 0 ref_iext "verifying_key_of ref_iext ref_sealing_key"
      "\<lparr>var_assertion = [], var_expected_authority_domain = ''idp''\<rparr>"]
  show ?thesis by (auto simp: min_seconds_def max_seconds_def)
qed

text \<open>
  C40. On a token that logs an application in once, as PKCS#11 prescribes, none of the three services
  starts: each opens a pool of four sessions and takes the refusal of the second login for a failure. On a
  module that a process initialises once, the identity provider does not start: it opens two pools.
\<close>

theorem no_start_on_strict_token:
  fixes P :: "'t pkcs11" and svc :: "('a, 't) idp_service"
  shows "(relogin_refused P logged \<longrightarrow> idp_main X P h t \<noteq> Ok svc \<and> audit_sealer_main X P h t \<noteq> Ok sl \<and>
      policy_engine_main X P C read_file read_dir h t \<noteq> Ok engine) \<and>
    (initialized_once P inited \<longrightarrow> idp_main X P h t \<noteq> Ok svc)"
  by (simp add: idp_main_initialized_once)
    (simp add: idp_main_def audit_sealer_main_def policy_engine_main_def outcome_simps service_not_opened)

theorem no_start_on_strict_token_witness:
  "(\<forall>svc. idp_main ref_iext ref_strict_pkcs11 ref_host ref_fresh_token \<noteq>
      (Ok svc :: ((string, ref_token) idp_service, unit startup_exit) outcome)) \<and>
   (\<forall>svc. idp_main ref_iext ref_once_pkcs11 ref_host ref_fresh_token \<noteq>
      (Ok svc :: ((string, ref_token) idp_service, unit startup_exit) outcome)) \<and>
   (\<exists>svc. idp_main ref_iext ref_pkcs11 ref_host ref_fresh_token =
      (Ok svc :: ((string, ref_token) idp_service, unit startup_exit) outcome))"
  using no_start_on_strict_token [THEN conjunct1, rule_format, OF ref_strict_relogin]
    no_start_on_strict_token [THEN conjunct2, rule_format, OF ref_initialized_once] ref_start by blast

end
